theory Spec2Isabelle
  imports Complex_Main "HOL-Library.Multiset"
begin

section \<open>Errors and results\<close>

text \<open>
  Every exception of \<^verbatim>\<open>rgat.py\<close> is a value. \<open>ValueError\<close> and \<open>AssertionError\<close> carry a
  short tag for the message of the \<^verbatim>\<open>raise\<close> or \<^verbatim>\<open>assert\<close> they come from; the other
  constructors are the exceptions of the Python and tensor runtime (a shape mismatch, an
  index out of range, \<^verbatim>\<open>None\<close> where a tensor is needed, an attribute that was never
  created, an integer division by zero).
\<close>

datatype error =
    ValueError string
  | AssertionError string
  | RuntimeError string
  | IndexError
  | TypeError
  | AttributeError
  | ZeroDivisionError

definition ebind :: "error + 'a \<Rightarrow> ('a \<Rightarrow> error + 'b) \<Rightarrow> error + 'b" where
  "ebind m f = (case m of Inl err \<Rightarrow> Inl err | Inr a \<Rightarrow> f a)"

type_synonym vec = "real list"
type_synonym mat = "real list list"

section \<open>Parameter tensors and the host's initialisers\<close>

text \<open>
  A parameter is a tensor with its shape and its entries in row-major order, so that
  \<^verbatim>\<open>t.size()\<close> and \<^verbatim>\<open>t.view(...)\<close> read as in the source. Entries are real numbers:
  the development is over exact arithmetic.
\<close>

record tensor =
  shape :: "nat list"
  data :: "real list"

text \<open>
  The host runtime supplies what the source imports: \<open>uninit\<close> is the content of freshly
  allocated memory (by offset), \<open>glorot\<close> the random Glorot initialiser of
  \<^verbatim>\<open>torch_geometric.nn.inits\<close>.
\<close>

record host =
  uninit :: "nat \<Rightarrow> real"
  glorot :: "tensor \<Rightarrow> tensor"

definition torch_Tensor :: "host \<Rightarrow> int list \<Rightarrow> error + tensor" where
  \<comment> \<open>\<^verbatim>\<open>torch.Tensor(d1, ..., dn)\<close>: an uninitialised tensor; a negative size raises.\<close>
  "torch_Tensor H dims =
     (if list_ex (\<lambda>d. d < 0) dims then Inl (RuntimeError ''negative dimension'')
      else Inr \<lparr>shape = map nat dims,
                data = map (uninit H) [0..<prod_list (map nat dims)]\<rparr>)"

definition torch_full :: "nat list \<Rightarrow> real \<Rightarrow> tensor" where
  "torch_full sh v = \<lparr>shape = sh, data = replicate (prod_list sh) v\<rparr>"

definition torch_ones :: "int list \<Rightarrow> error + tensor" where
  "torch_ones dims =
     (if list_ex (\<lambda>d. d < 0) dims then Inl (RuntimeError ''negative dimension'')
      else Inr (torch_full (map nat dims) 1))"

definition ones :: "tensor \<Rightarrow> tensor" where
  \<comment> \<open>\<^verbatim>\<open>inits.ones(t)\<close>: fills in place, the shape stays.\<close>
  "ones t = t\<lparr>data := replicate (length (data t)) 1\<rparr>"

definition zeros :: "tensor \<Rightarrow> tensor" where
  "zeros t = t\<lparr>data := replicate (length (data t)) 0\<rparr>"

section \<open>The layer: constructor arguments and attributes\<close>

record config =
  in_channels :: int
  out_channels :: int
  num_relations :: int
  num_bases :: "int option"
  num_blocks :: "int option"
  mod_name :: "string option"
  attention_mechanism :: string
  attention_mode :: string
  heads :: int
  dim_d :: int
  concat_flag :: bool
  negative_slope :: real
  dropout :: real
  edge_dim :: "int option"
  bias_flag :: bool

text \<open>
  \<open>mod_name\<close>, \<open>dim_d\<close>, \<open>concat_flag\<close> and \<open>bias_flag\<close> are the arguments \<^verbatim>\<open>mod\<close>,
  \<^verbatim>\<open>dim\<close>, \<^verbatim>\<open>concat\<close> and \<^verbatim>\<open>bias\<close>. The attributes \<^verbatim>\<open>self.x\<close> that hold
  parameters are the fields \<open>self_x\<close>; \<open>self_alpha\<close> is \<^verbatim>\<open>self._alpha\<close>, \<open>training\<close> the
  mode flag of \<^verbatim>\<open>nn.Module\<close>. An attribute that the constructor does not create
  (\<^verbatim>\<open>self.weight\<close> with a basis decomposition) or sets to \<^verbatim>\<open>None\<close> is \<open>None\<close>.
\<close>

record layer =
  cfg :: config
  self_q :: tensor
  self_k :: tensor
  self_bias :: "tensor option"
  self_lin_edge :: "tensor option"
  self_e :: "tensor option"
  self_att :: "tensor option"
  self_basis :: "tensor option"
  self_weight :: "tensor option"
  self_w :: tensor
  self_l1 :: tensor
  self_b1 :: tensor
  self_l2 :: tensor
  self_b2 :: tensor
  self_alpha :: "mat option"
  training :: bool

subsection \<open>\<^verbatim>\<open>RGATConv.reset_parameters\<close>\<close>

text \<open>
  The method mutates the parameters in place and may raise in the middle (line 164 divides
  by \<^verbatim>\<open>self.out_channels\<close>): it returns the layer as the mutations left it, and the
  exception if one was raised. The tensor that \<^verbatim>\<open>torch.full\<close> builds on line 164 is bound
  to nothing.
\<close>

definition reset_parameters :: "host \<Rightarrow> layer \<Rightarrow> layer \<times> error option" where
  "reset_parameters H L =
     (let L1 = (if num_bases (cfg L) \<noteq> None
                then L\<lparr>self_basis := map_option (glorot H) (self_basis L),
                       self_att := map_option (glorot H) (self_att L)\<rparr>
                else L\<lparr>self_weight := map_option (glorot H) (self_weight L)\<rparr>);
          L2 = L1\<lparr>self_q := glorot H (self_q L1),
                  self_k := glorot H (self_k L1),
                  self_bias := map_option zeros (self_bias L1),
                  self_l1 := ones (self_l1 L1),
                  self_b1 := zeros (self_b1 L1)\<rparr>
      in if out_channels (cfg L) = 0 then (L2, Some ZeroDivisionError)
         else
           (let discarded = torch_full (shape (self_l2 L2)) (1 / real_of_int (out_channels (cfg L)));
                L3 = L2\<lparr>self_b2 := zeros (self_b2 L2)\<rparr>
            in if self_lin_edge L3 \<noteq> None
               then (L3\<lparr>self_lin_edge := map_option (glorot H) (self_lin_edge L3),
                        self_e := map_option (glorot H) (self_e L3)\<rparr>, None)
               else (L3, None)))"

subsection \<open>\<^verbatim>\<open>RGATConv.__init__\<close>\<close>

definition mod_types :: "string list" where
  "mod_types = [''additive'', ''scaled'', ''f-additive'', ''f-scaled'']"

definition check_args :: "config \<Rightarrow> error option" where
  \<comment> \<open>lines 68 to 91: the first failing check raises\<close>
  "check_args c =
     (if attention_mechanism c \<noteq> ''within-relation''
         \<and> attention_mechanism c \<noteq> ''across-relation''
      then Some (ValueError ''attention mechanism'')
      else if attention_mode c \<noteq> ''additive-self-attention''
         \<and> attention_mode c \<noteq> ''multiplicative-self-attention''
      then Some (ValueError ''attention mode'')
      else if attention_mode c = ''additive-self-attention'' \<and> dim_d c > 1
      then Some (ValueError ''additive-self-attention with d > 1'')
      else if dropout c > 0
         \<and> (case mod_name c of None \<Rightarrow> False | Some m \<Rightarrow> m \<in> set mod_types)
      then Some (ValueError ''mod must be None with dropout'')
      else if num_bases c \<noteq> None \<and> num_blocks c \<noteq> None
      then Some (ValueError ''both basis and block decomposition'')
      else None)"

definition alloc_bias :: "host \<Rightarrow> config \<Rightarrow> error + tensor option" where
  \<comment> \<open>lines 102 to 108\<close>
  "alloc_bias H c =
     (if bias_flag c \<and> concat_flag c
      then map_sum id Some (torch_Tensor H [heads c * dim_d c * out_channels c])
      else if bias_flag c \<and> \<not> concat_flag c
      then map_sum id Some (torch_Tensor H [dim_d c * out_channels c])
      else Inr None)"

definition alloc_edge :: "host \<Rightarrow> config \<Rightarrow> error + (tensor option \<times> tensor option)" where
  \<comment> \<open>lines 110 to 119; \<^verbatim>\<open>Linear(edge_dim, heads * out_channels, bias=False)\<close> holds one
      weight of shape \<open>(heads * out_channels, edge_dim)\<close>, Glorot-initialised\<close>
  "alloc_edge H c =
     (case edge_dim c of
        Some ed \<Rightarrow>
          ebind (torch_Tensor H [heads c * out_channels c, ed]) (\<lambda>lw.
          ebind (torch_Tensor H [heads c * out_channels c, heads c * dim_d c]) (\<lambda>ew.
            Inr (Some (glorot H lw), Some ew)))
      | None \<Rightarrow> Inr (None, None))"

definition alloc_relation ::
    "host \<Rightarrow> config \<Rightarrow> error + (tensor option \<times> tensor option \<times> tensor option)" where
  \<comment> \<open>lines 121 to 141, giving \<open>(att, basis, weight)\<close>\<close>
  "alloc_relation H c =
     (case num_bases c of
        Some nb \<Rightarrow>
          ebind (torch_Tensor H [num_relations c, nb]) (\<lambda>a.
          ebind (torch_Tensor H [nb, in_channels c, heads c * out_channels c]) (\<lambda>b.
            Inr (Some a, Some b, None)))
      | None \<Rightarrow>
          (case num_blocks c of
             Some nk \<Rightarrow>
               if nk = 0 then Inl ZeroDivisionError
               else if \<not> (in_channels c mod nk = 0 \<and> (heads c * out_channels c) mod nk = 0)
               then Inl (AssertionError ''multiple of num_blocks'')
               else ebind (torch_Tensor H [num_relations c, nk, in_channels c div nk,
                                           (heads c * out_channels c) div nk]) (\<lambda>w.
                      Inr (None, None, Some w))
           | None \<Rightarrow>
               ebind (torch_Tensor H [num_relations c, in_channels c,
                                      heads c * out_channels c]) (\<lambda>w.
                 Inr (None, None, Some w))))"

definition init :: "host \<Rightarrow> config \<Rightarrow> error + layer" where
  "init H c =
     (case check_args c of
        Some err \<Rightarrow> Inl err
      | None \<Rightarrow>
          ebind (torch_Tensor H [heads c * out_channels c, heads c * dim_d c]) (\<lambda>q.
          ebind (torch_Tensor H [heads c * out_channels c, heads c * dim_d c]) (\<lambda>k.
          ebind (alloc_bias H c) (\<lambda>b.
          ebind (alloc_edge H c) (\<lambda>(le, ew).
          ebind (alloc_relation H c) (\<lambda>(a, bs, wt).
          ebind (torch_ones [out_channels c]) (\<lambda>w.
          ebind (torch_Tensor H [1, out_channels c]) (\<lambda>l1.
          ebind (torch_Tensor H [1, out_channels c]) (\<lambda>b1.
          ebind (torch_Tensor H [out_channels c, out_channels c]) (\<lambda>l2.
          ebind (torch_Tensor H [1, out_channels c]) (\<lambda>b2.
            (case reset_parameters H
                    \<lparr>cfg = c, self_q = q, self_k = k, self_bias = b, self_lin_edge = le,
                     self_e = ew, self_att = a, self_basis = bs, self_weight = wt,
                     self_w = w, self_l1 = l1, self_b1 = b1, self_l2 = l2, self_b2 = b2,
                     self_alpha = None, training = True\<rparr> of
               (L, Some err) \<Rightarrow> Inl err
             | (L, None) \<Rightarrow> Inr L))))))))))))"


definition default_config :: "int \<Rightarrow> int \<Rightarrow> int \<Rightarrow> config" where
  \<comment> \<open>the defaults of the constructor's signature (lines 29 to 43)\<close>
  "default_config ic oc nr =
     \<lparr>in_channels = ic, out_channels = oc, num_relations = nr, num_bases = None,
      num_blocks = None, mod_name = None, attention_mechanism = ''across-relation'',
      attention_mode = ''additive-self-attention'', heads = 1, dim_d = 1,
      concat_flag = True, negative_slope = 2 / 10, dropout = 0, edge_dim = None,
      bias_flag = True\<rparr>"

definition host0 :: host where
  \<comment> \<open>a host for closed evaluation: memory is zeroed, the Glorot draw is the identity\<close>
  "host0 = \<lparr>uninit = (\<lambda>_. 0), glorot = (\<lambda>t. t)\<rparr>"

definition host1 :: host where
  \<comment> \<open>a host whose fresh memory is visibly not initialised and whose Glorot draw is
      visibly a change\<close>
  "host1 = \<lparr>uninit = (\<lambda>n. 7 + real n),
            glorot = (\<lambda>t. t\<lparr>data := map (\<lambda>_. 1 / 2) (data t)\<rparr>)\<rparr>"

definition layer1 :: layer where
  \<comment> \<open>the layer that \<open>init host1 (default_config 2 2 2)\<close> returns\<close>
  "layer1 =
     \<lparr>cfg = default_config 2 2 2,
      self_q = \<lparr>shape = [2, 1], data = [1 / 2, 1 / 2]\<rparr>,
      self_k = \<lparr>shape = [2, 1], data = [1 / 2, 1 / 2]\<rparr>,
      self_bias = Some \<lparr>shape = [2], data = [0, 0]\<rparr>,
      self_lin_edge = None, self_e = None, self_att = None, self_basis = None,
      self_weight = Some \<lparr>shape = [2, 2, 2],
                           data = [1 / 2, 1 / 2, 1 / 2, 1 / 2, 1 / 2, 1 / 2, 1 / 2, 1 / 2]\<rparr>,
      self_w = \<lparr>shape = [2], data = [1, 1]\<rparr>,
      self_l1 = \<lparr>shape = [1, 2], data = [1, 1]\<rparr>,
      self_b1 = \<lparr>shape = [1, 2], data = [0, 0]\<rparr>,
      self_l2 = \<lparr>shape = [2, 2], data = [7, 8, 9, 10]\<rparr>,
      self_b2 = \<lparr>shape = [1, 2], data = [0, 0]\<rparr>,
      self_alpha = None, training = True\<rparr>"

definition layer1_with :: "string option \<Rightarrow> string \<Rightarrow> layer" where
  \<comment> \<open>the same layer with another modulation and another attention scope\<close>
  "layer1_with m mech =
     layer1\<lparr>cfg := (default_config 2 2 2)\<lparr>mod_name := m, attention_mechanism := mech\<rparr>\<rparr>"

definition layer1_dropout :: "real \<Rightarrow> layer" where
  \<comment> \<open>the layer that \<open>init host1\<close> returns for the same arguments and \<open>dropout = r\<close>\<close>
  "layer1_dropout r = layer1\<lparr>cfg := (default_config 2 2 2)\<lparr>dropout := r\<rparr>\<rparr>"

section \<open>Tensor operations of the forward pass\<close>

text \<open>
  Activations are lists of rows, one row per edge or per node; a row holds the row-major
  flattening of the remaining axes, which is the memory layout that \<^verbatim>\<open>view\<close> regroups.
  The data model fixes the shapes: node features \<open>(N, in_channels)\<close>, \<open>E\<close> edges, \<open>E\<close>
  relation ids, edge attributes \<open>(E, edge_dim)\<close> or \<open>(E,)\<close>. The block-diagonal
  transform regroups its operands with \<^verbatim>\<open>view\<close> and broadcasts a batch of size 1 in
  \<^verbatim>\<open>einsum\<close>, as torch does, so that it also returns on feature rows of another width. In the
  other operations an operand of another shape is rejected with \<open>RuntimeError\<close>. An empty
  list of rows has no width.
\<close>

datatype dtype = Float | Long

datatype edge_attr = Attr1 vec | Attr2 mat

definition tsize :: "tensor \<Rightarrow> nat \<Rightarrow> nat" where
  \<comment> \<open>\<^verbatim>\<open>t.size(k)\<close>; every parameter has the rank its constructor gives it\<close>
  "tsize t k = (if k < length (shape t) then shape t ! k else 0)"

definition at2 :: "tensor \<Rightarrow> nat \<Rightarrow> nat \<Rightarrow> real" where
  "at2 t i j = data t ! (i * tsize t 1 + j)"

definition at3 :: "tensor \<Rightarrow> nat \<Rightarrow> nat \<Rightarrow> nat \<Rightarrow> real" where
  "at3 t r i j = data t ! ((r * tsize t 1 + i) * tsize t 2 + j)"

definition at4 :: "tensor \<Rightarrow> nat \<Rightarrow> nat \<Rightarrow> nat \<Rightarrow> nat \<Rightarrow> real" where
  "at4 t r c d j = data t ! (((r * tsize t 1 + c) * tsize t 2 + d) * tsize t 3 + j)"

definition chunks :: "nat \<Rightarrow> 'a list \<Rightarrow> 'a list list" where
  \<comment> \<open>a flat row regrouped into blocks of \<open>n\<close> entries\<close>
  "chunks n xs = map (\<lambda>i. take n (drop (i * n) xs)) [0..<length xs div n]"

definition index_select :: "'a list \<Rightarrow> int list \<Rightarrow> error + 'a list" where
  \<comment> \<open>\<^verbatim>\<open>torch.index_select(t, 0, idx)\<close>: no negative indices\<close>
  "index_select xs idx =
     (if list_all (\<lambda>i. 0 \<le> i \<and> i < int (length xs)) idx
      then Inr (map (\<lambda>i. xs ! nat i) idx) else Inl IndexError)"

definition getitem :: "'a list \<Rightarrow> int list \<Rightarrow> error + 'a list" where
  \<comment> \<open>\<^verbatim>\<open>t[idx]\<close> with an index tensor: a negative index counts from the end\<close>
  "getitem xs idx =
     (if list_all (\<lambda>i. - int (length xs) \<le> i \<and> i < int (length xs)) idx
      then Inr (map (\<lambda>i. xs ! nat (if i < 0 then i + int (length xs) else i)) idx)
      else Inl IndexError)"

definition matmul :: "mat \<Rightarrow> tensor \<Rightarrow> error + mat" where
  \<comment> \<open>\<^verbatim>\<open>torch.matmul(A, t)\<close> with a 2-D parameter \<open>t\<close>\<close>
  "matmul A t =
     (if list_all (\<lambda>a. length a = tsize t 0) A
      then Inr (map (\<lambda>a. map (\<lambda>j. \<Sum>i\<leftarrow>[0..<tsize t 0]. a ! i * at2 t i j) [0..<tsize t 1]) A)
      else Inl (RuntimeError ''matmul''))"

definition ew2 :: "(real \<Rightarrow> real \<Rightarrow> real) \<Rightarrow> mat \<Rightarrow> mat \<Rightarrow> error + mat" where
  \<comment> \<open>an elementwise operation of two tensors of one shape\<close>
  "ew2 f A B =
     (if length A = length B \<and> list_all (\<lambda>(a, b). length a = length b) (zip A B)
      then Inr (map2 (map2 f) A B) else Inl (RuntimeError ''shape''))"

definition leaky_relu :: "real \<Rightarrow> real \<Rightarrow> real" where
  "leaky_relu slope v = (if 0 \<le> v then v else slope * v)"

definition relu :: "real \<Rightarrow> real" where
  "relu v = max 0 v"

subsection \<open>Reductions by group\<close>

definition group_rows :: "'a list \<Rightarrow> int list \<Rightarrow> int \<Rightarrow> 'a list" where
  \<comment> \<open>the rows whose group key is \<open>i\<close>, in order\<close>
  "group_rows src index i = map fst (filter (\<lambda>(row, j). j = i) (zip src index))"

definition column :: "mat \<Rightarrow> nat \<Rightarrow> vec" where
  "column rows c = map (\<lambda>row. row ! c) rows"

definition softmax_row :: "mat \<Rightarrow> vec \<Rightarrow> vec" where
  \<comment> \<open>one row against the rows of its group: subtract the group's maximum, exponentiate,
      divide by the group's sum\<close>
  "softmax_row grp row =
     map (\<lambda>c. exp (row ! c - Max (set (column grp c)))
               / (\<Sum>v\<leftarrow>column grp c. exp (v - Max (set (column grp c)))))
       [0..<length row]"

definition softmax :: "mat \<Rightarrow> int list \<Rightarrow> mat" where
  \<comment> \<open>Modelled from the spec: \<^verbatim>\<open>torch_geometric.utils.softmax\<close> is not part of the
      repository. Sections 4.1 (step 5), 6 and 9 give it as the numerically stable softmax
      by group: maximum by group, then exponential, then sum by group, then division; the
      grouping key is \<open>index\<close>. The arguments \<^verbatim>\<open>ptr\<close> (\<^verbatim>\<open>None\<close> for an edge list) and
      \<^verbatim>\<open>size_i\<close> do not change the value.\<close>
  "softmax src index = map2 (\<lambda>row i. softmax_row (group_rows src index i) row) src index"

definition aggregate :: "nat \<Rightarrow> mat \<Rightarrow> int list \<Rightarrow> nat \<Rightarrow> mat" where
  \<comment> \<open>Modelled from the spec: the aggregation of \<^verbatim>\<open>MessagePassing\<close> with
      \<^verbatim>\<open>aggr='add'\<close> (line 46) is not part of the repository. Section 4.1 (step 8): sum
      all per-edge messages sharing the same target node id into that node's output row.
      \<open>W\<close> is the width of a message row, \<open>N\<close> the number of nodes.\<close>
  "aggregate W inputs index N =
     map (\<lambda>n. map (\<lambda>c. sum_list (column (group_rows inputs index (int n)) c)) [0..<W])
       [0..<N]"

definition scatter_add :: "vec \<Rightarrow> int list \<Rightarrow> nat \<Rightarrow> vec" where
  \<comment> \<open>\<^verbatim>\<open>scatter_add(src, index, dim_size=N)\<close> on a vector\<close>
  "scatter_add src index N = map (\<lambda>n. sum_list (group_rows src index (int n))) [0..<N]"

definition select_mask :: "'a list \<Rightarrow> bool list \<Rightarrow> 'a list" where
  \<comment> \<open>\<^verbatim>\<open>t[mask]\<close>\<close>
  "select_mask xs msk = map fst (filter snd (zip xs msk))"

fun masked_assign :: "'a list \<Rightarrow> bool list \<Rightarrow> 'a list \<Rightarrow> 'a list" where
  \<comment> \<open>\<^verbatim>\<open>out[mask] = vals\<close>: the rows of \<open>vals\<close> go, in order, to the rows the mask selects\<close>
  "masked_assign (y # ys) (True # ms) (v # vs) = v # masked_assign ys ms vs"
| "masked_assign (y # ys) (False # ms) vs = y # masked_assign ys ms vs"
| "masked_assign ys ms vs = ys"


definition relation_group :: "mat \<Rightarrow> int list \<Rightarrow> int list \<Rightarrow> int \<Rightarrow> int \<Rightarrow> mat" where
  \<comment> \<open>the rows of the edges of relation \<open>t\<close> into the target \<open>i\<close>, as the loop of lines
      249 to 251 selects them\<close>
  "relation_group A ts index t i =
     group_rows (select_mask A (map (\<lambda>t'. t' = t) ts))
       (select_mask index (map (\<lambda>t'. t' = t) ts)) i"

subsection \<open>\<^verbatim>\<open>RGATConv.message\<close>, lines 194 to 216: the relation transform\<close>

definition basis_weight :: "config \<Rightarrow> tensor \<Rightarrow> tensor \<Rightarrow> int \<Rightarrow> tensor" where
  \<comment> \<open>lines 195 to 197: \<^verbatim>\<open>matmul(att, basis.view(num_bases, -1))\<close>, viewed as
      \<open>(num_relations, in_channels, heads * out_channels)\<close>\<close>
  "basis_weight c att basis nb =
     (let K = nat (in_channels c) * nat (heads c * out_channels c)
      in \<lparr>shape = [nat (num_relations c), nat (in_channels c), nat (heads c * out_channels c)],
          data = concat (map (\<lambda>r. map (\<lambda>k. \<Sum>b\<leftarrow>[0..<nat nb]. at2 att r b * data basis ! (b * K + k))
                                      [0..<K])
                           [0..<nat (num_relations c)])\<rparr>)"

definition full_row :: "tensor \<Rightarrow> vec \<Rightarrow> nat \<Rightarrow> vec" where
  \<comment> \<open>\<^verbatim>\<open>bmm\<close> for one edge: the feature row times the matrix of relation \<open>r\<close>\<close>
  "full_row w x r = map (\<lambda>j. \<Sum>i\<leftarrow>[0..<tsize w 1]. x ! i * at3 w r i j) [0..<tsize w 2]"

definition block_row :: "tensor \<Rightarrow> vec \<Rightarrow> nat \<Rightarrow> vec" where
  \<comment> \<open>\<^verbatim>\<open>einsum('abcd,acde->ace')\<close> for one edge of relation \<open>r\<close>, flattened\<close>
  "block_row w x r =
     concat (map (\<lambda>c. map (\<lambda>j. \<Sum>d\<leftarrow>[0..<tsize w 2]. x ! (c * tsize w 2 + d) * at4 w r c d j)
                          [0..<tsize w 3])
               [0..<tsize w 1])"

definition full_transform ::
    "tensor \<Rightarrow> dtype \<Rightarrow> mat \<Rightarrow> mat \<Rightarrow> int list option \<Rightarrow> error + (mat \<times> mat)" where
  \<comment> \<open>lines 214 to 216; \<^verbatim>\<open>bmm\<close> refuses integer features against a real weight\<close>
  "full_transform w dt x_i x_j edge_type =
     (case edge_type of
        None \<Rightarrow> Inl TypeError
      | Some ts \<Rightarrow>
          ebind (index_select [0..<tsize w 0] ts) (\<lambda>rs.
            if dt = Long then Inl (RuntimeError ''bmm dtype'')
            else if length rs \<noteq> length x_i \<or> \<not> list_all (\<lambda>x. length x = tsize w 1) x_i
            then Inl (RuntimeError ''bmm'')
            else if length rs \<noteq> length x_j \<or> \<not> list_all (\<lambda>x. length x = tsize w 1) x_j
            then Inl (RuntimeError ''bmm'')
            else Inr (map2 (full_row w) x_i rs, map2 (full_row w) x_j rs)))"

definition view_rows :: "nat \<Rightarrow> mat \<Rightarrow> error + mat" where
  \<comment> \<open>\<^verbatim>\<open>t.view(-1, ..., K)\<close> of a contiguous tensor: the row-major memory of \<open>t\<close> regrouped
      into rows of \<open>K\<close> entries, whatever the rows of \<open>t\<close> were; refused when \<open>K\<close> is zero or
      does not divide the number of entries\<close>
  "view_rows K X =
     (if K = 0 \<or> length (concat X) mod K \<noteq> 0 then Inl (RuntimeError ''view'')
      else Inr (chunks K (concat X)))"

definition einsum_rows :: "tensor \<Rightarrow> mat \<Rightarrow> nat list \<Rightarrow> error + mat" where
  \<comment> \<open>\<^verbatim>\<open>einsum('abcd,acde->ace', x, w)\<close> with \<open>x\<close> of shape \<open>(a, 1, size(1), size(2))\<close> and one
      selected weight per relation id; a batch axis of size 1 is broadcast against the other\<close>
  "einsum_rows w X rs =
     (if length X = length rs then Inr (map2 (block_row w) X rs)
      else if length X = 1 then Inr (map (block_row w (hd X)) rs)
      else if length rs = 1 then Inr (map (\<lambda>x. block_row w x (hd rs)) X)
      else Inl (RuntimeError ''einsum''))"

definition view_out :: "config \<Rightarrow> mat \<Rightarrow> error + mat" where
  \<comment> \<open>\<^verbatim>\<open>out.contiguous().view(-1, self.heads * self.out_channels)\<close>\<close>
  "view_out c X =
     (if heads c * out_channels c \<le> 0 then Inl (RuntimeError ''view'')
      else view_rows (nat (heads c * out_channels c)) X)"

definition block_transform ::
    "layer \<Rightarrow> dtype \<Rightarrow> mat \<Rightarrow> mat \<Rightarrow> int list option \<Rightarrow> error + (mat \<times> mat)" where
  \<comment> \<open>lines 199 to 210\<close>
  "block_transform L dt x_i x_j edge_type =
     (if dt = Long then Inl (ValueError ''non-continuous input features'')
      else
        (case self_weight L of
           None \<Rightarrow> Inl AttributeError
         | Some w \<Rightarrow>
             ebind (view_rows (tsize w 1 * tsize w 2) x_i) (\<lambda>xi.
             ebind (view_rows (tsize w 1 * tsize w 2) x_j) (\<lambda>xj.
               (case edge_type of
                  None \<Rightarrow> Inl TypeError
                | Some ts \<Rightarrow>
                    ebind (index_select [0..<tsize w 0] ts) (\<lambda>rs.
                    ebind (einsum_rows w xi rs) (\<lambda>oi.
                    ebind (view_out (cfg L) oi) (\<lambda>outi.
                    ebind (einsum_rows w xj rs) (\<lambda>oj.
                    ebind (view_out (cfg L) oj) (\<lambda>outj.
                      Inr (outi, outj)))))))))))"

definition block_shapes :: "layer \<Rightarrow> mat \<Rightarrow> bool" where
  \<comment> \<open>the shapes of the data model in the block-diagonal mode: the weight
      \<open>(num_relations, num_blocks, in_channels / num_blocks, heads * out_channels / num_blocks)\<close>
      of line 127 takes feature rows of width \<open>size(1) * size(2)\<close> to rows of width
      \<open>size(1) * size(3) = heads * out_channels\<close>; nothing is asked in the other modes\<close>
  "block_shapes L X =
     (case num_blocks (cfg L) of
        None \<Rightarrow> True
      | Some nk \<Rightarrow>
          (case self_weight L of
             None \<Rightarrow> True
           | Some w \<Rightarrow>
               list_all (\<lambda>x. length x = tsize w 1 * tsize w 2) X
               \<and> int (tsize w 1 * tsize w 3) = heads (cfg L) * out_channels (cfg L)))"

definition transform ::
    "layer \<Rightarrow> dtype \<Rightarrow> mat \<Rightarrow> mat \<Rightarrow> int list option \<Rightarrow> error + (mat \<times> mat)" where
  \<comment> \<open>lines 194 to 216, giving \<open>(outi, outj)\<close>\<close>
  "transform L dt x_i x_j edge_type =
     ebind (case num_bases (cfg L) of
              None \<Rightarrow> Inr None
            | Some nb \<Rightarrow>
                (case self_att L of
                   None \<Rightarrow> Inl AttributeError
                 | Some a \<Rightarrow>
                     (case self_basis L of
                        None \<Rightarrow> Inl AttributeError
                      | Some b \<Rightarrow> Inr (Some (basis_weight (cfg L) a b nb))))) (\<lambda>wb.
       case num_blocks (cfg L) of
         Some nk \<Rightarrow> block_transform L dt x_i x_j edge_type
       | None \<Rightarrow>
           ebind (case wb of
                    Some w \<Rightarrow> Inr w
                  | None \<Rightarrow>
                      (case self_weight L of
                         None \<Rightarrow> Inl AttributeError
                       | Some w \<Rightarrow> Inr w)) (\<lambda>w.
             full_transform w dt x_i x_j edge_type))"

subsection \<open>Lines 218 to 254: attention logits and their normalisation\<close>

definition lin_apply :: "tensor \<Rightarrow> mat \<Rightarrow> error + mat" where
  \<comment> \<open>\<^verbatim>\<open>Linear\<close> without bias: the rows times the transposed weight\<close>
  "lin_apply lw A =
     (if list_all (\<lambda>a. length a = tsize lw 1) A
      then Inr (map (\<lambda>a. map (\<lambda>j. \<Sum>d\<leftarrow>[0..<tsize lw 1]. a ! d * at2 lw j d) [0..<tsize lw 0]) A)
      else Inl (RuntimeError ''linear''))"

definition edge_term :: "layer \<Rightarrow> edge_attr \<Rightarrow> int list option \<Rightarrow> error + mat" where
  \<comment> \<open>lines 223 to 233, giving \<^verbatim>\<open>alpha_edge\<close>\<close>
  "edge_term L ea edge_type =
     (let A = (case ea of Attr1 v \<Rightarrow> map (\<lambda>a. [a]) v | Attr2 m \<Rightarrow> m)
      in case self_lin_edge L of
           None \<Rightarrow> Inl (AssertionError ''set edge_dim'')
         | Some lw \<Rightarrow>
             ebind (lin_apply lw A) (\<lambda>p.
               if \<not> (0 < heads (cfg L) * out_channels (cfg L)
                     \<and> int (tsize lw 0) = heads (cfg L) * out_channels (cfg L))
               then Inl (RuntimeError ''view'')
               else
                 ebind (if length p \<noteq> length A
                        then (case edge_type of
                                None \<Rightarrow> Inl TypeError
                              | Some ts \<Rightarrow> index_select p ts)
                        else Inr p) (\<lambda>edge_attributes.
                   case self_e L of
                     None \<Rightarrow> Inl TypeError
                   | Some ew \<Rightarrow> matmul edge_attributes ew)))"

definition scores :: "config \<Rightarrow> mat \<Rightarrow> mat \<Rightarrow> mat option \<Rightarrow> error + mat" where
  \<comment> \<open>lines 235 to 245; with neither mode \<^verbatim>\<open>alpha\<close> stays \<^verbatim>\<open>torch.tensor([0])\<close>\<close>
  "scores c qi kj alpha_edge =
     (if attention_mode c = ''additive-self-attention''
      then map_sum id (map (map (leaky_relu (negative_slope c))))
             (case alpha_edge of
                Some ae \<Rightarrow> ebind (ew2 (+) qi kj) (\<lambda>s. ew2 (+) s ae)
              | None \<Rightarrow> ew2 (+) qi kj)
      else if attention_mode c = ''multiplicative-self-attention''
      then (case alpha_edge of
              Some ae \<Rightarrow> ebind (ew2 (*) qi kj) (\<lambda>s. ew2 (*) s ae)
            | None \<Rightarrow> ew2 (*) qi kj)
      else Inr [[0]])"

definition within_relation :: "nat \<Rightarrow> mat \<Rightarrow> int list \<Rightarrow> int list \<Rightarrow> mat" where
  \<comment> \<open>lines 248 to 252: the loop over \<^verbatim>\<open>range(self.num_relations)\<close>\<close>
  "within_relation R alpha ts index =
     fold (\<lambda>r across_out.
             masked_assign across_out (map (\<lambda>t. t = int r) ts)
               (softmax (select_mask alpha (map (\<lambda>t. t = int r) ts))
                        (select_mask index (map (\<lambda>t. t = int r) ts))))
       [0..<R] (map (map (\<lambda>_. 0)) alpha)"

definition normalize_alpha :: "config \<Rightarrow> mat \<Rightarrow> int list option \<Rightarrow> int list \<Rightarrow> error + mat" where
  \<comment> \<open>lines 247 to 254; a mask of another length than the tensor it indexes raises, and
      \<^verbatim>\<open>edge_type\<close> is a tensor here, \<^verbatim>\<open>index_select\<close> having accepted it\<close>
  "normalize_alpha c alpha edge_type index =
     (if attention_mechanism c = ''within-relation''
      then (case edge_type of
              None \<Rightarrow> Inl TypeError
            | Some ts \<Rightarrow>
                if length ts \<noteq> length alpha \<or> length index \<noteq> length alpha
                then Inl IndexError
                else Inr (within_relation (nat (num_relations c)) alpha ts index))
      else if attention_mechanism c = ''across-relation''
      then (if length index \<noteq> length alpha then Inl (RuntimeError ''softmax'')
            else Inr (softmax alpha index))
      else Inr alpha)"

definition attention ::
    "layer \<Rightarrow> dtype \<Rightarrow> mat \<Rightarrow> mat \<Rightarrow> int list option \<Rightarrow> edge_attr option \<Rightarrow> int list
       \<Rightarrow> error + (mat \<times> mat)" where
  \<comment> \<open>lines 194 to 254, giving \<open>(outj, alpha)\<close>\<close>
  "attention L dt x_i x_j edge_type ea index =
     ebind (transform L dt x_i x_j edge_type) (\<lambda>(outi, outj).
     ebind (matmul outi (self_q L)) (\<lambda>qi.
     ebind (matmul outj (self_k L)) (\<lambda>kj.
     ebind (case ea of
              None \<Rightarrow> Inr None
            | Some a \<Rightarrow> map_sum id Some (edge_term L a edge_type)) (\<lambda>alpha_edge.
     ebind (scores (cfg L) qi kj alpha_edge) (\<lambda>alpha.
     ebind (normalize_alpha (cfg L) alpha edge_type index) (\<lambda>alpha'.
       Inr (outj, alpha')))))))"


subsection \<open>Lines 258 to 322: modulation and the per-edge message\<close>

definition per_head :: "(real \<Rightarrow> real \<Rightarrow> real) \<Rightarrow> nat \<Rightarrow> vec \<Rightarrow> vec \<Rightarrow> vec" where
  \<comment> \<open>for one edge, \<open>a\<close> viewed as \<open>(heads, 1)\<close> against \<open>v\<close> viewed as \<open>(heads, out)\<close>\<close>
  "per_head f K a v = concat (map2 (\<lambda>s blk. map (f s) blk) a (chunks K v))"

definition per_head_dim :: "(real \<Rightarrow> real \<Rightarrow> real) \<Rightarrow> nat \<Rightarrow> nat \<Rightarrow> vec \<Rightarrow> vec \<Rightarrow> vec" where
  \<comment> \<open>for one edge, \<open>a\<close> viewed as \<open>(heads, dim, 1)\<close> against \<open>v\<close> viewed as
      \<open>(heads, 1, out)\<close>\<close>
  "per_head_dim f D K a v =
     concat (map2 (\<lambda>ss blk. concat (map (\<lambda>s. map (f s) blk) ss)) (chunks D a) (chunks K v))"

definition times_last :: "vec \<Rightarrow> nat \<Rightarrow> vec \<Rightarrow> vec" where
  \<comment> \<open>a vector of \<open>K\<close> entries broadcast over the blocks of a flat row\<close>
  "times_last u K row = concat (map (\<lambda>blk. map2 (*) u blk) (chunks K row))"

definition shapes_add :: "config \<Rightarrow> mat \<Rightarrow> mat \<Rightarrow> bool" where
  \<comment> \<open>\<^verbatim>\<open>alpha.view(-1, heads, 1)\<close> and \<^verbatim>\<open>outj.view(-1, heads, out_channels)\<close> both have one
      entry per edge\<close>
  "shapes_add c outj alpha =
     (0 < heads c \<and> 0 < out_channels c \<and> length alpha = length outj
      \<and> list_all (\<lambda>a. length a = nat (heads c)) alpha
      \<and> list_all (\<lambda>v. length v = nat (heads c) * nat (out_channels c)) outj)"

definition shapes_mul :: "config \<Rightarrow> mat \<Rightarrow> mat \<Rightarrow> bool" where
  \<comment> \<open>\<^verbatim>\<open>alpha.view(-1, heads, dim, 1)\<close> and \<^verbatim>\<open>outj.view(-1, heads, 1, out_channels)\<close>\<close>
  "shapes_mul c outj alpha =
     (0 < heads c \<and> 0 < dim_d c \<and> 0 < out_channels c \<and> length alpha = length outj
      \<and> list_all (\<lambda>a. length a = nat (heads c) * nat (dim_d c)) alpha
      \<and> list_all (\<lambda>v. length v = nat (heads c) * nat (out_channels c)) outj)"

definition degree_of :: "int list \<Rightarrow> nat \<Rightarrow> error + vec" where
  \<comment> \<open>\<^verbatim>\<open>scatter_add(ones, index, dim_size=size_i)[index]\<close>: the in-degree of each edge's
      target\<close>
  "degree_of index size_i =
     (if list_all (\<lambda>i. 0 \<le> i \<and> i < int size_i) index
      then Inr (map (\<lambda>i. scatter_add (replicate (length index) 1) index size_i ! nat i) index)
      else Inl IndexError)"

definition add_row :: "mat \<Rightarrow> tensor \<Rightarrow> error + mat" where
  \<comment> \<open>a parameter of one row, or a vector, added to every row\<close>
  "add_row A t =
     (if list_all (\<lambda>a. length a = length (data t)) A
      then Inr (map (\<lambda>a. map2 (+) a (data t)) A) else Inl (RuntimeError ''shape''))"

definition degree_mlp :: "layer \<Rightarrow> vec \<Rightarrow> error + mat" where
  \<comment> \<open>lines 281 to 283 and 293 to 295\<close>
  "degree_mlp L deg =
     ebind (matmul (map (\<lambda>d. [d]) deg) (self_l1 L)) (\<lambda>a.
     ebind (add_row a (self_b1 L)) (\<lambda>b.
     ebind (matmul (map (map relu) b) (self_l2 L)) (\<lambda>c.
       add_row c (self_b2 L))))"

type_synonym keep_mask = "nat \<Rightarrow> nat \<Rightarrow> bool"

definition F_dropout :: "real \<Rightarrow> keep_mask \<Rightarrow> mat \<Rightarrow> error + mat" where
  \<comment> \<open>\<^verbatim>\<open>F.dropout(alpha, p, training=True)\<close>; \<open>keep e c\<close> is the host's random draw for
      entry \<open>c\<close> of row \<open>e\<close>\<close>
  "F_dropout p keep A =
     (if p < 0 \<or> 1 < p then Inl (ValueError ''dropout probability'')
      else Inr (map2 (\<lambda>e row. map2 (\<lambda>c a. if keep e c \<and> p \<noteq> 1 then a / (1 - p) else 0)
                                  [0..<length row] row)
                  [0..<length A] A))"

definition f_additive :: "real \<Rightarrow> real" where
  \<comment> \<open>line 303, one entry of \<^verbatim>\<open>torch.where(alpha > 0, alpha + 1, alpha)\<close>\<close>
  "f_additive a = (if 0 < a then a + 1 else a)"

definition adjust :: "layer \<Rightarrow> mat \<Rightarrow> int list \<Rightarrow> nat \<Rightarrow> keep_mask \<Rightarrow> error + mat" where
  \<comment> \<open>lines 258 to 315 where they do not return: the attention the last lines multiply\<close>
  "adjust L alpha index size_i keep =
     (if mod_name (cfg L) = Some ''additive'' then Inr alpha
      else if mod_name (cfg L) = Some ''scaled'' then Inr alpha
      else if mod_name (cfg L) = Some ''f-additive'' then Inr (map (map f_additive) alpha)
      else if mod_name (cfg L) = Some ''f-scaled''
      then ebind (degree_of index size_i) (\<lambda>deg.
             if length deg \<noteq> length alpha then Inl (RuntimeError ''shape'')
             else Inr (map2 (\<lambda>a d. map (\<lambda>y. y * d) a) alpha deg))
      else if training L \<and> 0 < dropout (cfg L) then F_dropout (dropout (cfg L)) keep alpha
      else Inr alpha)"

definition final_message :: "config \<Rightarrow> mat \<Rightarrow> mat \<Rightarrow> error + mat" where
  \<comment> \<open>lines 317 to 322\<close>
  "final_message c outj alpha =
     (if attention_mode c = ''additive-self-attention''
      then (if shapes_add c outj alpha
            then Inr (map2 (per_head (*) (nat (out_channels c))) alpha outj)
            else Inl (RuntimeError ''view''))
      else (if shapes_mul c outj alpha
            then Inr (map2 (per_head_dim (*) (nat (dim_d c)) (nat (out_channels c))) alpha outj)
            else Inl (RuntimeError ''view'')))"

definition modulate ::
    "layer \<Rightarrow> mat \<Rightarrow> mat \<Rightarrow> int list \<Rightarrow> nat \<Rightarrow> keep_mask \<Rightarrow> error + mat" where
  \<comment> \<open>lines 258 to 322, from \<^verbatim>\<open>outj\<close> and the normalised \<^verbatim>\<open>alpha\<close>\<close>
  "modulate L outj alpha index size_i keep =
     (let c = cfg L; D = nat (dim_d c); K = nat (out_channels c)
      in
      if mod_name c = Some ''additive'' \<and> attention_mode c = ''additive-self-attention''
      then (if \<not> shapes_add c outj alpha \<or> length (data (self_w L)) \<noteq> K
            then Inl (RuntimeError ''view'')
            else Inr (map2 (\<lambda>a v. map2 (+) (per_head (\<lambda>s y. y * s) K a v)
                                     (times_last (data (self_w L)) K
                                        (per_head (\<lambda>s y. y * s) K (map (\<lambda>_. 1) a) v)))
                        alpha outj))
      else if mod_name c = Some ''additive''
              \<and> attention_mode c = ''multiplicative-self-attention''
      then (if \<not> shapes_mul c outj alpha \<or> length (data (self_w L)) \<noteq> K
            then Inl (RuntimeError ''view'')
            else Inr (map2 (\<lambda>a v. map2 (+) (per_head_dim (\<lambda>s y. y * s) D K a v)
                                     (times_last (data (self_w L)) K
                                        (per_head_dim (\<lambda>s y. y * s) D K (map (\<lambda>_. 1) a) v)))
                        alpha outj))
      else if mod_name c = Some ''scaled'' \<and> attention_mode c = ''additive-self-attention''
      then ebind (degree_of index size_i) (\<lambda>deg.
           ebind (degree_mlp L deg) (\<lambda>dg.
             if \<not> shapes_add c outj alpha \<or> length dg \<noteq> length outj
                \<or> \<not> list_all (\<lambda>d. length d = K) dg
             then Inl (RuntimeError ''view'')
             else Inr (map2 (\<lambda>p d. times_last d K p)
                         (map2 (per_head (\<lambda>s y. y * s) K) alpha outj) dg)))
      else if mod_name c = Some ''scaled''
              \<and> attention_mode c = ''multiplicative-self-attention''
      then ebind (degree_of index size_i) (\<lambda>deg.
           ebind (degree_mlp L deg) (\<lambda>dg.
             if \<not> shapes_mul c outj alpha \<or> length dg \<noteq> length outj
                \<or> \<not> list_all (\<lambda>d. length d = K) dg
             then Inl (RuntimeError ''view'')
             else Inr (map2 (\<lambda>p d. times_last d K p)
                         (map2 (per_head_dim (\<lambda>s y. y * s) D K) alpha outj) dg)))
      else ebind (adjust L alpha index size_i keep) (\<lambda>alpha'. final_message c outj alpha'))"

definition message ::
    "layer \<Rightarrow> dtype \<Rightarrow> mat \<Rightarrow> mat \<Rightarrow> int list option \<Rightarrow> edge_attr option \<Rightarrow> int list \<Rightarrow> nat
       \<Rightarrow> keep_mask \<Rightarrow> layer \<times> (error + mat)" where
  \<comment> \<open>the layer comes back with \<^verbatim>\<open>self._alpha\<close> as line 256 left it\<close>
  "message L dt x_i x_j edge_type ea index size_i keep =
     (case attention L dt x_i x_j edge_type ea index of
        Inl err \<Rightarrow> (L, Inl err)
      | Inr (outj, alpha) \<Rightarrow>
          (L\<lparr>self_alpha := Some alpha\<rparr>, modulate L outj alpha index size_i keep))"

subsection \<open>\<^verbatim>\<open>RGATConv.update\<close>\<close>

definition mean_heads :: "nat \<Rightarrow> nat \<Rightarrow> vec \<Rightarrow> vec" where
  \<comment> \<open>\<^verbatim>\<open>aggr_out.mean(dim=1)\<close> for one node, whose row holds \<open>H\<close> blocks of \<open>K\<close> entries\<close>
  "mean_heads H K row = map (\<lambda>j. (\<Sum>h\<leftarrow>[0..<H]. row ! (h * K + j)) / real H) [0..<K]"

definition update :: "layer \<Rightarrow> mat \<Rightarrow> error + mat" where
  "update L aggr_out =
     (let c = cfg L;
          K = (if attention_mode c = ''additive-self-attention'' then nat (out_channels c)
               else nat (dim_d c) * nat (out_channels c));
          out = (if concat_flag c then aggr_out else map (mean_heads (nat (heads c)) K) aggr_out)
      in case self_bias L of
           None \<Rightarrow> Inr out
         | Some b \<Rightarrow> add_row out b)"

subsection \<open>\<^verbatim>\<open>RGATConv.forward\<close>\<close>

definition msg_width :: "config \<Rightarrow> nat" where
  \<comment> \<open>the entries of one message: \<open>(heads, out_channels)\<close> or \<open>(heads, dim, out_channels)\<close>\<close>
  "msg_width c =
     (if attention_mode c = ''additive-self-attention''
      then nat (heads c) * nat (out_channels c)
      else nat (heads c) * nat (dim_d c) * nat (out_channels c))"

definition propagate_aggr ::
    "layer \<Rightarrow> dtype \<Rightarrow> mat \<Rightarrow> (int \<times> int) list \<Rightarrow> int list option \<Rightarrow> edge_attr option
       \<Rightarrow> keep_mask \<Rightarrow> layer \<times> (error + mat)" where
  \<comment> \<open>Modelled from the spec: \<^verbatim>\<open>MessagePassing.propagate\<close> is not part of the repository.
      Section 4.1: per edge, \<open>i\<close> is the target and \<open>j\<close> the source; the rows of the two
      endpoints are gathered, \<^verbatim>\<open>message\<close> is called with the targets as \<^verbatim>\<open>index\<close> and the
      number of nodes as \<^verbatim>\<open>size_i\<close>, and the messages are aggregated by target (step 8).
      \<open>edge_index\<close> is the list of the columns \<open>(source, target)\<close> of the \<open>(2, E)\<close> tensor.\<close>
  "propagate_aggr L dt x edge_index edge_type ea keep =
     (case index_select x (map snd edge_index) of
        Inl err \<Rightarrow> (L, Inl err)
      | Inr x_i \<Rightarrow>
          (case index_select x (map fst edge_index) of
             Inl err \<Rightarrow> (L, Inl err)
           | Inr x_j \<Rightarrow>
               (case message L dt x_i x_j edge_type ea (map snd edge_index) (length x) keep of
                  (L', Inl err) \<Rightarrow> (L', Inl err)
                | (L', Inr msgs) \<Rightarrow>
                    (L', Inr (aggregate (msg_width (cfg L)) msgs (map snd edge_index)
                                (length x))))))"

definition propagate ::
    "layer \<Rightarrow> dtype \<Rightarrow> mat \<Rightarrow> (int \<times> int) list \<Rightarrow> int list option \<Rightarrow> edge_attr option
       \<Rightarrow> keep_mask \<Rightarrow> layer \<times> (error + mat)" where
  \<comment> \<open>Modelled from the spec (section 4.1, step 9): the aggregate goes through
      \<^verbatim>\<open>update\<close>.\<close>
  "propagate L dt x edge_index edge_type ea keep =
     (case propagate_aggr L dt x edge_index edge_type ea keep of
        (L', Inl err) \<Rightarrow> (L', Inl err)
      | (L', Inr aggr_out) \<Rightarrow> (L', update L' aggr_out))"

definition forward ::
    "layer \<Rightarrow> dtype \<Rightarrow> mat \<Rightarrow> (int \<times> int) list \<Rightarrow> int list option \<Rightarrow> edge_attr option
       \<Rightarrow> keep_mask \<Rightarrow> bool option
       \<Rightarrow> layer \<times> (error + (mat \<times> ((int \<times> int) list \<times> mat) option))" where
  \<comment> \<open>lines 170 to 187 for \<^verbatim>\<open>edge_index\<close> a tensor; \<^verbatim>\<open>return_attention_weights\<close> is
      \<open>None\<close> or a Boolean, and any Boolean asks for the weights\<close>
  "forward L dt x edge_index edge_type ea keep return_attention_weights =
     (case propagate L dt x edge_index edge_type ea keep of
        (L1, Inl err) \<Rightarrow> (L1, Inl err)
      | (L1, Inr out) \<Rightarrow>
          (case self_alpha L1 of
             None \<Rightarrow> (L1, Inl (AssertionError ''alpha is not None''))
           | Some alpha \<Rightarrow>
               (L1\<lparr>self_alpha := None\<rparr>,
                Inr (out, case return_attention_weights of
                            Some b \<Rightarrow> Some (edge_index, alpha)
                          | None \<Rightarrow> None))))"

section \<open>Reordering the edges\<close>

definition permute :: "nat list \<Rightarrow> 'a list \<Rightarrow> 'a list" where
  \<comment> \<open>the rows of \<open>xs\<close> in the order \<open>p\<close>: row \<open>k\<close> of the result is row \<open>p ! k\<close> of \<open>xs\<close>\<close>
  "permute p xs = map (\<lambda>k. xs ! k) p"

fun permute_attr :: "nat list \<Rightarrow> edge_attr \<Rightarrow> edge_attr" where
  "permute_attr p (Attr1 v) = Attr1 (permute p v)"
| "permute_attr p (Attr2 m) = Attr2 (permute p m)"

fun attr_rows :: "edge_attr \<Rightarrow> nat" where
  \<comment> \<open>\<^verbatim>\<open>edge_attr.size(0)\<close>\<close>
  "attr_rows (Attr1 v) = length v"
| "attr_rows (Attr2 m) = length m"

section \<open>\<^verbatim>\<open>RGAT.decode\<close>\<close>

definition rows_of :: "tensor \<Rightarrow> mat" where
  \<comment> \<open>the rows of a 2-D parameter\<close>
  "rows_of t = map (\<lambda>i. map (\<lambda>j. at2 t i j) [0..<tsize t 1]) [0..<tsize t 0]"

definition decode :: "tensor \<Rightarrow> mat \<Rightarrow> (int \<times> int) list \<Rightarrow> int list \<Rightarrow> error + vec" where
  \<comment> \<open>lines 384 to 391; the first argument is \<^verbatim>\<open>self.W\<close>\<close>
  "decode W z edge_index edge_type =
     ebind (getitem z (map fst edge_index)) (\<lambda>h.
     ebind (getitem z (map snd edge_index)) (\<lambda>t.
     ebind (getitem (rows_of W) edge_type) (\<lambda>r.
     ebind (ew2 (*) h r) (\<lambda>hr.
     ebind (ew2 (*) hr t) (\<lambda>hrt.
       Inr (map sum_list hrt))))))"

section \<open>Properties of the constructor\<close>

lemma check_args_ValueError: "check_args c = Some err \<Longrightarrow> \<exists>m. err = ValueError m"
  by (auto simp: check_args_def split: if_splits)

lemma init_check_args: "check_args c = Some err \<Longrightarrow> init H c = Inl err"
  by (simp add: init_def)

lemma init_Inr_relation:
  assumes "init H c = Inr L"
  shows "\<exists>r. alloc_relation H c = Inr r"
  using assms
  by (auto simp: init_def ebind_def split: option.splits sum.splits)

lemma init_Inr_check: "init H c = Inr L \<Longrightarrow> check_args c = None"
  by (auto simp: init_def split: option.splits)

lemma init_l2_raw:
  assumes "init H c = Inr L"
  shows "torch_Tensor H [out_channels c, out_channels c] = Inr (self_l2 L)"
proof -
  from assms obtain q k b le ew a bs wt w l1 b1 l2 b2 where
    l2: "torch_Tensor H [out_channels c, out_channels c] = Inr l2" and
    rp: "reset_parameters H
            \<lparr>cfg = c, self_q = q, self_k = k, self_bias = b, self_lin_edge = le,
             self_e = ew, self_att = a, self_basis = bs, self_weight = wt,
             self_w = w, self_l1 = l1, self_b1 = b1, self_l2 = l2, self_b2 = b2,
             self_alpha = None, training = True\<rparr> = (L, None)"
    by (auto simp: init_def ebind_def split: option.splits sum.splits prod.splits)
  from rp have "self_l2 L = l2"
    by (auto simp: reset_parameters_def Let_def split: if_splits)
  with l2 show ?thesis by simp
qed

lemma init_cfg: "init H c = Inr L \<Longrightarrow> cfg L = c"
  by (auto simp: init_def ebind_def reset_parameters_def Let_def
      split: option.splits sum.splits prod.splits if_splits)

lemma upt_4: "[0..<4] = [0, 1, 2, 3]"
  by (simp add: upt_rec)

text \<open>
  Claim C4. Each of the three conflicting argument combinations makes the constructor raise
  a \<^verbatim>\<open>ValueError\<close> (the spec's configuration error), whatever the other arguments are:
  both \<^verbatim>\<open>num_bases\<close> and \<^verbatim>\<open>num_blocks\<close> set; the additive score with \<^verbatim>\<open>dim = 2\<close>;
  \<^verbatim>\<open>dropout = 0.5\<close> with \<^verbatim>\<open>mod = "scaled"\<close>. The error is the result of \<open>init\<close> itself,
  so it is raised at construction, before any forward call.
\<close>

theorem init_rejects_conflicts:
  "(num_bases c \<noteq> None \<and> num_blocks c \<noteq> None \<longrightarrow> (\<exists>m. init H c = Inl (ValueError m)))
   \<and> (attention_mode c = ''additive-self-attention'' \<and> dim_d c = 2
        \<longrightarrow> (\<exists>m. init H c = Inl (ValueError m)))
   \<and> (dropout c = 1 / 2 \<and> mod_name c = Some ''scaled''
        \<longrightarrow> (\<exists>m. init H c = Inl (ValueError m)))"
proof (intro conjI impI)
  assume "num_bases c \<noteq> None \<and> num_blocks c \<noteq> None"
  then have "check_args c \<noteq> None"
    by (auto simp: check_args_def)
  then obtain err where "check_args c = Some err"
    by blast
  then show "\<exists>m. init H c = Inl (ValueError m)"
    using check_args_ValueError init_check_args by blast
next
  assume "attention_mode c = ''additive-self-attention'' \<and> dim_d c = 2"
  then have "check_args c \<noteq> None"
    by (auto simp: check_args_def)
  then obtain err where "check_args c = Some err"
    by blast
  then show "\<exists>m. init H c = Inl (ValueError m)"
    using check_args_ValueError init_check_args by blast
next
  assume "dropout c = 1 / 2 \<and> mod_name c = Some ''scaled''"
  then have "check_args c \<noteq> None"
    by (auto simp: check_args_def mod_types_def)
  then obtain err where "check_args c = Some err"
    by blast
  then show "\<exists>m. init H c = Inl (ValueError m)"
    using check_args_ValueError init_check_args by blast
qed

theorem init_rejects_conflicts_witness:
  "init host0 ((default_config 3 2 2)\<lparr>num_bases := Some 2, num_blocks := Some 2\<rparr>)
     = Inl (ValueError ''both basis and block decomposition'')
   \<and> init host0 ((default_config 3 2 2)\<lparr>dim_d := 2\<rparr>)
     = Inl (ValueError ''additive-self-attention with d > 1'')
   \<and> init host0 ((default_config 3 2 2)\<lparr>dropout := 1 / 2, mod_name := Some ''scaled''\<rparr>)
     = Inl (ValueError ''mod must be None with dropout'')"
  using
    init_rejects_conflicts
      [of "(default_config 3 2 2)\<lparr>num_bases := Some 2, num_blocks := Some 2\<rparr>" host0]
    init_rejects_conflicts [of "(default_config 3 2 2)\<lparr>dim_d := 2\<rparr>" host0]
    init_rejects_conflicts
      [of "(default_config 3 2 2)\<lparr>dropout := 1 / 2, mod_name := Some ''scaled''\<rparr>" host0]
  by (simp add: init_def check_args_def default_config_def mod_types_def)

text \<open>
  Claim C3, as stated, fails: construction does not succeed regardless of divisibility.
  With \<^verbatim>\<open>in_channels = 8\<close>, \<^verbatim>\<open>heads * out_channels = 12\<close> and \<^verbatim>\<open>num_blocks = 3\<close> the
  assertion of lines 128 to 132 fails inside the constructor.
\<close>

theorem init_block_counterexample:
  "init host0 ((default_config 8 12 2)\<lparr>num_blocks := Some 3\<rparr>)
     = Inl (AssertionError ''multiple of num_blocks'')"
  by (simp add: init_def check_args_def default_config_def ebind_def torch_Tensor_def host0_def
      alloc_bias_def alloc_edge_def alloc_relation_def)

text \<open>
  Claim C3, amended. The divisibility constraints are checked by the constructor: every
  layer that \<open>init\<close> returns with \<^verbatim>\<open>num_blocks\<close> set has \<^verbatim>\<open>in_channels\<close> and
  \<^verbatim>\<open>heads * out_channels\<close> multiples of \<^verbatim>\<open>num_blocks\<close>; where the earlier checks pass,
  the allocations of lines 96 to 119 before it return (with or without \<^verbatim>\<open>edge_dim\<close>) and
  the constraint is violated, the constructor raises the assertion failure; and the divisible configuration (\<^verbatim>\<open>num_blocks = 4\<close> with 8 and 12) is
  constructed.
\<close>

theorem init_block_divisibility:
  "(init H c = Inr L \<and> num_blocks c = Some nk
      \<longrightarrow> nk \<noteq> 0 \<and> in_channels c mod nk = 0 \<and> (heads c * out_channels c) mod nk = 0)
   \<and> (check_args c = None
       \<and> torch_Tensor H [heads c * out_channels c, heads c * dim_d c] = Inr q
       \<and> alloc_bias H c = Inr b \<and> alloc_edge H c = Inr e
       \<and> num_blocks c = Some nk \<and> nk \<noteq> 0
       \<and> \<not> (in_channels c mod nk = 0 \<and> (heads c * out_channels c) mod nk = 0)
      \<longrightarrow> init H c = Inl (AssertionError ''multiple of num_blocks''))
   \<and> (\<exists>L0. init host0 ((default_config 8 12 2)\<lparr>num_blocks := Some 4\<rparr>) = Inr L0)"
proof (intro conjI impI)
  assume a: "init H c = Inr L \<and> num_blocks c = Some nk"
  then obtain r where r: "alloc_relation H c = Inr r"
    using init_Inr_relation by blast
  from a have "check_args c = None"
    using init_Inr_check by blast
  with a have nb: "num_bases c = None"
    by (auto simp: check_args_def split: if_splits)
  from r nb a show "nk \<noteq> 0"  "in_channels c mod nk = 0"
    "(heads c * out_channels c) mod nk = 0"
    by (auto simp: alloc_relation_def split: if_splits)
next
  assume a: "check_args c = None
       \<and> torch_Tensor H [heads c * out_channels c, heads c * dim_d c] = Inr q
       \<and> alloc_bias H c = Inr b \<and> alloc_edge H c = Inr e
       \<and> num_blocks c = Some nk \<and> nk \<noteq> 0
       \<and> \<not> (in_channels c mod nk = 0 \<and> (heads c * out_channels c) mod nk = 0)"
  then have nb: "num_bases c = None"
    by (auto simp: check_args_def split: if_splits)
  from a have rel: "alloc_relation H c = Inl (AssertionError ''multiple of num_blocks'')"
    by (auto simp: alloc_relation_def nb)
  from a have ca: "check_args c = None"
    and q: "torch_Tensor H [heads c * out_channels c, heads c * dim_d c] = Inr q"
    and b: "alloc_bias H c = Inr b" and e: "alloc_edge H c = Inr e"
    by blast+
  show "init H c = Inl (AssertionError ''multiple of num_blocks'')"
    by (simp add: init_def ebind_def ca q b e rel split: prod.split)
next
  show "\<exists>L0. init host0 ((default_config 8 12 2)\<lparr>num_blocks := Some 4\<rparr>) = Inr L0"
    by (simp add: init_def check_args_def default_config_def ebind_def torch_Tensor_def
        host0_def alloc_bias_def alloc_edge_def alloc_relation_def torch_ones_def
        reset_parameters_def Let_def)
qed

theorem init_block_divisibility_witness:
  "\<exists>L. init host0 ((default_config 8 12 2)\<lparr>num_blocks := Some 4\<rparr>) = Inr L
       \<and> (4::int) \<noteq> 0 \<and> (8::int) mod 4 = 0 \<and> (1 * 12 :: int) mod 4 = 0
       \<and> init host0 ((default_config 8 3 2)\<lparr>num_blocks := Some 4\<rparr>)
           = Inl (AssertionError ''multiple of num_blocks'')
       \<and> init host0 ((default_config 8 3 2)\<lparr>num_blocks := Some 4, edge_dim := Some 5\<rparr>)
           = Inl (AssertionError ''multiple of num_blocks'')"
proof -
  obtain L where L: "init host0 ((default_config 8 12 2)\<lparr>num_blocks := Some 4\<rparr>) = Inr L"
    by (simp add: init_def check_args_def default_config_def ebind_def torch_Tensor_def
        host0_def alloc_bias_def alloc_edge_def alloc_relation_def torch_ones_def
        reset_parameters_def Let_def)
  from L init_block_divisibility
      [of host0 "(default_config 8 12 2)\<lparr>num_blocks := Some 4\<rparr>" L 4]
  have f1: "(4::int) \<noteq> 0 \<and> (8::int) mod 4 = 0 \<and> (1 * 12 :: int) mod 4 = 0"
    by (simp add: default_config_def)
  from init_block_divisibility
      [of host0 "(default_config 8 3 2)\<lparr>num_blocks := Some 4\<rparr>" L 4
          "\<lparr>shape = [3, 1], data = [0, 0, 0]\<rparr>"
          "Some \<lparr>shape = [3], data = [0, 0, 0]\<rparr>" "(None, None)"]
  have f2: "init host0 ((default_config 8 3 2)\<lparr>num_blocks := Some 4\<rparr>)
           = Inl (AssertionError ''multiple of num_blocks'')"
    by (simp add: default_config_def check_args_def torch_Tensor_def host0_def alloc_bias_def
        alloc_edge_def upt_conv_Cons)
  from init_block_divisibility
      [of host0 "(default_config 8 3 2)\<lparr>num_blocks := Some 4, edge_dim := Some 5\<rparr>" L 4
          "\<lparr>shape = [3, 1], data = [0, 0, 0]\<rparr>"
          "Some \<lparr>shape = [3], data = [0, 0, 0]\<rparr>"
          "(Some \<lparr>shape = [3, 5], data = [0, 0, 0, 0, 0, 0, 0, 0, 0, 0, 0, 0, 0, 0, 0]\<rparr>,
            Some \<lparr>shape = [3, 1], data = [0, 0, 0]\<rparr>)"]
  have f3: "init host0 ((default_config 8 3 2)\<lparr>num_blocks := Some 4, edge_dim := Some 5\<rparr>)
           = Inl (AssertionError ''multiple of num_blocks'')"
    by (simp add: default_config_def check_args_def torch_Tensor_def host0_def alloc_bias_def
        alloc_edge_def ebind_def upt_conv_Cons)
  show ?thesis
    by (rule exI [of _ L]) (simp only: L f1 f2 f3 simp_thms)
qed

section \<open>Properties of \<^verbatim>\<open>reset_parameters\<close>\<close>

text \<open>
  Claim C10. \<^verbatim>\<open>reset_parameters\<close> never modifies \<^verbatim>\<open>l2\<close>: the tensor of line 164 is
  discarded, so \<^verbatim>\<open>l2\<close> keeps the values it held, which after construction are those of
  the uninitialised allocation of line 146. Where the call does not raise, \<^verbatim>\<open>q\<close>,
  \<^verbatim>\<open>k\<close>, \<^verbatim>\<open>bias\<close>, \<^verbatim>\<open>l1\<close>, \<^verbatim>\<open>b1\<close>, \<^verbatim>\<open>b2\<close> and the relation-transform weights
  are re-initialised (Glorot, zeros, ones, zeros, zeros, Glorot).
\<close>

theorem reset_parameters_keeps_l2:
  "self_l2 (fst (reset_parameters H L)) = self_l2 L
   \<and> (out_channels (cfg L) \<noteq> 0 \<longrightarrow>
        snd (reset_parameters H L) = None
        \<and> self_q (fst (reset_parameters H L)) = glorot H (self_q L)
        \<and> self_k (fst (reset_parameters H L)) = glorot H (self_k L)
        \<and> self_bias (fst (reset_parameters H L)) = map_option zeros (self_bias L)
        \<and> self_l1 (fst (reset_parameters H L)) = ones (self_l1 L)
        \<and> self_b1 (fst (reset_parameters H L)) = zeros (self_b1 L)
        \<and> self_b2 (fst (reset_parameters H L)) = zeros (self_b2 L)
        \<and> (if num_bases (cfg L) \<noteq> None
            then self_basis (fst (reset_parameters H L)) = map_option (glorot H) (self_basis L)
               \<and> self_att (fst (reset_parameters H L)) = map_option (glorot H) (self_att L)
            else self_weight (fst (reset_parameters H L))
                   = map_option (glorot H) (self_weight L)))
   \<and> (init H c = Inr L' \<longrightarrow>
        torch_Tensor H [out_channels c, out_channels c] = Inr (self_l2 L'))"
proof (intro conjI impI)
  show "self_l2 (fst (reset_parameters H L)) = self_l2 L"
    by (simp add: reset_parameters_def Let_def)
next
  assume "init H c = Inr L'"
  then show "torch_Tensor H [out_channels c, out_channels c] = Inr (self_l2 L')"
    by (rule init_l2_raw)
qed (simp_all add: reset_parameters_def Let_def)

theorem reset_parameters_keeps_l2_witness:
  "\<exists>L. init host1 (default_config 3 2 2) = Inr L
       \<and> out_channels (cfg L) \<noteq> 0
       \<and> data (self_l2 L) = [7, 8, 9, 10]
       \<and> data (self_l2 (fst (reset_parameters host1 L))) = [7, 8, 9, 10]
       \<and> data (self_l1 (fst (reset_parameters host1 L))) = [1, 1]
       \<and> snd (reset_parameters host1 L) = None"
proof -
  obtain L where L: "init host1 (default_config 3 2 2) = Inr L"
    by (simp add: init_def check_args_def default_config_def ebind_def torch_Tensor_def
        alloc_bias_def alloc_edge_def alloc_relation_def torch_ones_def reset_parameters_def
        Let_def)
  have c: "cfg L = default_config 3 2 2"
    using L by (rule init_cfg)
  then have oc: "out_channels (cfg L) \<noteq> 0"
    by (simp add: default_config_def)
  have l1: "length (data (self_l1 L)) = 2"
    using L
    by (auto simp: init_def check_args_def default_config_def ebind_def torch_Tensor_def
        alloc_bias_def alloc_edge_def alloc_relation_def torch_ones_def reset_parameters_def
        Let_def ones_def)
  note t = reset_parameters_keeps_l2 [of host1 L "default_config 3 2 2" L]
  from t L have "Inr (self_l2 L) = torch_Tensor host1 [2, 2]"
    by (simp add: default_config_def)
  then have "self_l2 L = \<lparr>shape = [2, 2], data = [7, 8, 9, 10]\<rparr>"
    by (simp add: torch_Tensor_def host1_def upt_4)
  then have d: "data (self_l2 L) = [7, 8, 9, 10]"
    by simp
  from t oc l1 d L show ?thesis
    by (simp add: ones_def numeral_2_eq_2)
qed

section \<open>Properties of \<^verbatim>\<open>decode\<close>\<close>

lemma sum_list_triple:
  assumes "length a = n" "length b = n" "length c = n"
  shows "sum_list (map2 (*) (map2 (*) a b) c) = (\<Sum>i\<leftarrow>[0..<n]. a ! i * b ! i * (c ! i :: real))"
proof -
  have "map2 (*) (map2 (*) a b) c = map (\<lambda>i. a ! i * b ! i * c ! i) [0..<n]"
    using assms by (intro nth_equalityI) simp_all
  then show ?thesis by simp
qed

lemma ew2_ok:
  assumes "length A = length B" "list_all (\<lambda>a. length a = n) A" "list_all (\<lambda>b. length b = n) B"
  shows "ew2 f A B = Inr (map2 (map2 f) A B)"
proof -
  have "length a = length b" if "(a, b) \<in> set (zip A B)" for a b
    using that assms(2,3) set_zip_leftD [OF that] set_zip_rightD [OF that]
    by (simp add: list_all_iff)
  then have "list_all (\<lambda>(a, b). length a = length b) (zip A B)"
    by (auto simp: list_all_iff)
  with assms(1) show ?thesis
    by (simp add: ew2_def)
qed

lemma map2_map2_width:
  assumes "list_all (\<lambda>a. length a = n) A" "list_all (\<lambda>b. length b = n) B"
  shows "list_all (\<lambda>r. length r = n) (map2 (map2 f) A B)"
proof -
  have "length (map2 f a b) = n" if "(a, b) \<in> set (zip A B)" for a b
    using that assms set_zip_leftD [OF that] set_zip_rightD [OF that]
    by (simp add: list_all_iff)
  then show ?thesis
    by (auto simp: list_all_iff)
qed

lemma getitem_in_range:
  assumes "list_all (\<lambda>i. 0 \<le> i \<and> i < int (length xs)) idx"
  shows "getitem xs idx = Inr (map (\<lambda>i. xs ! nat i) idx)"
proof -
  have "list_all (\<lambda>i. - int (length xs) \<le> i \<and> i < int (length xs)) idx"
    using assms by (auto simp: list_all_iff)
  moreover have "map (\<lambda>i. xs ! nat (if i < 0 then i + int (length xs) else i)) idx
      = map (\<lambda>i. xs ! nat i) idx"
    using assms by (auto simp: list_all_iff)
  ultimately show ?thesis
    by (simp add: getitem_def)
qed

lemma rows_of_nth: "r < tsize W 0 \<Longrightarrow> rows_of W ! r = map (\<lambda>j. at2 W r j) [0..<tsize W 1]"
  by (simp add: rows_of_def)

lemma length_rows_of: "length (rows_of W) = tsize W 0"
  by (simp add: rows_of_def)

text \<open>
  Claim C6. For node embeddings \<open>z\<close>, an edge list and relation ids within range (the data
  model: node ids in \<open>[0, N)\<close>, relation ids indexing the rows of \<^verbatim>\<open>self.W\<close>, one
  relation id per edge, embeddings as wide as the relation vectors), \<^verbatim>\<open>decode\<close> returns,
  per edge, the sum over the channels of head embedding times relation vector times tail
  embedding.
\<close>

theorem decode_distmult:
  assumes nodes: "list_all (\<lambda>(h, t). 0 \<le> h \<and> h < int (length z) \<and> 0 \<le> t \<and> t < int (length z))
                    edge_index"
    and rels: "list_all (\<lambda>r. 0 \<le> r \<and> r < int (tsize W 0)) edge_type"
    and len: "length edge_type = length edge_index"
    and width: "list_all (\<lambda>row. length row = tsize W 1) z"
  shows "decode W z edge_index edge_type
         = Inr (map2 (\<lambda>(h, t) r. \<Sum>c\<leftarrow>[0..<tsize W 1].
                                     z ! nat h ! c * at2 W (nat r) c * z ! nat t ! c)
                  edge_index edge_type)"
proof -
  let ?C = "tsize W 1"
  let ?h = "map (\<lambda>i. z ! nat i) (map fst edge_index)"
  let ?t = "map (\<lambda>i. z ! nat i) (map snd edge_index)"
  let ?r = "map (\<lambda>i. rows_of W ! nat i) edge_type"
  have gh: "getitem z (map fst edge_index) = Inr ?h"
    using nodes by (intro getitem_in_range) (auto simp: list_all_iff)
  have gt: "getitem z (map snd edge_index) = Inr ?t"
    using nodes by (intro getitem_in_range) (auto simp: list_all_iff)
  have gr: "getitem (rows_of W) edge_type = Inr ?r"
    using rels by (intro getitem_in_range) (simp add: length_rows_of)
  have zlen: "length (z ! nat i) = ?C" if "0 \<le> i" "i < int (length z)" for i
    using width that by (simp add: list_all_length)
  have rlen: "length (rows_of W ! nat i) = ?C" if "0 \<le> i" "i < int (tsize W 0)" for i
    using that by (simp add: rows_of_nth)
  have hl: "list_all (\<lambda>a. length a = ?C) ?h" and tl: "list_all (\<lambda>a. length a = ?C) ?t"
    using nodes zlen by (auto simp: list_all_iff)
  have rl: "list_all (\<lambda>a. length a = ?C) ?r"
    using rels rlen by (auto simp: list_all_iff)
  have e1: "ew2 (*) ?h ?r = Inr (map2 (map2 (*)) ?h ?r)"
    using hl rl len by (intro ew2_ok) simp_all
  have e2: "ew2 (*) (map2 (map2 (*)) ?h ?r) ?t
            = Inr (map2 (map2 (*)) (map2 (map2 (*)) ?h ?r) ?t)"
    using map2_map2_width [OF hl rl] tl len by (intro ew2_ok) simp_all
  have "map sum_list (map2 (map2 (*)) (map2 (map2 (*)) ?h ?r) ?t)
        = map2 (\<lambda>(h, t) r. \<Sum>c\<leftarrow>[0..<?C]. z ! nat h ! c * at2 W (nat r) c * z ! nat t ! c)
            edge_index edge_type"
  proof (intro nth_equalityI)
    show "length (map sum_list (map2 (map2 (*)) (map2 (map2 (*)) ?h ?r) ?t))
          = length (map2 (\<lambda>(h, t) r. \<Sum>c\<leftarrow>[0..<?C]. z ! nat h ! c * at2 W (nat r) c * z ! nat t ! c)
                      edge_index edge_type)"
      using len by simp
  next
    fix i
    assume "i < length (map sum_list (map2 (map2 (*)) (map2 (map2 (*)) ?h ?r) ?t))"
    then have i: "i < length edge_index"
      by simp
    obtain h t where ht: "edge_index ! i = (h, t)"
      by (cases "edge_index ! i")
    let ?rr = "edge_type ! i"
    from i nodes ht have hr: "0 \<le> h" "h < int (length z)" "0 \<le> t" "t < int (length z)"
      by (auto simp: list_all_length)
    from i rels len have rr: "0 \<le> ?rr" "?rr < int (tsize W 0)"
      by (auto simp: list_all_length)
    then have nr: "nat ?rr < tsize W 0"
      by simp
    have "sum_list (map2 (*) (map2 (*) (z ! nat h) (rows_of W ! nat ?rr)) (z ! nat t))
          = (\<Sum>c\<leftarrow>[0..<?C]. z ! nat h ! c * (rows_of W ! nat ?rr) ! c * z ! nat t ! c)"
      using zlen [OF hr(1,2)] zlen [OF hr(3,4)] rlen [OF rr]
      by (intro sum_list_triple) simp_all
    also have "\<dots> = (\<Sum>c\<leftarrow>[0..<?C]. z ! nat h ! c * at2 W (nat ?rr) c * z ! nat t ! c)"
      by (intro arg_cong [where f = sum_list] map_cong refl) (simp add: rows_of_nth [OF nr])
    finally show "map sum_list (map2 (map2 (*)) (map2 (map2 (*)) ?h ?r) ?t) ! i
          = map2 (\<lambda>(h, t) r. \<Sum>c\<leftarrow>[0..<?C]. z ! nat h ! c * at2 W (nat r) c * z ! nat t ! c)
              edge_index edge_type ! i"
      using i len ht by simp
  qed
  then show ?thesis
    by (simp only: decode_def gh gt gr e1 e2 ebind_def sum.case)
qed

lemma upt_2: "[0..<2] = [0, 1]"
  by (simp add: upt_rec)

theorem decode_distmult_witness:
  "decode \<lparr>shape = [2, 2], data = [1, 2, 3, 4]\<rparr> [[1, 2], [3, 4], [5, 6]] [(0, 1), (2, 2)] [1, 0]
   = Inr [41, 97]"
  using decode_distmult [of "[[1, 2], [3, 4], [5, 6]]" "[(0, 1), (2, 2)]"
      "\<lparr>shape = [2, 2], data = [1, 2, 3, 4]\<rparr>" "[1, 0]"]
  by (simp add: tsize_def at2_def upt_2)

section \<open>Errors and state of \<^verbatim>\<open>forward\<close>\<close>

lemma ebind_Inl [simp]: "ebind (Inl err) f = Inl err"
  by (simp add: ebind_def)

lemma ebind_Inr [simp]: "ebind (Inr a) f = f a"
  by (simp add: ebind_def)

lemma ebind_eq_Inr: "ebind m f = Inr b \<longleftrightarrow> (\<exists>a. m = Inr a \<and> f a = Inr b)"
  by (cases m) simp_all








lemma upt_8: "[0..<8] = [0, 1, 2, 3, 4, 5, 6, 7]"
  by (simp add: upt_rec)


lemma tsize_simps:
  "tsize \<lparr>shape = sh, data = d\<rparr> k = (if k < length sh then sh ! k else 0)"
  by (simp add: tsize_def)


lemma block_transform_alpha_irrelevant:
  "block_transform (L\<lparr>self_alpha := s\<rparr>) dt x_i x_j edge_type
   = block_transform L dt x_i x_j edge_type"
  by (simp add: block_transform_def cong: if_cong option.case_cong)

lemma transform_alpha_irrelevant:
  "transform (L\<lparr>self_alpha := s\<rparr>) dt x_i x_j edge_type = transform L dt x_i x_j edge_type"
  by (simp add: transform_def block_transform_alpha_irrelevant cong: if_cong option.case_cong)

lemma edge_term_alpha_irrelevant:
  "edge_term (L\<lparr>self_alpha := s\<rparr>) a edge_type = edge_term L a edge_type"
  by (simp add: edge_term_def cong: if_cong option.case_cong)

lemma attention_alpha_irrelevant:
  "attention (L\<lparr>self_alpha := s\<rparr>) dt x_i x_j edge_type ea index
   = attention L dt x_i x_j edge_type ea index"
  by (simp add: attention_def transform_alpha_irrelevant edge_term_alpha_irrelevant cong: if_cong option.case_cong)

lemma degree_mlp_alpha_irrelevant: "degree_mlp (L\<lparr>self_alpha := s\<rparr>) deg = degree_mlp L deg"
  by (simp add: degree_mlp_def cong: if_cong option.case_cong)

lemma adjust_alpha_irrelevant:
  "adjust (L\<lparr>self_alpha := s\<rparr>) alpha index n keep = adjust L alpha index n keep"
  by (simp add: adjust_def cong: if_cong option.case_cong)

lemma modulate_alpha_irrelevant:
  "modulate (L\<lparr>self_alpha := s\<rparr>) outj alpha index n keep = modulate L outj alpha index n keep"
  by (simp add: modulate_def adjust_alpha_irrelevant degree_mlp_alpha_irrelevant cong: if_cong option.case_cong)

lemma update_alpha_irrelevant: "update (L\<lparr>self_alpha := s\<rparr>) aggr_out = update L aggr_out"
  by (simp add: update_def cong: if_cong option.case_cong)

lemma message_alpha_cases:
  "message L dt x_i x_j edge_type ea index n keep = (L', r) \<Longrightarrow>
     (\<exists>err. attention L dt x_i x_j edge_type ea index = Inl err \<and> L' = L \<and> r = Inl err)
   \<or> (\<exists>outj alpha. attention L dt x_i x_j edge_type ea index = Inr (outj, alpha)
         \<and> L' = L\<lparr>self_alpha := Some alpha\<rparr>
         \<and> r = modulate L outj alpha index n keep)"
  by (auto simp: message_def split: sum.splits)

lemma propagate_Inr:
  assumes "propagate L dt x edge_index edge_type ea keep = (L', Inr out)"
  shows "\<exists>x_i x_j outj alpha.
           index_select x (map snd edge_index) = Inr x_i
         \<and> index_select x (map fst edge_index) = Inr x_j
         \<and> attention L dt x_i x_j edge_type ea (map snd edge_index) = Inr (outj, alpha)
         \<and> L' = L\<lparr>self_alpha := Some alpha\<rparr>"
  using assms
  by (auto simp: propagate_def propagate_aggr_def message_def split: sum.splits prod.splits)

lemma snd_message_alpha:
  "snd (message (L\<lparr>self_alpha := s\<rparr>) dt x_i x_j edge_type ea index n keep)
   = snd (message L dt x_i x_j edge_type ea index n keep)"
  by (simp add: message_def attention_alpha_irrelevant modulate_alpha_irrelevant
      split: sum.splits prod.splits)

lemma snd_propagate_alpha:
  "snd (propagate (L\<lparr>self_alpha := s\<rparr>) dt x edge_index edge_type ea keep)
   = snd (propagate L dt x edge_index edge_type ea keep)"
  by (auto simp: propagate_def propagate_aggr_def message_def attention_alpha_irrelevant
      modulate_alpha_irrelevant update_alpha_irrelevant split: sum.splits prod.splits)

lemma propagate_unfold:
  "propagate L dt x edge_index edge_type ea keep =
     (case index_select x (map snd edge_index) of
        Inl err \<Rightarrow> (L, Inl err)
      | Inr x_i \<Rightarrow>
          (case index_select x (map fst edge_index) of
             Inl err \<Rightarrow> (L, Inl err)
           | Inr x_j \<Rightarrow>
               (case attention L dt x_i x_j edge_type ea (map snd edge_index) of
                  Inl err \<Rightarrow> (L, Inl err)
                | Inr (outj, alpha) \<Rightarrow>
                    (L\<lparr>self_alpha := Some alpha\<rparr>,
                     ebind (modulate L outj alpha (map snd edge_index) (length x) keep)
                       (\<lambda>msgs. update L (aggregate (msg_width (cfg L)) msgs
                                           (map snd edge_index) (length x)))))))"
  by (auto simp: propagate_def propagate_aggr_def message_def update_alpha_irrelevant
      split: sum.splits prod.splits)

lemma forward_unfold:
  "forward L dt x edge_index edge_type ea keep raw =
     (case index_select x (map snd edge_index) of
        Inl err \<Rightarrow> (L, Inl err)
      | Inr x_i \<Rightarrow>
          (case index_select x (map fst edge_index) of
             Inl err \<Rightarrow> (L, Inl err)
           | Inr x_j \<Rightarrow>
               (case attention L dt x_i x_j edge_type ea (map snd edge_index) of
                  Inl err \<Rightarrow> (L, Inl err)
                | Inr (outj, alpha) \<Rightarrow>
                    (case ebind (modulate L outj alpha (map snd edge_index) (length x) keep)
                            (\<lambda>msgs. update L (aggregate (msg_width (cfg L)) msgs
                                                (map snd edge_index) (length x))) of
                       Inl err \<Rightarrow> (L\<lparr>self_alpha := Some alpha\<rparr>, Inl err)
                     | Inr out \<Rightarrow>
                         (L\<lparr>self_alpha := None\<rparr>,
                          Inr (out, case raw of
                                      Some b \<Rightarrow> Some (edge_index, alpha)
                                    | None \<Rightarrow> None))))))"
  by (auto simp: forward_def propagate_unfold split: sum.splits prod.splits)

lemma snd_forward_alpha:
  "snd (forward (L\<lparr>self_alpha := stale\<rparr>) dt x edge_index edge_type ea keep raw)
   = snd (forward L dt x edge_index edge_type ea keep raw)"
  by (auto simp: forward_unfold attention_alpha_irrelevant modulate_alpha_irrelevant
      update_alpha_irrelevant split: sum.splits prod.splits)

text \<open>
  Claim C9, amended. The attention-weights field is set during message computation
  (line 256). Where the gathering of the endpoint rows, the attention, the modulation and
  \<^verbatim>\<open>update\<close> all return, \<^verbatim>\<open>forward\<close> returns the updated node matrix, with this
  call's weights when they were requested, and the field is \<^verbatim>\<open>None\<close> again; so the
  field is \<^verbatim>\<open>None\<close> after every call that returns. A call that raises after line 256
  (in the modulation or in \<^verbatim>\<open>update\<close>) leaves this call's weights in the field; a call
  that raises before leaves the field as it was. No result of a call depends on what the
  field held before it.
\<close>

theorem forward_alpha_lifetime:
  "(attention L dt x_i x_j edge_type ea index = Inr (outj, alpha)
      \<longrightarrow> self_alpha (fst (message L dt x_i x_j edge_type ea index n keep)) = Some alpha)
   \<and> (index_select x (map snd edge_index) = Inr x_i
       \<and> index_select x (map fst edge_index) = Inr x_j
       \<and> attention L dt x_i x_j edge_type ea (map snd edge_index) = Inr (outj, alpha)
       \<and> modulate L outj alpha (map snd edge_index) (length x) keep = Inr msgs
       \<and> update L (aggregate (msg_width (cfg L)) msgs (map snd edge_index) (length x))
           = Inr out
      \<longrightarrow> forward L dt x edge_index edge_type ea keep raw
            = (L\<lparr>self_alpha := None\<rparr>,
               Inr (out, case raw of Some b \<Rightarrow> Some (edge_index, alpha) | None \<Rightarrow> None)))
   \<and> (index_select x (map snd edge_index) = Inr x_i
       \<and> index_select x (map fst edge_index) = Inr x_j
       \<and> attention L dt x_i x_j edge_type ea (map snd edge_index) = Inr (outj, alpha)
       \<and> (modulate L outj alpha (map snd edge_index) (length x) keep = Inl err
          \<or> modulate L outj alpha (map snd edge_index) (length x) keep = Inr msgs
            \<and> update L (aggregate (msg_width (cfg L)) msgs (map snd edge_index) (length x))
                = Inl err)
      \<longrightarrow> forward L dt x edge_index edge_type ea keep raw
            = (L\<lparr>self_alpha := Some alpha\<rparr>, Inl err))
   \<and> (index_select x (map snd edge_index) = Inl err
       \<or> index_select x (map snd edge_index) = Inr x_i
         \<and> (index_select x (map fst edge_index) = Inl err
            \<or> index_select x (map fst edge_index) = Inr x_j
              \<and> attention L dt x_i x_j edge_type ea (map snd edge_index) = Inl err)
      \<longrightarrow> forward L dt x edge_index edge_type ea keep raw = (L, Inl err))
   \<and> (forward L dt x edge_index edge_type ea keep raw = (L', Inr res)
      \<longrightarrow> self_alpha L' = None)
   \<and> (forward L dt x edge_index edge_type ea keep (Some b) = (L', Inr (out, Some (ei, al)))
      \<longrightarrow> (\<exists>x_i x_j outj.
             index_select x (map snd edge_index) = Inr x_i
           \<and> index_select x (map fst edge_index) = Inr x_j
           \<and> attention L dt x_i x_j edge_type ea (map snd edge_index) = Inr (outj, al)))
   \<and> snd (forward (L\<lparr>self_alpha := stale\<rparr>) dt x edge_index edge_type ea keep raw)
       = snd (forward L dt x edge_index edge_type ea keep raw)"
proof (intro conjI impI)
  assume "attention L dt x_i x_j edge_type ea index = Inr (outj, alpha)"
  then show "self_alpha (fst (message L dt x_i x_j edge_type ea index n keep)) = Some alpha"
    by (simp add: message_def)
next
  assume "index_select x (map snd edge_index) = Inr x_i
       \<and> index_select x (map fst edge_index) = Inr x_j
       \<and> attention L dt x_i x_j edge_type ea (map snd edge_index) = Inr (outj, alpha)
       \<and> modulate L outj alpha (map snd edge_index) (length x) keep = Inr msgs
       \<and> update L (aggregate (msg_width (cfg L)) msgs (map snd edge_index) (length x))
           = Inr out"
  then show "forward L dt x edge_index edge_type ea keep raw
            = (L\<lparr>self_alpha := None\<rparr>,
               Inr (out, case raw of Some b \<Rightarrow> Some (edge_index, alpha) | None \<Rightarrow> None))"
    by (simp add: forward_unfold ebind_def)
next
  assume "index_select x (map snd edge_index) = Inr x_i
       \<and> index_select x (map fst edge_index) = Inr x_j
       \<and> attention L dt x_i x_j edge_type ea (map snd edge_index) = Inr (outj, alpha)
       \<and> (modulate L outj alpha (map snd edge_index) (length x) keep = Inl err
          \<or> modulate L outj alpha (map snd edge_index) (length x) keep = Inr msgs
            \<and> update L (aggregate (msg_width (cfg L)) msgs (map snd edge_index) (length x))
                = Inl err)"
  then show "forward L dt x edge_index edge_type ea keep raw
            = (L\<lparr>self_alpha := Some alpha\<rparr>, Inl err)"
    by (auto simp: forward_unfold ebind_def)
next
  assume "index_select x (map snd edge_index) = Inl err
       \<or> index_select x (map snd edge_index) = Inr x_i
         \<and> (index_select x (map fst edge_index) = Inl err
            \<or> index_select x (map fst edge_index) = Inr x_j
              \<and> attention L dt x_i x_j edge_type ea (map snd edge_index) = Inl err)"
  then show "forward L dt x edge_index edge_type ea keep raw = (L, Inl err)"
    by (auto simp: forward_unfold)
next
  assume "forward L dt x edge_index edge_type ea keep raw = (L', Inr res)"
  then show "self_alpha L' = None"
    by (auto simp: forward_def split: sum.splits prod.splits option.splits)
next
  assume a: "forward L dt x edge_index edge_type ea keep (Some b)
             = (L', Inr (out, Some (ei, al)))"
  then obtain L1 where p: "propagate L dt x edge_index edge_type ea keep = (L1, Inr out)"
    and al: "self_alpha L1 = Some al"
    by (auto simp: forward_def split: sum.splits prod.splits option.splits)
  from propagate_Inr [OF p] al
  show "\<exists>x_i x_j outj.
             index_select x (map snd edge_index) = Inr x_i
           \<and> index_select x (map fst edge_index) = Inr x_j
           \<and> attention L dt x_i x_j edge_type ea (map snd edge_index) = Inr (outj, al)"
    by auto
next
  show "snd (forward (L\<lparr>self_alpha := stale\<rparr>) dt x edge_index edge_type ea keep raw)
       = snd (forward L dt x edge_index edge_type ea keep raw)"
    by (rule snd_forward_alpha)
qed

section \<open>Softmax and aggregation by group\<close>

lemma group_rows_Nil [simp]: "group_rows [] index n = []" "group_rows src [] n = []"
  by (simp_all add: group_rows_def)

lemma group_rows_Cons [simp]:
  "group_rows (r # src) (i # index) n = (if i = n then r # group_rows src index n
                                         else group_rows src index n)"
  by (simp add: group_rows_def)

lemma group_rows_map2:
  "group_rows (map2 (\<lambda>row i. g i row) src index) index n = map (g n) (group_rows src index n)"
  by (induction src index rule: list_induct2') simp_all

lemma set_group_rows: "set (group_rows src index n) \<subseteq> set src"
  by (induction src index rule: list_induct2') auto

lemma group_rows_nonempty:
  "length src = length index \<Longrightarrow> n \<in> set index \<Longrightarrow> group_rows src index n \<noteq> []"
  by (induction src index rule: list_induct2) auto

lemma group_rows_empty:
  "n \<notin> set index \<Longrightarrow> group_rows src index n = []"
  by (induction src index rule: list_induct2') auto

lemma softmax_group:
  "group_rows (softmax src index) index n
   = map (softmax_row (group_rows src index n)) (group_rows src index n)"
  unfolding softmax_def
  by (rule group_rows_map2 [where g = "\<lambda>i. softmax_row (group_rows src index i)"])

lemma length_softmax_row [simp]: "length (softmax_row grp row) = length row"
  by (simp add: softmax_row_def)

lemma softmax_row_nth:
  "c < length row \<Longrightarrow> softmax_row grp row ! c
     = exp (row ! c - Max (set (column grp c)))
       / (\<Sum>v\<leftarrow>column grp c. exp (v - Max (set (column grp c))))"
  by (simp add: softmax_row_def)

lemma sum_list_divide: "(\<Sum>x\<leftarrow>xs. f x / (d::real)) = (\<Sum>x\<leftarrow>xs. f x) / d"
  by (induction xs) (simp_all add: add_divide_distrib)

lemma sum_list_exp_pos: "xs \<noteq> [] \<Longrightarrow> 0 < (\<Sum>x\<leftarrow>xs. exp (f x :: real))"
proof (induction xs)
  case Nil
  then show ?case by simp
next
  case (Cons a xs)
  have "0 \<le> (\<Sum>x\<leftarrow>xs. exp (f x))"
    by (rule sum_list_nonneg) auto
  moreover have "0 < exp (f a)" by simp
  ultimately show ?case by (simp add: add_pos_nonneg)
qed

lemma softmax_column_sum:
  assumes ne: "grp \<noteq> []" and w: "list_all (\<lambda>r. length r = w) grp" and c: "c < w"
  shows "sum_list (column (map (softmax_row grp) grp) c) = 1"
proof -
  let ?M = "Max (set (column grp c))"
  let ?S = "\<Sum>v\<leftarrow>column grp c. exp (v - ?M)"
  have "column (map (softmax_row grp) grp) c = map (\<lambda>row. exp (row ! c - ?M) / ?S) grp"
    using w c by (auto simp: column_def list_all_iff softmax_row_nth)
  then have "sum_list (column (map (softmax_row grp) grp) c)
             = (\<Sum>row\<leftarrow>grp. exp (row ! c - ?M)) / ?S"
    by (simp add: sum_list_divide)
  moreover have "(\<Sum>row\<leftarrow>grp. exp (row ! c - ?M)) = ?S"
    by (simp add: column_def comp_def)
  moreover have "0 < ?S"
    using ne by (intro sum_list_exp_pos) (simp add: column_def)
  ultimately show ?thesis by simp
qed

lemma group_sum_index:
  assumes "length A = length index"
  shows "sum_list (column (group_rows A index n) c)
         = (\<Sum>e\<leftarrow>[0..<length A]. if index ! e = n then A ! e ! c else 0)"
proof -
  have z: "zip A index = map (\<lambda>e. (A ! e, index ! e)) [0..<length A]"
    using assms by (intro nth_equalityI) simp_all
  have "sum_list (column (group_rows A index n) c)
        = sum_list (map (\<lambda>p. fst p ! c) (filter (\<lambda>(row, j). j = n) (zip A index)))"
    by (simp add: column_def group_rows_def comp_def)
  also have "\<dots> = sum_list (map (\<lambda>p. if (\<lambda>(row, j). j = n) p then fst p ! c else 0) (zip A index))"
    by (rule sum_list_map_filter')
  also have "\<dots> = (\<Sum>e\<leftarrow>[0..<length A]. if index ! e = n then A ! e ! c else 0)"
    by (simp add: z comp_def cong: if_cong)
  finally show ?thesis .
qed

lemma softmax_sums_to_one:
  assumes len: "length src = length index" and w: "list_all (\<lambda>r. length r = w) src"
    and n: "n \<in> set index" and c: "c < w"
  shows "(\<Sum>e\<leftarrow>[0..<length src]. if index ! e = n then softmax src index ! e ! c else 0) = 1"
proof -
  let ?grp = "group_rows src index n"
  have ne: "?grp \<noteq> []"
    using len n by (rule group_rows_nonempty)
  have gw: "list_all (\<lambda>r. length r = w) ?grp"
    using w set_group_rows [of src index n] by (auto simp: list_all_iff)
  have ls: "length (softmax src index) = length index"
    using len by (simp add: softmax_def)
  have "(\<Sum>e\<leftarrow>[0..<length src]. if index ! e = n then softmax src index ! e ! c else 0)
        = sum_list (column (group_rows (softmax src index) index n) c)"
    using group_sum_index [OF ls, of n c] len ls by simp
  also have "\<dots> = 1"
    by (simp only: softmax_group softmax_column_sum [OF ne gw c])
  finally show ?thesis .
qed

lemma length_softmax: "length (softmax src index) = min (length src) (length index)"
  by (simp add: softmax_def)

lemma softmax_width:
  "list_all (\<lambda>r. length r = w) src \<Longrightarrow> list_all (\<lambda>r. length r = w) (softmax src index)"
  by (auto simp: softmax_def list_all_iff dest: set_zip_leftD)

lemma aggregate_nth:
  "n < N \<Longrightarrow> aggregate W inputs index N ! n
     = map (\<lambda>c. sum_list (column (group_rows inputs index (int n)) c)) [0..<W]"
  by (simp add: aggregate_def)

lemma aggregate_isolated:
  assumes "n < N" "int n \<notin> set index"
  shows "aggregate W inputs index N ! n = replicate W 0"
  using assms
  by (simp add: aggregate_nth group_rows_empty column_def map_replicate_const)

lemma length_aggregate [simp]: "length (aggregate W inputs index N) = N"
  by (simp add: aggregate_def)

section \<open>The forward pass on an example\<close>

lemma softmax_ex:
  "softmax [[5], [4]] [1, 1] = [[1 / (1 + exp (- 1))], [exp (- 1) / (1 + exp (- 1))]]"
  by (simp add: softmax_def softmax_row_def group_rows_def column_def)

lemma attention_layer1:
  "attention layer1 Float [[3, 4], [3, 4]] [[1, 2], [0, 1]] (Some [0, 1]) None [1, 1]
   = Inr ([[3 / 2, 3 / 2], [1 / 2, 1 / 2]],
          [[1 / (1 + exp (- 1))], [exp (- 1) / (1 + exp (- 1))]])"
proof -
  have t: "transform layer1 Float [[3, 4], [3, 4]] [[1, 2], [0, 1]] (Some [0, 1])
           = Inr ([[7 / 2, 7 / 2], [7 / 2, 7 / 2]], [[3 / 2, 3 / 2], [1 / 2, 1 / 2]])"
    by (simp add: transform_def layer1_def default_config_def full_transform_def
        index_select_def tsize_simps upt_2 full_row_def at3_def)
  have q: "matmul [[7 / 2, 7 / 2], [7 / 2, 7 / 2]] (self_q layer1) = Inr [[7 / 2], [7 / 2]]"
    by (simp add: matmul_def layer1_def tsize_simps upt_2 at2_def)
  have k: "matmul [[3 / 2, 3 / 2], [1 / 2, 1 / 2]] (self_k layer1) = Inr [[3 / 2], [1 / 2]]"
    by (simp add: matmul_def layer1_def tsize_simps upt_2 at2_def)
  have s: "scores (cfg layer1) [[7 / 2], [7 / 2]] [[3 / 2], [1 / 2]] None = Inr [[5], [4]]"
    by (simp add: scores_def layer1_def default_config_def ew2_def leaky_relu_def)
  have n: "normalize_alpha (cfg layer1) [[5], [4]] (Some [0, 1]) [1, 1]
           = Inr [[1 / (1 + exp (- 1))], [exp (- 1) / (1 + exp (- 1))]]"
    by (simp add: normalize_alpha_def layer1_def default_config_def softmax_ex)
  show ?thesis
    by (simp add: attention_def t q k s n)
qed

lemma chunks_2_2: "chunks 2 [a, b] = [[a, b]]"
  by (simp add: chunks_def)

lemma modulate_layer1:
  "modulate layer1 [[p, q], [r, s]] [[a0], [a1]] [1, 1] 3 keep
   = Inr [[a0 * p, a0 * q], [a1 * r, a1 * s]]"
  by (simp add: modulate_def layer1_def default_config_def adjust_def final_message_def
      shapes_add_def per_head_def chunks_2_2)

lemma upt_3: "[0..<3] = [0, 1, 2]"
  by (simp add: upt_rec)

lemma aggregate_layer1:
  "aggregate 2 [[a, b], [c, d]] [1, 1] 3 = [[0, 0], [a + c, b + d], [0, 0]]"
  by (simp add: aggregate_def upt_3 upt_2 column_def)

lemma update_layer1:
  "update (layer1\<lparr>self_alpha := s\<rparr>) [[0, 0], [a, b], [0, 0]] = Inr [[0, 0], [a, b], [0, 0]]"
  by (simp add: update_def layer1_def default_config_def add_row_def)

lemma propagate_aggr_layer1:
  "propagate_aggr layer1 Float [[1, 2], [3, 4], [0, 1]] [(0, 1), (2, 1)] (Some [0, 1]) None keep
   = (layer1\<lparr>self_alpha := Some [[1 / (1 + exp (- 1))], [exp (- 1) / (1 + exp (- 1))]]\<rparr>,
      Inr [[0, 0],
           [1 / (1 + exp (- 1)) * (3 / 2) + exp (- 1) / (1 + exp (- 1)) * (1 / 2),
            1 / (1 + exp (- 1)) * (3 / 2) + exp (- 1) / (1 + exp (- 1)) * (1 / 2)],
           [0, 0]])"
proof -
  have ms: "map snd [(0, 1), (2, 1 :: int)] = [1 :: int, 1]"
    and mf: "map fst [(0 :: int, 1 :: int), (2, 1)] = [0, 2]"
    and lx: "length [[1, 2], [3, 4], [0, 1 :: real]] = 3"
    by simp_all
  have xi: "index_select [[1, 2], [3, 4], [0, 1 :: real]] [1, 1] = Inr [[3, 4], [3, 4]]"
    by (simp add: index_select_def)
  have xj: "index_select [[1, 2], [3, 4], [0, 1 :: real]] [0, 2] = Inr [[1, 2], [0, 1]]"
    by (simp add: index_select_def)
  have w: "msg_width (cfg layer1) = 2"
    by (simp add: msg_width_def layer1_def default_config_def)
  show ?thesis
    by (simp only: propagate_aggr_def ms mf lx xi xj message_def attention_layer1
        modulate_layer1 w aggregate_layer1 sum.case prod.case)
qed

lemma forward_layer1:
  "forward layer1 Float [[1, 2], [3, 4], [0, 1]] [(0, 1), (2, 1)] (Some [0, 1]) None keep
     (Some b)
   = (layer1,
      Inr ([[0, 0],
            [1 / (1 + exp (- 1)) * (3 / 2) + exp (- 1) / (1 + exp (- 1)) * (1 / 2),
             1 / (1 + exp (- 1)) * (3 / 2) + exp (- 1) / (1 + exp (- 1)) * (1 / 2)],
            [0, 0]],
           Some ([(0, 1), (2, 1)],
                 [[1 / (1 + exp (- 1))], [exp (- 1) / (1 + exp (- 1))]])))"
proof -
  have l: "layer1\<lparr>self_alpha := Some a\<rparr>\<lparr>self_alpha := None\<rparr> = layer1" for a
    by (simp add: layer1_def)
  have a: "self_alpha (layer1\<lparr>self_alpha := Some a\<rparr>) = Some a" for a
    by simp
  show ?thesis
    by (simp only: forward_def propagate_def propagate_aggr_layer1 update_layer1 l a
        sum.case prod.case option.case)
qed

section \<open>The per-edge message\<close>

lemma length_concat_uniform:
  "list_all (\<lambda>b. length b = n) xss \<Longrightarrow> length (concat xss) = length xss * n"
  by (induction xss) simp_all

lemma nth_concat_uniform:
  "list_all (\<lambda>b. length b = n) xss \<Longrightarrow> i < length xss \<Longrightarrow> j < n
   \<Longrightarrow> concat xss ! (i * n + j) = xss ! i ! j"
proof (induction xss arbitrary: i)
  case Nil
  then show ?case by simp
next
  case (Cons x xss)
  show ?case
  proof (cases i)
    case 0
    with Cons.prems show ?thesis by (simp add: nth_append)
  next
    case (Suc k)
    with Cons.prems have "concat xss ! (k * n + j) = xss ! k ! j"
      by (intro Cons.IH) simp_all
    moreover have "(x @ concat xss) ! (Suc k * n + j) = concat xss ! (k * n + j)"
      using Cons.prems by (simp add: nth_append)
    ultimately show ?thesis using Suc by simp
  qed
qed

lemma length_chunks: "length (chunks n xs) = length xs div n"
  by (simp add: chunks_def)

lemma chunks_exact:
  assumes "length v = H * K" "0 < K"
  shows "length (chunks K v) = H"
    and "h < H \<Longrightarrow> length (chunks K v ! h) = K"
    and "h < H \<Longrightarrow> c < K \<Longrightarrow> chunks K v ! h ! c = v ! (h * K + c)"
proof -
  show l: "length (chunks K v) = H"
    using assms by (simp add: chunks_def)
  have le: "h * K + K \<le> H * K" if "h < H"
  proof -
    from that have "Suc h \<le> H" by simp
    then have "Suc h * K \<le> H * K" by (rule mult_le_mono1)
    then show ?thesis by (simp add: add.commute)
  qed
  show "length (chunks K v ! h) = K" if "h < H"
    using that assms le [OF that] by (simp add: chunks_def)
  show "chunks K v ! h ! c = v ! (h * K + c)" if "h < H" "c < K"
    using that assms le [OF that(1)] by (simp add: chunks_def)
qed

lemma chunks_width:
  assumes "length v = H * K" "0 < K"
  shows "list_all (\<lambda>b. length b = K) (chunks K v)"
  using chunks_exact(1,2) [OF assms] by (simp add: list_all_length)

lemma per_head_nth:
  assumes a: "length a = H" and v: "length v = H * K" and h: "h < H" and c: "c < K"
  shows "per_head f K a v ! (h * K + c) = f (a ! h) (v ! (h * K + c))"
proof -
  have K: "0 < K" using c by simp
  note ch = chunks_exact [OF v K]
  let ?xss = "map2 (\<lambda>s blk. map (f s) blk) a (chunks K v)"
  have len: "length ?xss = H"
    using a ch(1) by simp
  have w: "list_all (\<lambda>b. length b = K) ?xss"
    using a ch(1,2) by (simp add: list_all_length)
  have "concat ?xss ! (h * K + c) = ?xss ! h ! c"
    using w len h c by (intro nth_concat_uniform) simp_all
  also have "\<dots> = f (a ! h) (v ! (h * K + c))"
    using a ch h c by simp
  finally show ?thesis by (simp add: per_head_def)
qed

lemma length_per_head:
  assumes a: "length a = H" and v: "length v = H * K" and K: "0 < K"
  shows "length (per_head f K a v) = H * K"
proof -
  note ch = chunks_exact [OF v K]
  let ?xss = "map2 (\<lambda>s blk. map (f s) blk) a (chunks K v)"
  have len: "length ?xss = H"
    using a ch(1) by simp
  have w: "list_all (\<lambda>b. length b = K) ?xss"
    using a ch(1,2) by (simp add: list_all_length)
  show ?thesis
    using length_concat_uniform [OF w] len by (simp add: per_head_def)
qed

lemma per_head_dim_nth:
  assumes a: "length a = H * D" and v: "length v = H * K"
    and h: "h < H" and d: "d < D" and c: "c < K"
  shows "per_head_dim f D K a v ! ((h * D + d) * K + c) = f (a ! (h * D + d)) (v ! (h * K + c))"
proof -
  have K: "0 < K" using c by simp
  have D: "0 < D" using d by simp
  note cv = chunks_exact [OF v K]
  note ca = chunks_exact [OF a D]
  let ?inner = "\<lambda>ss blk. concat (map (\<lambda>s. map (f s) blk) ss)"
  let ?xss = "map2 ?inner (chunks D a) (chunks K v)"
  have len: "length ?xss = H"
    using ca(1) cv(1) by simp
  have iw: "list_all (\<lambda>b. length b = K) (map (\<lambda>s. map (f s) (chunks K v ! g)) (chunks D a ! g))"
    if "g < H" for g
    using that cv(2) by (simp add: list_all_length)
  have il: "length (?inner (chunks D a ! g) (chunks K v ! g)) = D * K" if "g < H" for g
    using length_concat_uniform [OF iw [OF that]] ca(2) [OF that] by simp
  have w: "list_all (\<lambda>b. length b = D * K) ?xss"
    using il ca(1) cv(1) by (simp add: list_all_length)
  have dk: "d * K + c < D * K"
  proof -
    from d have "Suc d \<le> D" by simp
    then have "Suc d * K \<le> D * K" by (rule mult_le_mono1)
    with c show ?thesis by simp
  qed
  have "(h * D + d) * K + c = h * (D * K) + (d * K + c)"
    by (simp add: algebra_simps)
  then have "concat ?xss ! ((h * D + d) * K + c) = concat ?xss ! (h * (D * K) + (d * K + c))"
    by (rule arg_cong)
  also have "\<dots> = ?xss ! h ! (d * K + c)"
    using w len h dk by (intro nth_concat_uniform) simp_all
  also have "\<dots> = ?inner (chunks D a ! h) (chunks K v ! h) ! (d * K + c)"
    using h ca(1) cv(1) by simp
  also have "\<dots> = map (\<lambda>s. map (f s) (chunks K v ! h)) (chunks D a ! h) ! d ! c"
    using iw [OF h] ca(2) [OF h] d c by (intro nth_concat_uniform) simp_all
  also have "\<dots> = f (a ! (h * D + d)) (v ! (h * K + c))"
    using ca(2,3) [OF h] cv(2,3) [OF h] d c by simp
  finally show ?thesis by (simp add: per_head_dim_def)
qed

lemma modulate_f_additive:
  "mod_name (cfg L) = Some ''f-additive''
   \<Longrightarrow> modulate L outj alpha index n keep
       = final_message (cfg L) outj (map (map f_additive) alpha)"
  by (simp add: modulate_def adjust_def)

lemma final_message_add:
  assumes m: "attention_mode c = ''additive-self-attention''"
    and f: "final_message c outj a = Inr msgs"
  shows "length msgs = length a"
    and "e < length a \<Longrightarrow> h < nat (heads c) \<Longrightarrow> j < nat (out_channels c)
         \<Longrightarrow> msgs ! e ! (h * nat (out_channels c) + j)
             = a ! e ! h * outj ! e ! (h * nat (out_channels c) + j)"
proof -
  from m f have sh: "shapes_add c outj a"
    and ms: "msgs = map2 (per_head (*) (nat (out_channels c))) a outj"
    by (auto simp: final_message_def split: if_splits)
  from sh have len: "length a = length outj"
    by (simp add: shapes_add_def)
  then show "length msgs = length a"
    by (simp add: ms)
  assume e: "e < length a" and h: "h < nat (heads c)" and j: "j < nat (out_channels c)"
  from sh e len have la: "length (a ! e) = nat (heads c)"
    and lv: "length (outj ! e) = nat (heads c) * nat (out_channels c)"
    by (simp_all add: shapes_add_def list_all_length)
  from e len have "msgs ! e = per_head (*) (nat (out_channels c)) (a ! e) (outj ! e)"
    by (simp add: ms)
  then show "msgs ! e ! (h * nat (out_channels c) + j)
             = a ! e ! h * outj ! e ! (h * nat (out_channels c) + j)"
    by (simp add: per_head_nth [OF la lv h j])
qed

lemma final_message_mul:
  assumes m: "attention_mode c \<noteq> ''additive-self-attention''"
    and f: "final_message c outj a = Inr msgs"
  shows "length msgs = length a"
    and "e < length a \<Longrightarrow> h < nat (heads c) \<Longrightarrow> d < nat (dim_d c) \<Longrightarrow> j < nat (out_channels c)
         \<Longrightarrow> msgs ! e ! ((h * nat (dim_d c) + d) * nat (out_channels c) + j)
             = a ! e ! (h * nat (dim_d c) + d) * outj ! e ! (h * nat (out_channels c) + j)"
proof -
  from m f have sh: "shapes_mul c outj a"
    and ms: "msgs = map2 (per_head_dim (*) (nat (dim_d c)) (nat (out_channels c))) a outj"
    by (auto simp: final_message_def split: if_splits)
  from sh have len: "length a = length outj"
    by (simp add: shapes_mul_def)
  then show "length msgs = length a"
    by (simp add: ms)
  assume e: "e < length a" and h: "h < nat (heads c)" and d: "d < nat (dim_d c)"
    and j: "j < nat (out_channels c)"
  from sh e len have la: "length (a ! e) = nat (heads c) * nat (dim_d c)"
    and lv: "length (outj ! e) = nat (heads c) * nat (out_channels c)"
    by (simp_all add: shapes_mul_def list_all_length)
  from e len have "msgs ! e = per_head_dim (*) (nat (dim_d c)) (nat (out_channels c))
                                 (a ! e) (outj ! e)"
    by (simp add: ms)
  then show "msgs ! e ! ((h * nat (dim_d c) + d) * nat (out_channels c) + j)
             = a ! e ! (h * nat (dim_d c) + d) * outj ! e ! (h * nat (out_channels c) + j)"
    by (simp add: per_head_dim_nth [OF la lv h d j])
qed

lemma final_message_shapes:
  assumes "final_message c outj a = Inr msgs"
  shows "length a = length outj"
    and "attention_mode c = ''additive-self-attention''
         \<Longrightarrow> list_all (\<lambda>r. length r = nat (heads c)) a"
    and "attention_mode c \<noteq> ''additive-self-attention''
         \<Longrightarrow> list_all (\<lambda>r. length r = nat (heads c) * nat (dim_d c)) a"
  using assms
  by (auto simp: final_message_def shapes_add_def shapes_mul_def split: if_splits)

text \<open>
  Claim C5. Under the \<^verbatim>\<open>f-additive\<close> modulation every entry of the message is the
  product of the transformed source feature with the normalised coefficient, increased by
  exactly 1 where it is greater than 0 and unchanged otherwise; nothing else is added.
  The normalised coefficients are those stored in \<^verbatim>\<open>self._alpha\<close>.
\<close>

theorem f_additive_shifts_positive:
  assumes md: "mod_name (cfg L) = Some ''f-additive''"
    and msg: "message L dt x_i x_j edge_type ea index n keep = (L', Inr msgs)"
  shows "\<exists>outj alpha.
           attention L dt x_i x_j edge_type ea index = Inr (outj, alpha)
         \<and> self_alpha L' = Some alpha
         \<and> length msgs = length alpha
         \<and> (attention_mode (cfg L) = ''additive-self-attention'' \<longrightarrow>
              (\<forall>e<length alpha. \<forall>h<nat (heads (cfg L)). \<forall>j<nat (out_channels (cfg L)).
                 msgs ! e ! (h * nat (out_channels (cfg L)) + j)
                 = (if 0 < alpha ! e ! h then alpha ! e ! h + 1 else alpha ! e ! h)
                   * outj ! e ! (h * nat (out_channels (cfg L)) + j)))
         \<and> (attention_mode (cfg L) \<noteq> ''additive-self-attention'' \<longrightarrow>
              (\<forall>e<length alpha. \<forall>h<nat (heads (cfg L)). \<forall>d<nat (dim_d (cfg L)).
                \<forall>j<nat (out_channels (cfg L)).
                 msgs ! e ! ((h * nat (dim_d (cfg L)) + d) * nat (out_channels (cfg L)) + j)
                 = (if 0 < alpha ! e ! (h * nat (dim_d (cfg L)) + d)
                    then alpha ! e ! (h * nat (dim_d (cfg L)) + d) + 1
                    else alpha ! e ! (h * nat (dim_d (cfg L)) + d))
                   * outj ! e ! (h * nat (out_channels (cfg L)) + j)))"
proof -
  from message_alpha_cases [OF msg] obtain outj alpha where
    att: "attention L dt x_i x_j edge_type ea index = Inr (outj, alpha)"
    and L': "L' = L\<lparr>self_alpha := Some alpha\<rparr>"
    and m: "modulate L outj alpha index n keep = Inr msgs"
    by auto
  let ?a = "map (map f_additive) alpha"
  from m md have fm: "final_message (cfg L) outj ?a = Inr msgs"
    by (simp add: modulate_f_additive)
  have len: "length msgs = length alpha"
    using final_message_add(1) [OF _ fm] final_message_mul(1) [OF _ fm]
    by (cases "attention_mode (cfg L) = ''additive-self-attention''") simp_all
  have add: "msgs ! e ! (h * nat (out_channels (cfg L)) + j)
                 = (if 0 < alpha ! e ! h then alpha ! e ! h + 1 else alpha ! e ! h)
                   * outj ! e ! (h * nat (out_channels (cfg L)) + j)"
    if mode: "attention_mode (cfg L) = ''additive-self-attention''"
      and e: "e < length alpha" and h: "h < nat (heads (cfg L))"
      and j: "j < nat (out_channels (cfg L))" for e h j
  proof -
    from final_message_shapes(2) [OF fm mode] e h
    have "?a ! e ! h = f_additive (alpha ! e ! h)"
      by (simp add: list_all_length)
    with final_message_add(2) [OF mode fm, of e h j] e h j show ?thesis
      by (simp add: f_additive_def)
  qed
  have mul: "msgs ! e ! ((h * nat (dim_d (cfg L)) + d) * nat (out_channels (cfg L)) + j)
                 = (if 0 < alpha ! e ! (h * nat (dim_d (cfg L)) + d)
                    then alpha ! e ! (h * nat (dim_d (cfg L)) + d) + 1
                    else alpha ! e ! (h * nat (dim_d (cfg L)) + d))
                   * outj ! e ! (h * nat (out_channels (cfg L)) + j)"
    if mode: "attention_mode (cfg L) \<noteq> ''additive-self-attention''"
      and e: "e < length alpha" and h: "h < nat (heads (cfg L))"
      and d: "d < nat (dim_d (cfg L))" and j: "j < nat (out_channels (cfg L))" for e h d j
  proof -
    have "h * nat (dim_d (cfg L)) + d < nat (heads (cfg L)) * nat (dim_d (cfg L))"
    proof -
      from h have "Suc h * nat (dim_d (cfg L)) \<le> nat (heads (cfg L)) * nat (dim_d (cfg L))"
        by (intro mult_le_mono1) simp
      with d show ?thesis by simp
    qed
    with final_message_shapes(3) [OF fm mode] e
    have "?a ! e ! (h * nat (dim_d (cfg L)) + d)
          = f_additive (alpha ! e ! (h * nat (dim_d (cfg L)) + d))"
      by (simp add: list_all_length)
    with final_message_mul(2) [OF mode fm, of e h d j] e h d j show ?thesis
      by (simp add: f_additive_def)
  qed
  from att L' len add mul show ?thesis
    by (intro exI [of _ outj] exI [of _ alpha]) simp
qed

section \<open>Across-relation normalisation\<close>

lemma matmul_Inr:
  assumes "matmul A t = Inr B"
  shows "length B = length A" and "list_all (\<lambda>r. length r = tsize t 1) B"
  using assms by (auto simp: matmul_def list_all_iff split: if_splits)

lemma ew2_Inr:
  assumes "ew2 f A B = Inr C"
  shows "length A = length B" and "length C = length A" and "C = map2 (map2 f) A B"
  using assms by (auto simp: ew2_def split: if_splits)

lemma ew2_width:
  assumes e: "ew2 f A B = Inr C" and w: "list_all (\<lambda>r. length r = w) A"
  shows "list_all (\<lambda>r. length r = w) C"
proof -
  from e have len: "length A = length B"
    and eq: "list_all (\<lambda>(a, b). length a = length b) (zip A B)"
    and C: "C = map2 (map2 f) A B"
    by (auto simp: ew2_def split: if_splits)
  have "length (map2 f a b) = w" if "(a, b) \<in> set (zip A B)" for a b
    using that eq w set_zip_leftD [OF that] by (auto simp: list_all_iff)
  then show ?thesis
    by (auto simp: C list_all_iff)
qed

lemma map_sum_eq_Inr: "map_sum id g m = Inr s \<longleftrightarrow> (\<exists>C. m = Inr C \<and> s = g C)"
  by (cases m) auto

lemma scores_Inr_width:
  assumes s: "scores c qi kj ae = Inr s" and w: "list_all (\<lambda>r. length r = w) qi"
  shows "\<exists>w'. list_all (\<lambda>r. length r = w') s"
proof -
  have two: "list_all (\<lambda>r. length r = w) C" if "ew2 f qi kj = Inr C" for f C
    using that w by (rule ew2_width)
  have three: "list_all (\<lambda>r. length r = w) C'"
    if "ew2 f qi kj = Inr C" "ew2 g C a = Inr C'" for f g a C C'
    using that(2) two [OF that(1)] by (rule ew2_width)
  consider (add) "attention_mode c = ''additive-self-attention''"
    | (mul) "attention_mode c \<noteq> ''additive-self-attention''"
        "attention_mode c = ''multiplicative-self-attention''"
    | (none) "attention_mode c \<noteq> ''additive-self-attention''"
        "attention_mode c \<noteq> ''multiplicative-self-attention''"
    by blast
  then show ?thesis
  proof cases
    case add
    with s have "\<exists>C. s = map (map (leaky_relu (negative_slope c))) C
                   \<and> list_all (\<lambda>r. length r = w) C"
      using two three
      by (cases ae) (auto simp: scores_def ebind_eq_Inr map_sum_eq_Inr)
    then have "list_all (\<lambda>r. length r = w) s"
      by (auto simp: list_all_iff)
    then show ?thesis ..
  next
    case mul
    with s have "list_all (\<lambda>r. length r = w) s"
      using two three
      by (cases ae) (auto simp: scores_def ebind_eq_Inr)
    then show ?thesis ..
  next
    case none
    with s have "s = [[0]]"
      by (simp add: scores_def)
    then have "list_all (\<lambda>r. length r = 1) s"
      by simp
    then show ?thesis ..
  qed
qed

lemma attention_Inr:
  assumes "attention L dt x_i x_j edge_type ea index = Inr (outj, alpha)"
  shows "\<exists>s w. list_all (\<lambda>r. length r = w) s
               \<and> normalize_alpha (cfg L) s edge_type index = Inr alpha"
proof -
  from assms obtain outi qi kj ae s where
    q: "matmul outi (self_q L) = Inr qi"
    and s: "scores (cfg L) qi kj ae = Inr s"
    and n: "normalize_alpha (cfg L) s edge_type index = Inr alpha"
    by (auto simp: attention_def ebind_eq_Inr)
  from scores_Inr_width [OF s matmul_Inr(2) [OF q]] n show ?thesis
    by blast
qed

lemma scores_Inr_mode:
  assumes s: "scores c qi kj ae = Inr s" and w: "list_all (\<lambda>r. length r = w) qi"
    and m: "attention_mode c = ''additive-self-attention''
            \<or> attention_mode c = ''multiplicative-self-attention''"
  shows "list_all (\<lambda>r. length r = w) s"
proof -
  have two: "list_all (\<lambda>r. length r = w) C" if "ew2 f qi kj = Inr C" for f C
    using that w by (rule ew2_width)
  have three: "list_all (\<lambda>r. length r = w) C'"
    if "ew2 f qi kj = Inr C" "ew2 g C a = Inr C'" for f g a C C'
    using that(2) two [OF that(1)] by (rule ew2_width)
  from m consider (add) "attention_mode c = ''additive-self-attention''"
    | (mul) "attention_mode c \<noteq> ''additive-self-attention''"
        "attention_mode c = ''multiplicative-self-attention''"
    by blast
  then show ?thesis
  proof cases
    case add
    with s have "\<exists>C. s = map (map (leaky_relu (negative_slope c))) C
                   \<and> list_all (\<lambda>r. length r = w) C"
      using two three
      by (cases ae) (auto simp: scores_def ebind_eq_Inr map_sum_eq_Inr)
    then show ?thesis
      by (auto simp: list_all_iff)
  next
    case mul
    with s show ?thesis
      using two three
      by (cases ae) (auto simp: scores_def ebind_eq_Inr)
  qed
qed

lemma attention_Inr_mode:
  assumes "attention L dt x_i x_j edge_type ea index = Inr (outj, alpha)"
    and m: "attention_mode (cfg L) = ''additive-self-attention''
            \<or> attention_mode (cfg L) = ''multiplicative-self-attention''"
  shows "\<exists>s. list_all (\<lambda>r. length r = tsize (self_q L) 1) s
             \<and> normalize_alpha (cfg L) s edge_type index = Inr alpha"
proof -
  from assms obtain outi qi kj ae s where
    q: "matmul outi (self_q L) = Inr qi"
    and s: "scores (cfg L) qi kj ae = Inr s"
    and n: "normalize_alpha (cfg L) s edge_type index = Inr alpha"
    by (auto simp: attention_def ebind_eq_Inr)
  from scores_Inr_mode [OF s matmul_Inr(2) [OF q] m] n show ?thesis
    by blast
qed

lemma softmax_row_pos:
  assumes "grp \<noteq> []" "c < length row"
  shows "0 < softmax_row grp row ! c"
proof -
  have "0 < (\<Sum>v\<leftarrow>column grp c. exp (v - Max (set (column grp c))))"
    using assms(1) by (intro sum_list_exp_pos) (simp add: column_def)
  then show ?thesis
    using assms(2) by (simp add: softmax_row_nth)
qed

lemma softmax_nth:
  assumes "length src = length index" "e < length src"
  shows "softmax src index ! e = softmax_row (group_rows src index (index ! e)) (src ! e)"
  using assms by (simp add: softmax_def)

lemma softmax_pos:
  assumes len: "length src = length index" and e: "e < length src"
    and c: "c < length (src ! e)"
  shows "0 < softmax src index ! e ! c"
proof -
  from e len have "index ! e \<in> set index"
    by simp
  from group_rows_nonempty [OF len this] have "group_rows src index (index ! e) \<noteq> []" .
  from softmax_row_pos [OF this c] show ?thesis
    by (simp add: softmax_nth [OF len e])
qed

lemma adjust_Inr:
  assumes "adjust L alpha index N keep = Inr a"
  shows "length a = length alpha"
  using assms
  by (auto simp: adjust_def ebind_eq_Inr F_dropout_def split: if_splits)

lemma final_message_Inr_length:
  "final_message c outj a = Inr msgs \<Longrightarrow> length msgs = length outj \<and> length a = length outj"
  by (auto simp: final_message_def shapes_add_def shapes_mul_def split: if_splits)

lemma modulate_Inr_length:
  assumes m: "modulate L outj alpha index N keep = Inr msgs"
  shows "length msgs = length alpha" and "length outj = length alpha"
proof -
  let ?c = "cfg L"
  let ?add = "attention_mode ?c = ''additive-self-attention''"
  let ?mul = "attention_mode ?c = ''multiplicative-self-attention''"
  consider (a) "mod_name ?c = Some ''additive''" "?add \<or> ?mul"
    | (s) "mod_name ?c = Some ''scaled''" "?add \<or> ?mul"
    | (other) "\<not> (mod_name ?c = Some ''additive'' \<and> ?add)"
        "\<not> (mod_name ?c = Some ''additive'' \<and> ?mul)"
        "\<not> (mod_name ?c = Some ''scaled'' \<and> ?add)"
        "\<not> (mod_name ?c = Some ''scaled'' \<and> ?mul)"
    by blast
  then have "length msgs = length alpha \<and> length outj = length alpha"
  proof cases
    case a
    with m show ?thesis
      by (auto simp: modulate_def Let_def shapes_add_def shapes_mul_def split: if_splits)
  next
    case s
    with m show ?thesis
      by (auto simp: modulate_def Let_def ebind_eq_Inr shapes_add_def shapes_mul_def
          split: if_splits)
  next
    case other
    with m obtain a where a: "adjust L alpha index N keep = Inr a"
      and f: "final_message ?c outj a = Inr msgs"
      by (auto simp: modulate_def Let_def ebind_eq_Inr)
    from final_message_Inr_length [OF f] adjust_Inr [OF a] show ?thesis
      by simp
  qed
  then show "length msgs = length alpha" and "length outj = length alpha"
    by simp_all
qed

lemma aggregate_entry:
  assumes l: "length msgs = length index" and n: "n < N" and c: "c < W"
  shows "aggregate W msgs index N ! n ! c
         = (\<Sum>e\<leftarrow>[0..<length index]. if index ! e = int n then msgs ! e ! c else 0)"
proof -
  have "aggregate W msgs index N ! n ! c = sum_list (column (group_rows msgs index (int n)) c)"
    using n c by (simp add: aggregate_nth)
  then show ?thesis
    by (simp only: group_sum_index [OF l] l)
qed

lemma aggregate_row_length: "n < N \<Longrightarrow> length (aggregate W msgs index N ! n) = W"
  by (simp add: aggregate_nth)

lemma propagate_aggr_Inr_message:
  assumes "propagate_aggr L dt x edge_index edge_type ea keep = (L', Inr aggr_out)"
  shows "\<exists>x_i x_j outj alpha msgs.
           index_select x (map snd edge_index) = Inr x_i
         \<and> index_select x (map fst edge_index) = Inr x_j
         \<and> attention L dt x_i x_j edge_type ea (map snd edge_index) = Inr (outj, alpha)
         \<and> modulate L outj alpha (map snd edge_index) (length x) keep = Inr msgs
         \<and> message L dt x_i x_j edge_type ea (map snd edge_index) (length x) keep
             = (L', Inr msgs)
         \<and> aggr_out = aggregate (msg_width (cfg L)) msgs (map snd edge_index) (length x)"
proof -
  from assms obtain x_i where xi: "index_select x (map snd edge_index) = Inr x_i"
    by (auto simp: propagate_aggr_def split: sum.splits)
  from assms xi obtain x_j where xj: "index_select x (map fst edge_index) = Inr x_j"
    by (auto simp: propagate_aggr_def split: sum.splits)
  from assms xi xj obtain msgs where
    ms: "message L dt x_i x_j edge_type ea (map snd edge_index) (length x) keep
         = (L', Inr msgs)"
    and a: "aggr_out = aggregate (msg_width (cfg L)) msgs (map snd edge_index) (length x)"
    by (auto simp: propagate_aggr_def split: sum.splits prod.splits)
  from ms obtain outj alpha where
    at: "attention L dt x_i x_j edge_type ea (map snd edge_index) = Inr (outj, alpha)"
    and md: "modulate L outj alpha (map snd edge_index) (length x) keep = Inr msgs"
    by (auto simp: message_def split: sum.splits prod.splits)
  from xi xj at md ms a show ?thesis
    by blast
qed

lemma forward_returns_attention:
  assumes "forward L dt x edge_index edge_type ea keep (Some b)
           = (L', Inr (out, Some (ei, al)))"
  shows "\<exists>x_i x_j outj.
             index_select x (map snd edge_index) = Inr x_i
           \<and> index_select x (map fst edge_index) = Inr x_j
           \<and> attention L dt x_i x_j edge_type ea (map snd edge_index) = Inr (outj, al)"
proof -
  from assms obtain L1 where p: "propagate L dt x edge_index edge_type ea keep = (L1, Inr out)"
    and al: "self_alpha L1 = Some al"
    by (auto simp: forward_def split: sum.splits prod.splits option.splits)
  from propagate_Inr [OF p] al show ?thesis
    by auto
qed

lemma propagate_aggr_Inr:
  assumes "propagate_aggr L dt x edge_index edge_type ea keep = (L', Inr aggr_out)"
  shows "\<exists>msgs. aggr_out = aggregate (msg_width (cfg L)) msgs (map snd edge_index) (length x)"
  using assms
  by (auto simp: propagate_aggr_def split: sum.splits prod.splits)

text \<open>
  Claim C1. With the across-relation scope, the attention weights that \<^verbatim>\<open>forward\<close>
  returns have one row per edge, every row as wide as \<^verbatim>\<open>q\<close> has columns
  (\<open>heads * dim\<close>, line 96) where the attention mode is one of the two, every entry
  positive, and for every edge and every column (head) the sum 1 over the edges with the
  same target node; so the coefficients of the incoming edges of every node of in-degree
  at least 1 sum to 1. The aggregation step takes one message per edge and sums, for every
  node, the messages of its incoming edges; so it gives every node without incoming edge a
  row of zeros, before \<^verbatim>\<open>update\<close> adds the bias.
\<close>

theorem across_relation_sums_to_one:
  assumes mech: "attention_mechanism (cfg L) = ''across-relation''"
  shows "(forward L dt x edge_index edge_type ea keep (Some b)
            = (L', Inr (out, Some (ei, alpha)))
          \<longrightarrow> ei = edge_index \<and> length alpha = length edge_index
            \<and> (attention_mode (cfg L) = ''additive-self-attention''
               \<or> attention_mode (cfg L) = ''multiplicative-self-attention''
               \<longrightarrow> (\<forall>e<length edge_index. length (alpha ! e) = tsize (self_q L) 1))
            \<and> (\<forall>e<length edge_index. \<forall>c<length (alpha ! e).
                 0 < alpha ! e ! c
               \<and> (\<Sum>e'\<leftarrow>[0..<length edge_index].
                     if snd (edge_index ! e') = snd (edge_index ! e) then alpha ! e' ! c else 0)
                 = 1))
       \<and> (propagate_aggr L dt x edge_index edge_type ea keep = (L'', Inr aggr_out)
          \<longrightarrow> length aggr_out = length x
            \<and> (\<exists>x_i x_j msgs.
                  index_select x (map snd edge_index) = Inr x_i
                \<and> index_select x (map fst edge_index) = Inr x_j
                \<and> message L dt x_i x_j edge_type ea (map snd edge_index) (length x) keep
                    = (L'', Inr msgs)
                \<and> length msgs = length edge_index
                \<and> (\<forall>n<length x. length (aggr_out ! n) = msg_width (cfg L)
                      \<and> (\<forall>c<msg_width (cfg L).
                            aggr_out ! n ! c
                            = (\<Sum>e\<leftarrow>[0..<length edge_index].
                                  if snd (edge_index ! e) = int n then msgs ! e ! c else 0))))
            \<and> (\<forall>n<length x. int n \<notin> snd ` set edge_index
                 \<longrightarrow> aggr_out ! n = replicate (msg_width (cfg L)) 0))"
proof (intro conjI impI)
  assume f: "forward L dt x edge_index edge_type ea keep (Some b)
            = (L', Inr (out, Some (ei, alpha)))"
  let ?index = "map snd edge_index"
  from f show "ei = edge_index"
    by (auto simp: forward_def split: sum.splits prod.splits option.splits)
  from forward_returns_attention [OF f] obtain x_i x_j outj where
    at: "attention L dt x_i x_j edge_type ea ?index = Inr (outj, alpha)"
    by blast
  from attention_Inr [OF at] obtain s w where
    w: "list_all (\<lambda>r. length r = w) s"
    and n: "normalize_alpha (cfg L) s edge_type ?index = Inr alpha"
    by blast
  from n mech have len: "length s = length ?index" and al: "alpha = softmax s ?index"
    by (auto simp: normalize_alpha_def split: if_splits)
  show la: "length alpha = length edge_index"
    using len by (simp add: al length_softmax)
  show "\<forall>e<length edge_index. \<forall>c<length (alpha ! e).
           0 < alpha ! e ! c
         \<and> (\<Sum>e'\<leftarrow>[0..<length edge_index].
               if snd (edge_index ! e') = snd (edge_index ! e) then alpha ! e' ! c else 0) = 1"
  proof (intro allI impI)
    fix e c
    assume e: "e < length edge_index" and c: "c < length (alpha ! e)"
    from e len have es: "e < length s"
      by simp
    from softmax_width [OF w] al e la have "length (alpha ! e) = w"
      by (simp add: list_all_length)
    with c have cw: "c < w" by simp
    from w es cw have cs: "c < length (s ! e)"
      by (simp add: list_all_length)
    from e have "?index ! e \<in> set ?index"
      by (metis length_map nth_mem)
    from softmax_sums_to_one [OF len w this cw] len
    have "(\<Sum>e'\<leftarrow>[0..<length edge_index].
              if ?index ! e' = ?index ! e then alpha ! e' ! c else 0) = 1"
      unfolding al by simp
    moreover have "(\<Sum>e'\<leftarrow>[0..<length edge_index].
              if ?index ! e' = ?index ! e then alpha ! e' ! c else 0)
        = (\<Sum>e'\<leftarrow>[0..<length edge_index].
              if snd (edge_index ! e') = snd (edge_index ! e) then alpha ! e' ! c else 0)"
      using e by (intro arg_cong [where f = sum_list] map_cong refl) simp
    moreover have "0 < alpha ! e ! c"
      unfolding al by (rule softmax_pos [OF len es cs])
    ultimately show "0 < alpha ! e ! c
         \<and> (\<Sum>e'\<leftarrow>[0..<length edge_index].
               if snd (edge_index ! e') = snd (edge_index ! e) then alpha ! e' ! c else 0) = 1"
      by simp
  qed
  assume m: "attention_mode (cfg L) = ''additive-self-attention''
             \<or> attention_mode (cfg L) = ''multiplicative-self-attention''"
  from attention_Inr_mode [OF at m] obtain s' where
    w': "list_all (\<lambda>r. length r = tsize (self_q L) 1) s'"
    and n': "normalize_alpha (cfg L) s' edge_type ?index = Inr alpha"
    by blast
  from n' mech have al': "alpha = softmax s' ?index"
    by (auto simp: normalize_alpha_def split: if_splits)
  from softmax_width [OF w', of ?index]
  have "list_all (\<lambda>r. length r = tsize (self_q L) 1) alpha"
    unfolding al' .
  with la show "\<forall>e<length edge_index. length (alpha ! e) = tsize (self_q L) 1"
    unfolding list_all_length by simp
next
  assume p: "propagate_aggr L dt x edge_index edge_type ea keep = (L'', Inr aggr_out)"
  let ?index = "map snd edge_index"
  from propagate_aggr_Inr_message [OF p] obtain x_i x_j outj alpha msgs where
    xi: "index_select x ?index = Inr x_i"
    and xj: "index_select x (map fst edge_index) = Inr x_j"
    and at: "attention L dt x_i x_j edge_type ea ?index = Inr (outj, alpha)"
    and md: "modulate L outj alpha ?index (length x) keep = Inr msgs"
    and ms: "message L dt x_i x_j edge_type ea ?index (length x) keep = (L'', Inr msgs)"
    and a: "aggr_out = aggregate (msg_width (cfg L)) msgs ?index (length x)"
    by blast
  show "length aggr_out = length x"
    by (simp add: a)
  from attention_Inr [OF at] obtain s w where
    n: "normalize_alpha (cfg L) s edge_type ?index = Inr alpha"
    by blast
  from n mech have "length alpha = length ?index"
    by (auto simp: normalize_alpha_def length_softmax split: if_splits)
  with modulate_Inr_length(1) [OF md] have lm: "length msgs = length ?index"
    by simp
  have rows: "\<forall>n<length x. length (aggr_out ! n) = msg_width (cfg L)
                \<and> (\<forall>c<msg_width (cfg L).
                      aggr_out ! n ! c
                      = (\<Sum>e\<leftarrow>[0..<length edge_index].
                            if snd (edge_index ! e) = int n then msgs ! e ! c else 0))"
  proof (intro allI impI conjI)
    fix n c
    assume n: "n < length x"
    then show "length (aggr_out ! n) = msg_width (cfg L)"
      by (simp add: a aggregate_row_length)
    assume c: "c < msg_width (cfg L)"
    have "aggr_out ! n ! c
          = (\<Sum>e\<leftarrow>[0..<length ?index]. if ?index ! e = int n then msgs ! e ! c else 0)"
      unfolding a by (rule aggregate_entry [OF lm n c])
    also have "\<dots> = (\<Sum>e\<leftarrow>[0..<length edge_index].
                            if snd (edge_index ! e) = int n then msgs ! e ! c else 0)"
      unfolding length_map by (intro arg_cong [where f = sum_list] map_cong refl) simp
    finally show "aggr_out ! n ! c
                  = (\<Sum>e\<leftarrow>[0..<length edge_index].
                        if snd (edge_index ! e) = int n then msgs ! e ! c else 0)" .
  qed
  from xi xj ms lm rows
  show "\<exists>x_i x_j msgs.
                  index_select x (map snd edge_index) = Inr x_i
                \<and> index_select x (map fst edge_index) = Inr x_j
                \<and> message L dt x_i x_j edge_type ea (map snd edge_index) (length x) keep
                    = (L'', Inr msgs)
                \<and> length msgs = length edge_index
                \<and> (\<forall>n<length x. length (aggr_out ! n) = msg_width (cfg L)
                      \<and> (\<forall>c<msg_width (cfg L).
                            aggr_out ! n ! c
                            = (\<Sum>e\<leftarrow>[0..<length edge_index].
                                  if snd (edge_index ! e) = int n then msgs ! e ! c else 0)))"
    by (intro exI [of _ x_i] exI [of _ x_j] exI [of _ msgs]) simp
  show "\<forall>n<length x. int n \<notin> snd ` set edge_index
          \<longrightarrow> aggr_out ! n = replicate (msg_width (cfg L)) 0"
    by (simp add: a aggregate_isolated)
qed

section \<open>A second example: three edges into one node, two relations\<close>

lemma softmax_across_ex:
  "softmax [[5], [4], [7]] [1, 1, 1]
   = [[exp (- 2) / (exp (- 2) + (exp (- 3) + 1))],
      [exp (- 3) / (exp (- 2) + (exp (- 3) + 1))],
      [1 / (exp (- 2) + (exp (- 3) + 1))]]"
  by (simp add: softmax_def softmax_row_def column_def)

lemma select_mask_Cons [simp]:
  "select_mask (x # xs) (b # bs) = (if b then x # select_mask xs bs else select_mask xs bs)"
  "select_mask [] bs = []" "select_mask xs [] = []"
  by (simp_all add: select_mask_def)

lemma within_relation_ex:
  "within_relation 2 [[5], [4], [7]] [0, 1, 0] [1, 1, 1]
   = [[exp (- 2) / (exp (- 2) + 1)], [1], [1 / (exp (- 2) + 1)]]"
  by (simp add: within_relation_def upt_2 softmax_def softmax_row_def column_def)

lemma normalize_alpha_ex:
  "normalize_alpha (cfg (layer1_with m ''across-relation'')) [[5], [4], [7]] (Some [0, 1, 0])
     [1, 1, 1]
   = Inr [[exp (- 2) / (exp (- 2) + (exp (- 3) + 1))],
          [exp (- 3) / (exp (- 2) + (exp (- 3) + 1))],
          [1 / (exp (- 2) + (exp (- 3) + 1))]]"
  "normalize_alpha (cfg (layer1_with m ''within-relation'')) [[5], [4], [7]] (Some [0, 1, 0])
     [1, 1, 1]
   = Inr [[exp (- 2) / (exp (- 2) + 1)], [1], [1 / (exp (- 2) + 1)]]"
  by (simp_all add: normalize_alpha_def layer1_with_def default_config_def softmax_across_ex
      within_relation_ex)

lemma attention_ex:
  "attention (layer1_with m mech) Float [[3, 4], [3, 4], [3, 4]] [[1, 2], [0, 1], [3, 4]]
     (Some [0, 1, 0]) None [1, 1, 1]
   = map_sum id (Pair [[3 / 2, 3 / 2], [1 / 2, 1 / 2], [7 / 2, 7 / 2]])
       (normalize_alpha (cfg (layer1_with m mech)) [[5], [4], [7]] (Some [0, 1, 0]) [1, 1, 1])"
proof -
  let ?L = "layer1_with m mech"
  have t: "transform ?L Float [[3, 4], [3, 4], [3, 4]] [[1, 2], [0, 1], [3, 4]] (Some [0, 1, 0])
           = Inr ([[7 / 2, 7 / 2], [7 / 2, 7 / 2], [7 / 2, 7 / 2]],
                  [[3 / 2, 3 / 2], [1 / 2, 1 / 2], [7 / 2, 7 / 2]])"
    by (simp add: transform_def layer1_with_def layer1_def default_config_def
        full_transform_def index_select_def tsize_simps upt_2 full_row_def at3_def)
  have q: "matmul [[7 / 2, 7 / 2], [7 / 2, 7 / 2], [7 / 2, 7 / 2]] (self_q ?L)
           = Inr [[7 / 2], [7 / 2], [7 / 2]]"
    by (simp add: matmul_def layer1_with_def layer1_def tsize_simps upt_2 at2_def)
  have k: "matmul [[3 / 2, 3 / 2], [1 / 2, 1 / 2], [7 / 2, 7 / 2]] (self_k ?L)
           = Inr [[3 / 2], [1 / 2], [7 / 2]]"
    by (simp add: matmul_def layer1_with_def layer1_def tsize_simps upt_2 at2_def)
  have s: "scores (cfg ?L) [[7 / 2], [7 / 2], [7 / 2]] [[3 / 2], [1 / 2], [7 / 2]] None
           = Inr [[5], [4], [7]]"
    by (simp add: scores_def layer1_with_def layer1_def default_config_def ew2_def
        leaky_relu_def)
  show ?thesis
    by (cases "normalize_alpha (cfg ?L) [[5], [4], [7]] (Some [0, 1, 0]) [1, 1, 1]")
      (simp_all add: attention_def t q k s)
qed

lemma modulate_ex:
  "modulate (layer1_with None mech) [[p1, p2], [p3, p4], [p5, p6]] [[a0], [a1], [a2]] index n
     keep
   = Inr [[a0 * p1, a0 * p2], [a1 * p3, a1 * p4], [a2 * p5, a2 * p6]]"
  "modulate (layer1_with (Some ''f-additive'') mech) [[p1, p2], [p3, p4], [p5, p6]]
     [[a0], [a1], [a2]] index n keep
   = Inr [[f_additive a0 * p1, f_additive a0 * p2], [f_additive a1 * p3, f_additive a1 * p4],
          [f_additive a2 * p5, f_additive a2 * p6]]"
  by (simp_all add: modulate_def layer1_with_def layer1_def default_config_def adjust_def
      final_message_def shapes_add_def per_head_def chunks_2_2)

lemma aggregate_ex:
  "aggregate 2 [[a1, a2], [b1, b2], [c1, c2]] [1, 1, 1] 3
   = [[0, 0], [a1 + (b1 + c1), a2 + (b2 + c2)], [0, 0]]"
  by (simp add: aggregate_def upt_3 upt_2 column_def)

lemma update_ex:
  "update ((layer1_with m mech)\<lparr>self_alpha := s\<rparr>) [[0, 0], [a, b], [0, 0]]
   = Inr [[0, 0], [a, b], [0, 0]]"
  by (simp add: update_def layer1_with_def layer1_def default_config_def add_row_def)

lemma gather_ex:
  "map snd [(0, 1), (2, 1), (1 :: int, 1 :: int)] = [1, 1, 1]"
  "map fst [(0 :: int, 1 :: int), (2, 1), (1, 1)] = [0, 2, 1]"
  "length [[1, 2], [3, 4], [0, 1 :: real]] = 3"
  "index_select [[1, 2], [3, 4], [0, 1 :: real]] [1, 1, 1] = Inr [[3, 4], [3, 4], [3, 4]]"
  "index_select [[1, 2], [3, 4], [0, 1 :: real]] [0, 2, 1] = Inr [[1, 2], [0, 1], [3, 4]]"
  by (simp_all add: index_select_def)

lemma msg_width_ex: "msg_width (cfg (layer1_with m mech)) = 2"
  by (simp add: msg_width_def layer1_with_def default_config_def)

lemma message_across_ex:
  "message (layer1_with None ''across-relation'') Float [[3, 4], [3, 4], [3, 4]]
     [[1, 2], [0, 1], [3, 4]] (Some [0, 1, 0]) None [1, 1, 1] 3 keep
   = ((layer1_with None ''across-relation'')
        \<lparr>self_alpha := Some [[exp (- 2) / (exp (- 2) + (exp (- 3) + 1))],
                             [exp (- 3) / (exp (- 2) + (exp (- 3) + 1))],
                             [1 / (exp (- 2) + (exp (- 3) + 1))]]\<rparr>,
      Inr [[exp (- 2) / (exp (- 2) + (exp (- 3) + 1)) * (3 / 2),
            exp (- 2) / (exp (- 2) + (exp (- 3) + 1)) * (3 / 2)],
           [exp (- 3) / (exp (- 2) + (exp (- 3) + 1)) * (1 / 2),
            exp (- 3) / (exp (- 2) + (exp (- 3) + 1)) * (1 / 2)],
           [1 / (exp (- 2) + (exp (- 3) + 1)) * (7 / 2),
            1 / (exp (- 2) + (exp (- 3) + 1)) * (7 / 2)]])"
  by (simp only: message_def attention_ex normalize_alpha_ex modulate_ex map_sum.simps
      sum.case prod.case)

lemma propagate_aggr_ex:
  "propagate_aggr (layer1_with None ''across-relation'') Float [[1, 2], [3, 4], [0, 1]]
     [(0, 1), (2, 1), (1, 1)] (Some [0, 1, 0]) None keep
   = ((layer1_with None ''across-relation'')
        \<lparr>self_alpha := Some [[exp (- 2) / (exp (- 2) + (exp (- 3) + 1))],
                             [exp (- 3) / (exp (- 2) + (exp (- 3) + 1))],
                             [1 / (exp (- 2) + (exp (- 3) + 1))]]\<rparr>,
      Inr [[0, 0],
           [exp (- 2) / (exp (- 2) + (exp (- 3) + 1)) * (3 / 2)
              + (exp (- 3) / (exp (- 2) + (exp (- 3) + 1)) * (1 / 2)
                 + 1 / (exp (- 2) + (exp (- 3) + 1)) * (7 / 2)),
            exp (- 2) / (exp (- 2) + (exp (- 3) + 1)) * (3 / 2)
              + (exp (- 3) / (exp (- 2) + (exp (- 3) + 1)) * (1 / 2)
                 + 1 / (exp (- 2) + (exp (- 3) + 1)) * (7 / 2))],
           [0, 0]])"
  by (simp only: propagate_aggr_def gather_ex message_across_ex msg_width_ex aggregate_ex
      sum.case prod.case)

lemma forward_ex:
  "forward (layer1_with None ''across-relation'') Float [[1, 2], [3, 4], [0, 1]]
     [(0, 1), (2, 1), (1, 1)] (Some [0, 1, 0]) None keep (Some b)
   = (layer1_with None ''across-relation'',
      Inr ([[0, 0],
            [exp (- 2) / (exp (- 2) + (exp (- 3) + 1)) * (3 / 2)
               + (exp (- 3) / (exp (- 2) + (exp (- 3) + 1)) * (1 / 2)
                  + 1 / (exp (- 2) + (exp (- 3) + 1)) * (7 / 2)),
             exp (- 2) / (exp (- 2) + (exp (- 3) + 1)) * (3 / 2)
               + (exp (- 3) / (exp (- 2) + (exp (- 3) + 1)) * (1 / 2)
                  + 1 / (exp (- 2) + (exp (- 3) + 1)) * (7 / 2))],
            [0, 0]],
           Some ([(0, 1), (2, 1), (1, 1)],
                 [[exp (- 2) / (exp (- 2) + (exp (- 3) + 1))],
                  [exp (- 3) / (exp (- 2) + (exp (- 3) + 1))],
                  [1 / (exp (- 2) + (exp (- 3) + 1))]])))"
proof -
  have l: "(layer1_with m mech)\<lparr>self_alpha := Some a\<rparr>\<lparr>self_alpha := None\<rparr>
           = layer1_with m mech" for a m mech
    by (simp add: layer1_with_def layer1_def)
  have a: "self_alpha ((layer1_with m mech)\<lparr>self_alpha := Some a\<rparr>) = Some a" for a m mech
    by simp
  show ?thesis
    by (simp only: forward_def propagate_def propagate_aggr_ex update_ex l a
        sum.case prod.case option.case)
qed

section \<open>The same example with coefficient dropout\<close>

lemma init_layer1_dropout:
  "init host1 ((default_config 2 2 2)\<lparr>dropout := r\<rparr>) = Inr (layer1_dropout r)"
  by (simp add: init_def check_args_def default_config_def ebind_def torch_Tensor_def
        alloc_bias_def alloc_edge_def alloc_relation_def torch_ones_def reset_parameters_def
        Let_def host1_def ones_def zeros_def torch_full_def upt_2 upt_4 upt_8 numeral_2_eq_2
        layer1_def layer1_dropout_def)

lemma attention_dropout_ex:
  "attention (layer1_dropout r) Float [[3, 4], [3, 4], [3, 4]] [[1, 2], [0, 1], [3, 4]]
     (Some [0, 1, 0]) None [1, 1, 1]
   = Inr ([[3 / 2, 3 / 2], [1 / 2, 1 / 2], [7 / 2, 7 / 2]],
          [[exp (- 2) / (exp (- 2) + (exp (- 3) + 1))],
 [exp (- 3) / (exp (- 2) + (exp (- 3) + 1))],
 [1 / (exp (- 2) + (exp (- 3) + 1))]])"
  by (simp add: attention_def transform_def layer1_dropout_def layer1_def default_config_def
      full_transform_def index_select_def tsize_simps upt_2 full_row_def at3_def matmul_def
      at2_def scores_def ew2_def leaky_relu_def normalize_alpha_def softmax_across_ex)

lemma attention_dropout_perm_ex:
  "attention (layer1_dropout r) Float [[3, 4], [3, 4], [3, 4]] [[3, 4], [1, 2], [0, 1]]
     (Some [0, 0, 1]) None [1, 1, 1]
   = Inr ([[7 / 2, 7 / 2], [3 / 2, 3 / 2], [1 / 2, 1 / 2]],
          [[1 / (1 + (exp (- 2) + exp (- 3)))],
 [exp (- 2) / (1 + (exp (- 2) + exp (- 3)))],
 [exp (- 3) / (1 + (exp (- 2) + exp (- 3)))]])"
  by (simp add: attention_def transform_def layer1_dropout_def layer1_def default_config_def
      full_transform_def index_select_def tsize_simps upt_2 full_row_def at3_def matmul_def
      at2_def scores_def ew2_def leaky_relu_def normalize_alpha_def softmax_def
      softmax_row_def column_def)

lemma modulate_dropout_ex:
  "0 < r \<Longrightarrow> modulate (layer1_dropout r) outj alpha index n keep
     = ebind (F_dropout r keep alpha) (final_message (cfg (layer1_dropout r)) outj)"
  by (simp add: modulate_def layer1_dropout_def layer1_def default_config_def adjust_def)

lemma F_dropout_half_ex:
  "F_dropout (1 / 2) (\<lambda>e c. e = 0) [[a0], [a1], [a2]] = Inr [[a0 * 2], [0], [0]]"
  by (simp add: F_dropout_def upt_3)

lemma F_dropout_invalid: "1 < r \<Longrightarrow> F_dropout r keep A = Inl (ValueError ''dropout probability'')"
  by (simp add: F_dropout_def)

lemma final_message_dropout_ex:
  "final_message (cfg (layer1_dropout r)) [[p1, p2], [p3, p4], [p5, p6]] [[a0], [a1], [a2]]
   = Inr [[a0 * p1, a0 * p2], [a1 * p3, a1 * p4], [a2 * p5, a2 * p6]]"
  by (simp add: layer1_dropout_def layer1_def default_config_def final_message_def
      shapes_add_def per_head_def chunks_2_2)

lemma update_dropout_ex:
  "update (layer1_dropout r) [[0, 0], [a, b], [0, 0]] = Inr [[0, 0], [a, b], [0, 0]]"
  by (simp add: update_def layer1_dropout_def layer1_def default_config_def add_row_def)

lemma msg_width_dropout_ex: "msg_width (cfg (layer1_dropout r)) = 2"
  by (simp add: msg_width_def layer1_dropout_def default_config_def)

lemma gather_perm_ex:
  "map snd [(1, 1), (0, 1), (2 :: int, 1 :: int)] = [1, 1, 1]"
  "map fst [(1 :: int, 1 :: int), (0, 1), (2, 1)] = [1, 0, 2]"
  "index_select [[1, 2], [3, 4], [0, 1 :: real]] [1, 0, 2] = Inr [[3, 4], [1, 2], [0, 1]]"
  by (simp_all add: index_select_def)

lemma layer1_dropout_alpha:
  "(layer1_dropout r)\<lparr>self_alpha := None\<rparr> = layer1_dropout r"
  by (simp add: layer1_dropout_def layer1_def)

lemma forward_dropout_invalid_ex:
  assumes "1 < r"
  shows "forward (layer1_dropout r) Float [[1, 2], [3, 4], [0, 1]] [(0, 1), (2, 1), (1, 1)]
     (Some [0, 1, 0]) None keep raw
   = ((layer1_dropout r)
        \<lparr>self_alpha := Some [[exp (- 2) / (exp (- 2) + (exp (- 3) + 1))],
 [exp (- 3) / (exp (- 2) + (exp (- 3) + 1))],
 [1 / (exp (- 2) + (exp (- 3) + 1))]]\<rparr>,
      Inl (ValueError ''dropout probability''))"
proof -
  from assms have r: "0 < r"
    by simp
  show ?thesis
    by (simp only: forward_unfold gather_ex attention_dropout_ex modulate_dropout_ex [OF r]
        F_dropout_invalid [OF assms] ebind_Inl sum.case prod.case)
qed

lemma forward_dropout_half_ex:
  "forward (layer1_dropout (1 / 2)) Float [[1, 2], [3, 4], [0, 1]] [(0, 1), (2, 1), (1, 1)]
     (Some [0, 1, 0]) None (\<lambda>e c. e = 0) None
   = (layer1_dropout (1 / 2),
      Inr ([[0, 0],
            [exp (- 2) / (exp (- 2) + (exp (- 3) + 1)) * 2 * (3 / 2)
               + (0 * (1 / 2) + 0 * (7 / 2)),
             exp (- 2) / (exp (- 2) + (exp (- 3) + 1)) * 2 * (3 / 2)
               + (0 * (1 / 2) + 0 * (7 / 2))],
            [0, 0]], None))"
proof -
  have r: "(0 :: real) < 1 / 2"
    by simp
  show ?thesis
    by (simp only: forward_unfold gather_ex attention_dropout_ex modulate_dropout_ex [OF r]
        F_dropout_half_ex final_message_dropout_ex msg_width_dropout_ex aggregate_ex
        update_dropout_ex layer1_dropout_alpha ebind_Inr sum.case prod.case option.case)
qed

lemma forward_dropout_half_perm_ex:
  "forward (layer1_dropout (1 / 2)) Float [[1, 2], [3, 4], [0, 1]] [(1, 1), (0, 1), (2, 1)]
     (Some [0, 0, 1]) None (\<lambda>e c. e = 0) None
   = (layer1_dropout (1 / 2),
      Inr ([[0, 0],
            [1 / (1 + (exp (- 2) + exp (- 3))) * 2 * (7 / 2)
               + (0 * (3 / 2) + 0 * (1 / 2)),
             1 / (1 + (exp (- 2) + exp (- 3))) * 2 * (7 / 2)
               + (0 * (3 / 2) + 0 * (1 / 2))],
            [0, 0]], None))"
proof -
  have r: "(0 :: real) < 1 / 2"
    by simp
  show ?thesis
    by (simp only: forward_unfold gather_ex gather_perm_ex attention_dropout_perm_ex
        modulate_dropout_ex [OF r] F_dropout_half_ex final_message_dropout_ex
        msg_width_dropout_ex aggregate_ex update_dropout_ex layer1_dropout_alpha ebind_Inr
        sum.case prod.case option.case)
qed

theorem across_relation_sums_to_one_witness:
  "forward (layer1_with None ''across-relation'') Float [[1, 2], [3, 4], [0, 1]]
     [(0, 1), (2, 1), (1, 1)] (Some [0, 1, 0]) None (\<lambda>e c. True) (Some True)
     = (layer1_with None ''across-relation'',
        Inr ([[0, 0],
              [exp (- 2) / (exp (- 2) + (exp (- 3) + 1)) * (3 / 2)
                + (exp (- 3) / (exp (- 2) + (exp (- 3) + 1)) * (1 / 2)
                   + 1 / (exp (- 2) + (exp (- 3) + 1)) * (7 / 2)),
               exp (- 2) / (exp (- 2) + (exp (- 3) + 1)) * (3 / 2)
                + (exp (- 3) / (exp (- 2) + (exp (- 3) + 1)) * (1 / 2)
                   + 1 / (exp (- 2) + (exp (- 3) + 1)) * (7 / 2))],
              [0, 0]],
             Some ([(0, 1), (2, 1), (1, 1)],
                   [[exp (- 2) / (exp (- 2) + (exp (- 3) + 1))],
                    [exp (- 3) / (exp (- 2) + (exp (- 3) + 1))],
                    [1 / (exp (- 2) + (exp (- 3) + 1))]])))
   \<and> tsize (self_q (layer1_with None ''across-relation'')) 1 = 1
   \<and> length ([[exp (- 2 :: real) / (exp (- 2) + (exp (- 3) + 1))],
             [exp (- 3) / (exp (- 2) + (exp (- 3) + 1))],
             [1 / (exp (- 2) + (exp (- 3) + 1))]]) = 3
   \<and> length ([[exp (- 2 :: real) / (exp (- 2) + (exp (- 3) + 1))],
             [exp (- 3) / (exp (- 2) + (exp (- 3) + 1))],
             [1 / (exp (- 2) + (exp (- 3) + 1))]] ! 0) = 1
   \<and> length ([[exp (- 2 :: real) / (exp (- 2) + (exp (- 3) + 1))],
             [exp (- 3) / (exp (- 2) + (exp (- 3) + 1))],
             [1 / (exp (- 2) + (exp (- 3) + 1))]] ! 1) = 1
   \<and> length ([[exp (- 2 :: real) / (exp (- 2) + (exp (- 3) + 1))],
             [exp (- 3) / (exp (- 2) + (exp (- 3) + 1))],
             [1 / (exp (- 2) + (exp (- 3) + 1))]] ! 2) = 1
   \<and> 0 < [[exp (- 2 :: real) / (exp (- 2) + (exp (- 3) + 1))],
          [exp (- 3) / (exp (- 2) + (exp (- 3) + 1))],
          [1 / (exp (- 2) + (exp (- 3) + 1))]] ! 0 ! 0
   \<and> 0 < [[exp (- 2 :: real) / (exp (- 2) + (exp (- 3) + 1))],
          [exp (- 3) / (exp (- 2) + (exp (- 3) + 1))],
          [1 / (exp (- 2) + (exp (- 3) + 1))]] ! 1 ! 0
   \<and> 0 < [[exp (- 2 :: real) / (exp (- 2) + (exp (- 3) + 1))],
          [exp (- 3) / (exp (- 2) + (exp (- 3) + 1))],
          [1 / (exp (- 2) + (exp (- 3) + 1))]] ! 2 ! 0
   \<and> (\<Sum>e'\<leftarrow>[0..<3].
         if snd ([(0, 1), (2, 1), (1 :: int, 1 :: int)] ! e')
            = snd ([(0, 1), (2, 1), (1 :: int, 1 :: int)] ! 0)
         then [[exp (- 2 :: real) / (exp (- 2) + (exp (- 3) + 1))],
               [exp (- 3) / (exp (- 2) + (exp (- 3) + 1))],
               [1 / (exp (- 2) + (exp (- 3) + 1))]] ! e' ! 0
         else 0) = 1
   \<and> (\<Sum>e'\<leftarrow>[0..<3].
         if snd ([(0, 1), (2, 1), (1 :: int, 1 :: int)] ! e')
            = snd ([(0, 1), (2, 1), (1 :: int, 1 :: int)] ! 1)
         then [[exp (- 2 :: real) / (exp (- 2) + (exp (- 3) + 1))],
               [exp (- 3) / (exp (- 2) + (exp (- 3) + 1))],
               [1 / (exp (- 2) + (exp (- 3) + 1))]] ! e' ! 0
         else 0) = 1
   \<and> (\<Sum>e'\<leftarrow>[0..<3].
         if snd ([(0, 1), (2, 1), (1 :: int, 1 :: int)] ! e')
            = snd ([(0, 1), (2, 1), (1 :: int, 1 :: int)] ! 2)
         then [[exp (- 2 :: real) / (exp (- 2) + (exp (- 3) + 1))],
               [exp (- 3) / (exp (- 2) + (exp (- 3) + 1))],
               [1 / (exp (- 2) + (exp (- 3) + 1))]] ! e' ! 0
         else 0) = 1
   \<and> propagate_aggr (layer1_with None ''across-relation'') Float [[1, 2], [3, 4], [0, 1]]
       [(0, 1), (2, 1), (1, 1)] (Some [0, 1, 0]) None (\<lambda>e c. True)
       = ((layer1_with None ''across-relation'')
            \<lparr>self_alpha := Some [[exp (- 2) / (exp (- 2) + (exp (- 3) + 1))],
                                 [exp (- 3) / (exp (- 2) + (exp (- 3) + 1))],
                                 [1 / (exp (- 2) + (exp (- 3) + 1))]]\<rparr>,
          Inr [[0, 0],
               [exp (- 2) / (exp (- 2) + (exp (- 3) + 1)) * (3 / 2)
                 + (exp (- 3) / (exp (- 2) + (exp (- 3) + 1)) * (1 / 2)
                    + 1 / (exp (- 2) + (exp (- 3) + 1)) * (7 / 2)),
                exp (- 2) / (exp (- 2) + (exp (- 3) + 1)) * (3 / 2)
                 + (exp (- 3) / (exp (- 2) + (exp (- 3) + 1)) * (1 / 2)
                    + 1 / (exp (- 2) + (exp (- 3) + 1)) * (7 / 2))],
               [0, 0]])
   \<and> message (layer1_with None ''across-relation'') Float [[3, 4], [3, 4], [3, 4]]
       [[1, 2], [0, 1], [3, 4]] (Some [0, 1, 0]) None [1, 1, 1] 3 (\<lambda>e c. True)
       = ((layer1_with None ''across-relation'')
            \<lparr>self_alpha := Some [[exp (- 2) / (exp (- 2) + (exp (- 3) + 1))],
                                 [exp (- 3) / (exp (- 2) + (exp (- 3) + 1))],
                                 [1 / (exp (- 2) + (exp (- 3) + 1))]]\<rparr>,
          Inr [[exp (- 2) / (exp (- 2) + (exp (- 3) + 1)) * (3 / 2),
                exp (- 2) / (exp (- 2) + (exp (- 3) + 1)) * (3 / 2)],
               [exp (- 3) / (exp (- 2) + (exp (- 3) + 1)) * (1 / 2),
                exp (- 3) / (exp (- 2) + (exp (- 3) + 1)) * (1 / 2)],
               [1 / (exp (- 2) + (exp (- 3) + 1)) * (7 / 2),
                1 / (exp (- 2) + (exp (- 3) + 1)) * (7 / 2)]])
   \<and> length ([[0 :: real, 0],
             [exp (- 2) / (exp (- 2) + (exp (- 3) + 1)) * (3 / 2)
               + (exp (- 3) / (exp (- 2) + (exp (- 3) + 1)) * (1 / 2)
                  + 1 / (exp (- 2) + (exp (- 3) + 1)) * (7 / 2)),
              exp (- 2) / (exp (- 2) + (exp (- 3) + 1)) * (3 / 2)
               + (exp (- 3) / (exp (- 2) + (exp (- 3) + 1)) * (1 / 2)
                  + 1 / (exp (- 2) + (exp (- 3) + 1)) * (7 / 2))],
             [0, 0]] ! 1) = 2
   \<and> [[0 :: real, 0],
      [exp (- 2) / (exp (- 2) + (exp (- 3) + 1)) * (3 / 2)
        + (exp (- 3) / (exp (- 2) + (exp (- 3) + 1)) * (1 / 2)
           + 1 / (exp (- 2) + (exp (- 3) + 1)) * (7 / 2)),
       exp (- 2) / (exp (- 2) + (exp (- 3) + 1)) * (3 / 2)
        + (exp (- 3) / (exp (- 2) + (exp (- 3) + 1)) * (1 / 2)
           + 1 / (exp (- 2) + (exp (- 3) + 1)) * (7 / 2))],
      [0, 0]] ! 1 ! 0
     = (\<Sum>e\<leftarrow>[0..<3].
           if snd ([(0, 1), (2, 1), (1 :: int, 1 :: int)] ! e) = int 1
           then [[exp (- 2 :: real) / (exp (- 2) + (exp (- 3) + 1)) * (3 / 2),
                  exp (- 2) / (exp (- 2) + (exp (- 3) + 1)) * (3 / 2)],
                 [exp (- 3) / (exp (- 2) + (exp (- 3) + 1)) * (1 / 2),
                  exp (- 3) / (exp (- 2) + (exp (- 3) + 1)) * (1 / 2)],
                 [1 / (exp (- 2) + (exp (- 3) + 1)) * (7 / 2),
                  1 / (exp (- 2) + (exp (- 3) + 1)) * (7 / 2)]] ! e ! 0
           else 0)
   \<and> [[0 :: real, 0],
      [exp (- 2) / (exp (- 2) + (exp (- 3) + 1)) * (3 / 2)
        + (exp (- 3) / (exp (- 2) + (exp (- 3) + 1)) * (1 / 2)
           + 1 / (exp (- 2) + (exp (- 3) + 1)) * (7 / 2)),
       exp (- 2) / (exp (- 2) + (exp (- 3) + 1)) * (3 / 2)
        + (exp (- 3) / (exp (- 2) + (exp (- 3) + 1)) * (1 / 2)
           + 1 / (exp (- 2) + (exp (- 3) + 1)) * (7 / 2))],
      [0, 0]] ! 1 ! 1
     = (\<Sum>e\<leftarrow>[0..<3].
           if snd ([(0, 1), (2, 1), (1 :: int, 1 :: int)] ! e) = int 1
           then [[exp (- 2 :: real) / (exp (- 2) + (exp (- 3) + 1)) * (3 / 2),
                  exp (- 2) / (exp (- 2) + (exp (- 3) + 1)) * (3 / 2)],
                 [exp (- 3) / (exp (- 2) + (exp (- 3) + 1)) * (1 / 2),
                  exp (- 3) / (exp (- 2) + (exp (- 3) + 1)) * (1 / 2)],
                 [1 / (exp (- 2) + (exp (- 3) + 1)) * (7 / 2),
                  1 / (exp (- 2) + (exp (- 3) + 1)) * (7 / 2)]] ! e ! 1
           else 0)
   \<and> [[0 :: real, 0],
      [exp (- 2) / (exp (- 2) + (exp (- 3) + 1)) * (3 / 2)
        + (exp (- 3) / (exp (- 2) + (exp (- 3) + 1)) * (1 / 2)
           + 1 / (exp (- 2) + (exp (- 3) + 1)) * (7 / 2)),
       exp (- 2) / (exp (- 2) + (exp (- 3) + 1)) * (3 / 2)
        + (exp (- 3) / (exp (- 2) + (exp (- 3) + 1)) * (1 / 2)
           + 1 / (exp (- 2) + (exp (- 3) + 1)) * (7 / 2))],
      [0, 0]] ! 0 = replicate 2 0
   \<and> [[0 :: real, 0],
      [exp (- 2) / (exp (- 2) + (exp (- 3) + 1)) * (3 / 2)
        + (exp (- 3) / (exp (- 2) + (exp (- 3) + 1)) * (1 / 2)
           + 1 / (exp (- 2) + (exp (- 3) + 1)) * (7 / 2)),
       exp (- 2) / (exp (- 2) + (exp (- 3) + 1)) * (3 / 2)
        + (exp (- 3) / (exp (- 2) + (exp (- 3) + 1)) * (1 / 2)
           + 1 / (exp (- 2) + (exp (- 3) + 1)) * (7 / 2))],
      [0, 0]] ! 2 = replicate 2 0"
proof -
  let ?L = "layer1_with None ''across-relation''"
  let ?X = "[[1, 2], [3, 4], [0, 1 :: real]]"
  let ?EI = "[(0, 1), (2, 1), (1 :: int, 1 :: int)]"
  let ?keep = "\<lambda>(e :: nat) (c :: nat). True"
  let ?AL = "[[exp (- 2) / (exp (- 2) + (exp (- 3) + 1))],
              [exp (- 3) / (exp (- 2) + (exp (- 3) + 1))],
              [1 / (exp (- 2) + (exp (- 3) + 1))]] :: real list list"
  let ?AGG = "[[0, 0],
               [exp (- 2) / (exp (- 2) + (exp (- 3) + 1)) * (3 / 2)
                 + (exp (- 3) / (exp (- 2) + (exp (- 3) + 1)) * (1 / 2)
                    + 1 / (exp (- 2) + (exp (- 3) + 1)) * (7 / 2)),
                exp (- 2) / (exp (- 2) + (exp (- 3) + 1)) * (3 / 2)
                 + (exp (- 3) / (exp (- 2) + (exp (- 3) + 1)) * (1 / 2)
                    + 1 / (exp (- 2) + (exp (- 3) + 1)) * (7 / 2))],
               [0, 0]] :: real list list"
  let ?MS = "[[exp (- 2) / (exp (- 2) + (exp (- 3) + 1)) * (3 / 2),
               exp (- 2) / (exp (- 2) + (exp (- 3) + 1)) * (3 / 2)],
              [exp (- 3) / (exp (- 2) + (exp (- 3) + 1)) * (1 / 2),
               exp (- 3) / (exp (- 2) + (exp (- 3) + 1)) * (1 / 2)],
              [1 / (exp (- 2) + (exp (- 3) + 1)) * (7 / 2),
               1 / (exp (- 2) + (exp (- 3) + 1)) * (7 / 2)]] :: real list list"
  let ?LA = "?L\<lparr>self_alpha := Some ?AL\<rparr>"
  have f: "forward ?L Float ?X ?EI (Some [0, 1, 0]) None ?keep (Some True)
           = (?L, Inr (?AGG, Some (?EI, ?AL)))"
    by (rule forward_ex)
  have p: "propagate_aggr ?L Float ?X ?EI (Some [0, 1, 0]) None ?keep = (?LA, Inr ?AGG)"
    by (rule propagate_aggr_ex)
  have m: "message ?L Float [[3, 4], [3, 4], [3, 4]] [[1, 2], [0, 1], [3, 4]] (Some [0, 1, 0]) None [1, 1, 1] 3 ?keep
           = (?LA, Inr ?MS)"
    by (rule message_across_ex)
  have mech: "attention_mechanism (cfg ?L) = ''across-relation''"
    and mode: "attention_mode (cfg ?L) = ''additive-self-attention''"
    by (simp_all add: layer1_with_def default_config_def)
  have w: "msg_width (cfg ?L) = 2"
    by (rule msg_width_ex)
  have tq: "tsize (self_q ?L) 1 = 1"
    by (simp add: layer1_with_def layer1_def tsize_simps)
  have l3: "length ?EI = 3" and lx: "length ?X = 3"
    by simp_all
  have e3: "(0 :: nat) < 3" "(1 :: nat) < 3" "(2 :: nat) < 3" and c2: "(0 :: nat) < 2" "(1 :: nat) < 2"
    by simp_all
  have cl: "0 < length (?AL ! 0)" "0 < length (?AL ! 1)" "0 < length (?AL ! 2)"
    by simp_all
  have iso: "int 0 \<notin> snd ` set ?EI" "int 2 \<notin> snd ` set ?EI"
    by simp_all
  note t = across_relation_sums_to_one [OF mech, where dt = Float and x = ?X
      and edge_index = ?EI and edge_type = "Some [0, 1, 0]" and ea = None and keep = ?keep
      and b = True and L' = ?L and out = ?AGG and ei = ?EI and alpha = ?AL and L'' = ?LA
      and aggr_out = ?AGG]
  note c1 = t [THEN conjunct1, THEN mp, OF f]
  note c2' = t [THEN conjunct2, THEN mp, OF p]
  have a1: "length ?AL = 3"
    using c1 [THEN conjunct2, THEN conjunct1] unfolding l3 .
  have a2: "\<forall>e<3. length (?AL ! e) = 1"
    using c1 [THEN conjunct2, THEN conjunct2, THEN conjunct1, THEN mp, OF disjI1, OF mode]
    unfolding l3 tq .
  have a3: "\<forall>e<3. \<forall>c<length (?AL ! e).
         0 < ?AL ! e ! c
       \<and> (\<Sum>e'\<leftarrow>[0..<3]. if snd (?EI ! e') = snd (?EI ! e) then ?AL ! e' ! c else 0) = 1"
    using c1 [THEN conjunct2, THEN conjunct2, THEN conjunct2] unfolding l3 .
  from c2' [THEN conjunct2, THEN conjunct1] obtain x_i x_j msgs where
    xi: "index_select ?X (map snd ?EI) = Inr x_i"
    and xj: "index_select ?X (map fst ?EI) = Inr x_j"
    and ms: "message ?L Float x_i x_j (Some [0, 1, 0]) None (map snd ?EI) (length ?X) ?keep
             = (?LA, Inr msgs)"
    and rows: "\<forall>n<length ?X. length (?AGG ! n) = msg_width (cfg ?L)
                 \<and> (\<forall>c<msg_width (cfg ?L).
                       ?AGG ! n ! c
                       = (\<Sum>e\<leftarrow>[0..<length ?EI].
                             if snd (?EI ! e) = int n then msgs ! e ! c else 0))"
    by blast
  from xi have "x_i = [[3, 4], [3, 4], [3, 4]]"
    by (simp only: gather_ex sum.inject)
  moreover from xj have "x_j = [[1, 2], [0, 1], [3, 4]]"
    by (simp only: gather_ex sum.inject)
  ultimately have mm: "msgs = ?MS"
    using ms by (simp only: gather_ex m prod.inject sum.inject)
  have a4: "\<forall>n<3. length (?AGG ! n) = 2
         \<and> (\<forall>c<2. ?AGG ! n ! c
               = (\<Sum>e\<leftarrow>[0..<3]. if snd (?EI ! e) = int n then ?MS ! e ! c else 0))"
    using rows unfolding mm l3 lx w .
  have a5: "\<forall>n<3. int n \<notin> snd ` set ?EI \<longrightarrow> ?AGG ! n = replicate 2 0"
    using c2' [THEN conjunct2, THEN conjunct2] unfolding lx w .
  note b2 = a2 [rule_format, OF e3(1)] a2 [rule_format, OF e3(2)] a2 [rule_format, OF e3(3)]
  note b3 = a3 [rule_format, OF e3(1) cl(1)] a3 [rule_format, OF e3(2) cl(2)]
    a3 [rule_format, OF e3(3) cl(3)]
  note b4 = a4 [rule_format, OF e3(2), THEN conjunct1]
    a4 [rule_format, OF e3(2), THEN conjunct2, rule_format, OF c2(1)]
    a4 [rule_format, OF e3(2), THEN conjunct2, rule_format, OF c2(2)]
  note b5 = a5 [rule_format, OF e3(1), unfolded One_nat_def, OF iso(1)]
    a5 [rule_format, OF e3(3) iso(2)]
  show ?thesis
    by (intro conjI)
      (rule f tq a1 b2 b3 [THEN conjunct1] b3 [THEN conjunct2] p m b4 b5
         | rule b4 [unfolded of_nat_1])+
qed

lemma message_f_additive_ex:
  "message (layer1_with (Some ''f-additive'') ''across-relation'') Float
     [[3, 4], [3, 4], [3, 4]] [[1, 2], [0, 1], [3, 4]] (Some [0, 1, 0]) None [1, 1, 1] 3 keep
   = ((layer1_with (Some ''f-additive'') ''across-relation'')
        \<lparr>self_alpha := Some [[exp (- 2) / (exp (- 2) + (exp (- 3) + 1))],
                             [exp (- 3) / (exp (- 2) + (exp (- 3) + 1))],
                             [1 / (exp (- 2) + (exp (- 3) + 1))]]\<rparr>,
      Inr [[f_additive (exp (- 2) / (exp (- 2) + (exp (- 3) + 1))) * (3 / 2),
            f_additive (exp (- 2) / (exp (- 2) + (exp (- 3) + 1))) * (3 / 2)],
           [f_additive (exp (- 3) / (exp (- 2) + (exp (- 3) + 1))) * (1 / 2),
            f_additive (exp (- 3) / (exp (- 2) + (exp (- 3) + 1))) * (1 / 2)],
           [f_additive (1 / (exp (- 2) + (exp (- 3) + 1))) * (7 / 2),
            f_additive (1 / (exp (- 2) + (exp (- 3) + 1))) * (7 / 2)]])"
  by (simp only: message_def attention_ex normalize_alpha_ex modulate_ex map_sum.simps
      sum.case prod.case)

theorem f_additive_shifts_positive_witness:
  "\<exists>L' msgs outj alpha.
      message (layer1_with (Some ''f-additive'') ''across-relation'') Float
        [[3, 4], [3, 4], [3, 4]] [[1, 2], [0, 1], [3, 4]] (Some [0, 1, 0]) None [1, 1, 1] 3
        (\<lambda>e c. True) = (L', Inr msgs)
    \<and> attention (layer1_with (Some ''f-additive'') ''across-relation'') Float
        [[3, 4], [3, 4], [3, 4]] [[1, 2], [0, 1], [3, 4]] (Some [0, 1, 0]) None [1, 1, 1]
        = Inr (outj, alpha)
    \<and> self_alpha L' = Some alpha \<and> length msgs = 3 \<and> length alpha = 3
    \<and> (\<forall>e<3. \<forall>j<2.
          msgs ! e ! j = (if 0 < alpha ! e ! 0 then alpha ! e ! 0 + 1 else alpha ! e ! 0)
                         * outj ! e ! j)"
proof -
  let ?L = "layer1_with (Some ''f-additive'') ''across-relation''"
  let ?keep = "\<lambda>(e :: nat) (c :: nat). True"
  let ?al = "[[exp (- 2) / (exp (- 2) + (exp (- 3) + 1))],
              [exp (- 3) / (exp (- 2) + (exp (- 3) + 1))],
              [1 / (exp (- 2) + (exp (- 3) + 1 :: real))]]"
  have md: "mod_name (cfg ?L) = Some ''f-additive''"
    and mode: "attention_mode (cfg ?L) = ''additive-self-attention''"
    and h: "nat (heads (cfg ?L)) = 1" and k: "nat (out_channels (cfg ?L)) = 2"
    by (simp_all add: layer1_with_def default_config_def)
  obtain L' msgs where msg:
    "message ?L Float [[3, 4], [3, 4], [3, 4]] [[1, 2], [0, 1], [3, 4]] (Some [0, 1, 0]) None
       [1, 1, 1] 3 ?keep = (L', Inr msgs)"
    using message_f_additive_ex [of ?keep] by blast
  from f_additive_shifts_positive [OF md msg] mode obtain outj alpha where
    att: "attention ?L Float [[3, 4], [3, 4], [3, 4]] [[1, 2], [0, 1], [3, 4]]
            (Some [0, 1, 0]) None [1, 1, 1] = Inr (outj, alpha)"
    and sa: "self_alpha L' = Some alpha" and len: "length msgs = length alpha"
    and ent: "\<forall>e<length alpha. \<forall>h<nat (heads (cfg ?L)). \<forall>j<nat (out_channels (cfg ?L)).
                 msgs ! e ! (h * nat (out_channels (cfg ?L)) + j)
                 = (if 0 < alpha ! e ! h then alpha ! e ! h + 1 else alpha ! e ! h)
                   * outj ! e ! (h * nat (out_channels (cfg ?L)) + j)"
    by blast
  from att have "alpha = ?al"
    by (simp add: attention_ex normalize_alpha_ex)
  then have la: "length alpha = 3"
    by simp
  from ent have "\<forall>e<3. \<forall>j<2.
          msgs ! e ! j = (if 0 < alpha ! e ! 0 then alpha ! e ! 0 + 1 else alpha ! e ! 0)
                         * outj ! e ! j"
    unfolding h k la by simp
  with msg att sa len la show ?thesis
    by (intro exI [of _ L'] exI [of _ msgs] exI [of _ outj] exI [of _ alpha]) simp
qed

text \<open>
  Claim C9, as stated, fails for a call that raises after line 256. The constructor accepts
  \<^verbatim>\<open>dropout = 3/2\<close> (it checks no range); in training mode \<^verbatim>\<open>F.dropout\<close> then raises
  after the attention weights were stored, \<^verbatim>\<open>forward\<close> never reaches line 178, and the
  field still holds the weights of that call; a later call that raises while gathering the
  endpoint rows leaves them there.
\<close>

theorem forward_raise_keeps_alpha:
  "init host1 ((default_config 2 2 2)\<lparr>dropout := 3 / 2\<rparr>) = Inr (layer1_dropout (3 / 2))
   \<and> self_alpha (layer1_dropout (3 / 2)) = None
   \<and> forward (layer1_dropout (3 / 2)) Float [[1, 2], [3, 4], [0, 1]] [(0, 1), (2, 1), (1, 1)]
       (Some [0, 1, 0]) None (\<lambda>e c. True) None
     = ((layer1_dropout (3 / 2))
          \<lparr>self_alpha := Some [[exp (- 2) / (exp (- 2) + (exp (- 3) + 1))],
                               [exp (- 3) / (exp (- 2) + (exp (- 3) + 1))],
                               [1 / (exp (- 2) + (exp (- 3) + 1))]]\<rparr>,
        Inl (ValueError ''dropout probability''))
   \<and> forward ((layer1_dropout (3 / 2))
                \<lparr>self_alpha := Some [[exp (- 2) / (exp (- 2) + (exp (- 3) + 1))],
                                     [exp (- 3) / (exp (- 2) + (exp (- 3) + 1))],
                                     [1 / (exp (- 2) + (exp (- 3) + 1))]]\<rparr>)
       Float [[1, 2], [3, 4], [0, 1]] [(5, 1)] (Some [0]) None (\<lambda>e c. True) None
     = ((layer1_dropout (3 / 2))
          \<lparr>self_alpha := Some [[exp (- 2) / (exp (- 2) + (exp (- 3) + 1))],
                               [exp (- 3) / (exp (- 2) + (exp (- 3) + 1))],
                               [1 / (exp (- 2) + (exp (- 3) + 1))]]\<rparr>,
        Inl IndexError)"
proof -
  have r: "(1 :: real) < 3 / 2"
    by simp
  have i: "index_select [[1, 2], [3, 4], [0, 1]] (map snd [(5 :: int, 1 :: int)]) = Inr [[3, 4 :: real]]"
    "index_select [[1, 2], [3, 4], [0, 1 :: real]] (map fst [(5 :: int, 1 :: int)])
     = Inl IndexError"
    by (simp_all add: index_select_def)
  have a: "self_alpha (layer1_dropout (3 / 2)) = None"
    by (simp add: layer1_dropout_def layer1_def)
  have s: "forward L Float [[1, 2], [3, 4], [0, 1]] [(5, 1)] (Some [0]) None keep None
           = (L, Inl IndexError)" for L keep
    by (simp only: forward_unfold i sum.case)
  show ?thesis
    by (intro conjI) (rule init_layer1_dropout a forward_dropout_invalid_ex [OF r] s)+
qed

theorem forward_alpha_lifetime_witness:
  "self_alpha (fst (message (layer1_with None ''across-relation'') Float
       [[3, 4], [3, 4], [3, 4]] [[1, 2], [0, 1], [3, 4]] (Some [0, 1, 0]) None [1, 1, 1] 3
       (\<lambda>e c. True)))
     = Some [[exp (- 2) / (exp (- 2) + (exp (- 3) + 1))],
             [exp (- 3) / (exp (- 2) + (exp (- 3) + 1))],
             [1 / (exp (- 2) + (exp (- 3) + 1))]]
   \<and> forward (layer1_with None ''across-relation'') Float [[1, 2], [3, 4], [0, 1]]
       [(0, 1), (2, 1), (1, 1)] (Some [0, 1, 0]) None (\<lambda>e c. True) (Some True)
     = ((layer1_with None ''across-relation'')\<lparr>self_alpha := None\<rparr>,
        Inr ([[0, 0],
              [exp (- 2) / (exp (- 2) + (exp (- 3) + 1)) * (3 / 2)
                + (exp (- 3) / (exp (- 2) + (exp (- 3) + 1)) * (1 / 2)
                   + 1 / (exp (- 2) + (exp (- 3) + 1)) * (7 / 2)),
               exp (- 2) / (exp (- 2) + (exp (- 3) + 1)) * (3 / 2)
                + (exp (- 3) / (exp (- 2) + (exp (- 3) + 1)) * (1 / 2)
                   + 1 / (exp (- 2) + (exp (- 3) + 1)) * (7 / 2))],
              [0, 0]],
             Some ([(0, 1), (2, 1), (1, 1)],
                   [[exp (- 2) / (exp (- 2) + (exp (- 3) + 1))],
                    [exp (- 3) / (exp (- 2) + (exp (- 3) + 1))],
                    [1 / (exp (- 2) + (exp (- 3) + 1))]])))
   \<and> self_alpha ((layer1_with None ''across-relation'')\<lparr>self_alpha := None\<rparr>) = None
   \<and> forward (layer1_dropout 2) Float [[1, 2], [3, 4], [0, 1]]
       [(0, 1), (2, 1), (1, 1)] (Some [0, 1, 0]) None (\<lambda>e c. True) (Some True)
     = ((layer1_dropout 2)
          \<lparr>self_alpha := Some [[exp (- 2) / (exp (- 2) + (exp (- 3) + 1))],
                               [exp (- 3) / (exp (- 2) + (exp (- 3) + 1))],
                               [1 / (exp (- 2) + (exp (- 3) + 1))]]\<rparr>,
        Inl (ValueError ''dropout probability''))
   \<and> forward ((layer1_with None ''across-relation'')\<lparr>self_alpha := Some [[9]]\<rparr>) Float
       [[1, 2], [3, 4], [0, 1]] [(5, 1)] (Some [0]) None (\<lambda>e c. True) (Some True)
     = ((layer1_with None ''across-relation'')\<lparr>self_alpha := Some [[9]]\<rparr>, Inl IndexError)
   \<and> snd (forward ((layer1_with None ''across-relation'')\<lparr>self_alpha := Some [[9]]\<rparr>) Float
       [[1, 2], [3, 4], [0, 1]] [(0, 1), (2, 1), (1, 1)] (Some [0, 1, 0]) None
       (\<lambda>e c. True) (Some True))
     = snd (forward (layer1_with None ''across-relation'') Float
       [[1, 2], [3, 4], [0, 1]] [(0, 1), (2, 1), (1, 1)] (Some [0, 1, 0]) None
       (\<lambda>e c. True) (Some True))"
proof -
  let ?L = "layer1_with None ''across-relation''"
  let ?D = "layer1_dropout 2"
  let ?S = "?L\<lparr>self_alpha := Some [[9]]\<rparr>"
  let ?keep = "\<lambda>(e :: nat) (c :: nat). True"
  let ?AL = "[[exp (- 2) / (exp (- 2) + (exp (- 3) + 1))],
              [exp (- 3) / (exp (- 2) + (exp (- 3) + 1))],
              [1 / (exp (- 2) + (exp (- 3) + 1))]] :: real list list"
  let ?AGG = "[[0, 0],
               [exp (- 2) / (exp (- 2) + (exp (- 3) + 1)) * (3 / 2)
                 + (exp (- 3) / (exp (- 2) + (exp (- 3) + 1)) * (1 / 2)
                    + 1 / (exp (- 2) + (exp (- 3) + 1)) * (7 / 2)),
                exp (- 2) / (exp (- 2) + (exp (- 3) + 1)) * (3 / 2)
                 + (exp (- 3) / (exp (- 2) + (exp (- 3) + 1)) * (1 / 2)
                    + 1 / (exp (- 2) + (exp (- 3) + 1)) * (7 / 2))],
               [0, 0]] :: real list list"
  let ?MS = "[[exp (- 2) / (exp (- 2) + (exp (- 3) + 1)) * (3 / 2),
               exp (- 2) / (exp (- 2) + (exp (- 3) + 1)) * (3 / 2)],
              [exp (- 3) / (exp (- 2) + (exp (- 3) + 1)) * (1 / 2),
               exp (- 3) / (exp (- 2) + (exp (- 3) + 1)) * (1 / 2)],
              [1 / (exp (- 2) + (exp (- 3) + 1)) * (7 / 2),
               1 / (exp (- 2) + (exp (- 3) + 1)) * (7 / 2)]] :: real list list"
  let ?X = "[[1, 2], [3, 4], [0, 1 :: real]]"
  let ?EI = "[(0, 1), (2, 1), (1 :: int, 1 :: int)]"
  let ?XI = "[[3, 4], [3, 4], [3, 4]] :: real list list"
  let ?XJ = "[[1, 2], [0, 1], [3, 4]] :: real list list"
  let ?OJ = "[[3 / 2, 3 / 2], [1 / 2, 1 / 2], [7 / 2, 7 / 2]] :: real list list"
  have xi: "index_select ?X (map snd ?EI) = Inr ?XI"
    and xj: "index_select ?X (map fst ?EI) = Inr ?XJ"
    by (simp_all only: gather_ex)
  have att: "attention ?L Float ?XI ?XJ (Some [0, 1, 0]) None [1, 1, 1] = Inr (?OJ, ?AL)"
    by (simp only: attention_ex normalize_alpha_ex map_sum.simps)
  have att': "attention ?L Float ?XI ?XJ (Some [0, 1, 0]) None (map snd ?EI) = Inr (?OJ, ?AL)"
    by (simp only: gather_ex att)
  have md: "modulate ?L ?OJ ?AL (map snd ?EI) (length ?X) ?keep = Inr ?MS"
    by (simp only: modulate_ex)
  have up: "update ?L (aggregate (msg_width (cfg ?L)) ?MS (map snd ?EI) (length ?X))
            = Inr ?AGG"
  proof -
    have u: "update ?L [[0, 0], [a, b], [0, 0]] = Inr [[0, 0], [a, b], [0, 0]]" for a b
      by (simp add: update_def layer1_with_def layer1_def default_config_def add_row_def)
    show ?thesis
      by (simp only: gather_ex msg_width_ex aggregate_ex u)
  qed
  have attd: "attention ?D Float ?XI ?XJ (Some [0, 1, 0]) None (map snd ?EI) = Inr (?OJ, ?AL)"
    by (simp only: gather_ex attention_dropout_ex)
  have r: "(0 :: real) < 2" "(1 :: real) < 2"
    by simp_all
  have mdd: "modulate ?D ?OJ ?AL (map snd ?EI) (length ?X) ?keep
             = Inl (ValueError ''dropout probability'')"
    by (simp only: modulate_dropout_ex [OF r(1)] F_dropout_invalid [OF r(2)] ebind_Inl)
  have i: "index_select ?X (map snd [(5 :: int, 1 :: int)]) = Inr [[3, 4 :: real]]"
    "index_select ?X (map fst [(5 :: int, 1 :: int)]) = Inl IndexError"
    by (simp_all add: index_select_def)
  have w1: "self_alpha (fst (message ?L Float ?XI ?XJ (Some [0, 1, 0]) None [1, 1, 1] 3 ?keep))
            = Some ?AL"
    using forward_alpha_lifetime [THEN conjunct1, THEN mp, OF att] .
  have w2: "forward ?L Float ?X ?EI (Some [0, 1, 0]) None ?keep (Some True)
            = (?L\<lparr>self_alpha := None\<rparr>, Inr (?AGG, Some (?EI, ?AL)))"
    using forward_alpha_lifetime [where raw = "Some True", THEN conjunct2, THEN conjunct1,
        THEN mp, OF conjI [OF xi conjI [OF xj conjI [OF att' conjI [OF md up]]]]]
    by (simp only: option.case)
  have w3: "self_alpha (?L\<lparr>self_alpha := None\<rparr>) = None"
    using forward_alpha_lifetime [THEN conjunct2, THEN conjunct2, THEN conjunct2,
        THEN conjunct2, THEN conjunct1, THEN mp, OF w2] .
  have w4: "forward ?D Float ?X ?EI (Some [0, 1, 0]) None ?keep (Some True)
            = (?D\<lparr>self_alpha := Some ?AL\<rparr>, Inl (ValueError ''dropout probability''))"
    using forward_alpha_lifetime [THEN conjunct2, THEN conjunct2, THEN conjunct1, THEN mp,
        OF conjI [OF xi conjI [OF xj conjI [OF attd disjI1 [OF mdd]]]]] .
  have w5: "forward ?S Float ?X [(5, 1)] (Some [0]) None ?keep (Some True)
            = (?S, Inl IndexError)"
    using forward_alpha_lifetime [THEN conjunct2, THEN conjunct2, THEN conjunct2,
        THEN conjunct1, THEN mp, OF disjI2 [OF conjI [OF i(1) disjI1 [OF i(2)]]]] .
  have w6: "snd (forward ?S Float ?X ?EI (Some [0, 1, 0]) None ?keep (Some True))
            = snd (forward ?L Float ?X ?EI (Some [0, 1, 0]) None ?keep (Some True))"
    using forward_alpha_lifetime [THEN conjunct2, THEN conjunct2, THEN conjunct2,
        THEN conjunct2, THEN conjunct2, THEN conjunct2] .
  show ?thesis
    by (intro conjI) (rule w1 w2 w3 w4 w5 w6)+
qed

section \<open>Within-relation normalisation\<close>

lemma masked_assign_map:
  assumes "length out = length flags" "length xs = length flags"
  shows "masked_assign out flags (map h (select_mask xs flags))
         = map (\<lambda>(y, b, x). if b then h x else y) (zip out (zip flags xs))"
  using assms(1) assms(2) [symmetric]
proof (induction out flags xs rule: list_induct3)
  case Nil
  then show ?case by simp
next
  case (Cons y ys b bs x xs)
  then show ?case by (cases b) simp_all
qed

lemma zip_select_mask:
  "length A = length I \<Longrightarrow> length I = length m
   \<Longrightarrow> zip (select_mask A m) (select_mask I m) = select_mask (zip A I) m"
  by (induction A I m rule: list_induct3) simp_all

lemma select_mask_map: "select_mask (map f xs) m = map f (select_mask xs m)"
  by (induction xs m rule: list_induct2') simp_all

lemma length_select_mask:
  "length A = length I \<Longrightarrow> length I = length m
   \<Longrightarrow> length (select_mask A m) = length (select_mask I m)"
  by (induction A I m rule: list_induct3) simp_all

lemma softmax_select:
  assumes "length A = length I" "length I = length m"
  shows "softmax (select_mask A m) (select_mask I m)
         = map (\<lambda>(row, i). softmax_row (group_rows (select_mask A m) (select_mask I m) i) row)
             (select_mask (zip A I) m)"
  by (simp add: softmax_def zip_select_mask [OF assms])

lemma within_step:
  assumes "length out = length m" "length A = length m" "length I = length m"
  shows "masked_assign out m (softmax (select_mask A m) (select_mask I m))
         = map (\<lambda>(y, b, row, i).
                  if b then softmax_row (group_rows (select_mask A m) (select_mask I m) i) row
                  else y)
             (zip out (zip m (zip A I)))"
proof -
  have l: "length (zip A I) = length m"
    using assms by simp
  show ?thesis
    using masked_assign_map [OF assms(1) l,
        of "\<lambda>(row, i). softmax_row (group_rows (select_mask A m) (select_mask I m) i) row"]
      assms
    by (simp add: softmax_select split_def)
qed

lemma within_relation_Suc:
  "within_relation (Suc R) A ts I
   = masked_assign (within_relation R A ts I) (map (\<lambda>t. t = int R) ts)
       (softmax (select_mask A (map (\<lambda>t. t = int R) ts))
                (select_mask I (map (\<lambda>t. t = int R) ts)))"
  by (simp add: within_relation_def)

lemma within_relation_char:
  assumes "length ts = length A" "length I = length A"
  shows "within_relation R A ts I
         = map (\<lambda>(a, t, i).
                  if 0 \<le> t \<and> t < int R then softmax_row (relation_group A ts I t i) a
                  else map (\<lambda>_. 0) a)
             (zip A (zip ts I))"
proof (induction R)
  case 0
  have "map (map (\<lambda>_. 0 :: real)) A = map (\<lambda>(a, t, i). map (\<lambda>_. 0) a) (zip A (zip ts I))"
    using assms by (intro nth_equalityI) simp_all
  then show ?case
    by (auto simp: within_relation_def split_def)
next
  case (Suc R)
  let ?m = "map (\<lambda>t. t = int R) ts"
  let ?F = "\<lambda>R (a, t, i).
                  if 0 \<le> t \<and> t < int R then softmax_row (relation_group A ts I t i) a
                  else map (\<lambda>_. 0) a"
  let ?out = "map (?F R) (zip A (zip ts I))"
  have lo: "length ?out = length ?m" and la: "length A = length ?m"
    and li: "length I = length ?m"
    using assms by simp_all
  have "within_relation (Suc R) A ts I
        = map (\<lambda>(y, b, row, i).
                  if b then softmax_row (group_rows (select_mask A ?m) (select_mask I ?m) i) row
                  else y)
            (zip ?out (zip ?m (zip A I)))"
    unfolding within_relation_Suc Suc.IH by (rule within_step [OF lo la li])
  also have "\<dots> = map (?F (Suc R)) (zip A (zip ts I))"
    using assms by (intro nth_equalityI) (auto simp: relation_group_def)
  finally show ?case .
qed

lemma relation_group_Nil [simp]: "relation_group [] ts I t i = []"
  by (simp add: relation_group_def)

lemma relation_group_Cons [simp]:
  "relation_group (a # A) (u # ts) (j # I) t i
   = (if u = t \<and> j = i then a # relation_group A ts I t i else relation_group A ts I t i)"
  by (simp add: relation_group_def)

lemma relation_group_member:
  assumes "length A = length ts" "length ts = length I"
  shows "(a, t, i) \<in> set (zip A (zip ts I)) \<Longrightarrow> a \<in> set (relation_group A ts I t i)"
  using assms by (induction A ts I rule: list_induct3) auto

lemma set_select_mask: "set (select_mask xs m) \<subseteq> set xs"
  by (auto simp: select_mask_def dest: set_zip_leftD)

lemma set_relation_group: "set (relation_group A ts I t i) \<subseteq> set A"
  using set_group_rows set_select_mask unfolding relation_group_def
  by (rule subset_trans)

lemma relation_sum_zip:
  assumes "length A = length ts" "length ts = length I"
  shows "sum_list (column (relation_group A ts I t i) c)
         = sum_list (map (\<lambda>(a, u, j). if j = i \<and> u = t then a ! c else 0) (zip A (zip ts I)))"
  using assms by (induction A ts I rule: list_induct3) (simp_all add: column_def)

lemma relation_sum_index:
  assumes "length A = length ts" "length ts = length I"
  shows "sum_list (column (relation_group A ts I t i) c)
         = (\<Sum>e\<leftarrow>[0..<length A]. if I ! e = i \<and> ts ! e = t then A ! e ! c else 0)"
proof -
  have z: "zip A (zip ts I) = map (\<lambda>e. (A ! e, ts ! e, I ! e)) [0..<length A]"
    using assms by (intro nth_equalityI) simp_all
  show ?thesis
    unfolding relation_sum_zip [OF assms] z by (simp add: comp_def)
qed

lemma relation_group_map:
  assumes "length A = length ts" "length ts = length I"
  shows "relation_group (map (\<lambda>(a, u, j). g u j a) (zip A (zip ts I))) ts I t i
         = map (g t i) (relation_group A ts I t i)"
  using assms by (induction A ts I rule: list_induct3) simp_all

lemma within_relation_sum:
  assumes lt: "length ts = length A" and li: "length I = length A"
    and w: "list_all (\<lambda>r. length r = w) A"
    and e: "e < length A" and r: "0 \<le> ts ! e" "ts ! e < int R" and c: "c < w"
  shows "0 < within_relation R A ts I ! e ! c"
    and "(\<Sum>e'\<leftarrow>[0..<length A].
            if I ! e' = I ! e \<and> ts ! e' = ts ! e then within_relation R A ts I ! e' ! c else 0)
         = 1"
proof -
  let ?t = "ts ! e" and ?i = "I ! e"
  let ?g = "\<lambda>u j a. if 0 \<le> u \<and> u < int R then softmax_row (relation_group A ts I u j) a
                      else map (\<lambda>_. 0) a"
  let ?grp = "relation_group A ts I ?t ?i"
  have ch: "within_relation R A ts I = map (\<lambda>(a, u, j). ?g u j a) (zip A (zip ts I))"
    using within_relation_char [OF lt li, of R] by simp
  have len: "length A = length ts" "length ts = length I"
    using lt li by simp_all
  have "(A ! e, ?t, ?i) \<in> set (zip A (zip ts I))"
    using e lt li by (auto simp: in_set_zip intro!: exI [of _ e])
  from relation_group_member [OF len this] have ne: "?grp \<noteq> []"
    by auto
  have gw: "list_all (\<lambda>r. length r = w) ?grp"
    using w set_relation_group [of A ts I ?t ?i] by (auto simp: list_all_iff)
  have ae: "length (A ! e) = w"
    using w e by (simp add: list_all_length)
  have "within_relation R A ts I ! e = softmax_row ?grp (A ! e)"
    using e lt li r by (simp add: ch)
  then show "0 < within_relation R A ts I ! e ! c"
    using softmax_row_pos [OF ne, of c "A ! e"] ae c by simp
  have lw: "length (within_relation R A ts I) = length ts"
    using lt li by (simp add: ch)
  have "(\<Sum>e'\<leftarrow>[0..<length A].
            if I ! e' = ?i \<and> ts ! e' = ?t then within_relation R A ts I ! e' ! c else 0)
        = sum_list (column (relation_group (within_relation R A ts I) ts I ?t ?i) c)"
    using relation_sum_index [OF lw len(2), of ?t ?i c] lw lt by simp
  also have "relation_group (within_relation R A ts I) ts I ?t ?i = map (?g ?t ?i) ?grp"
    unfolding ch by (rule relation_group_map [OF len])
  also have "\<dots> = map (softmax_row ?grp) ?grp"
    using r by simp
  also have "sum_list (column \<dots> c) = 1"
    using ne gw c by (rule softmax_column_sum)
  finally show "(\<Sum>e'\<leftarrow>[0..<length A].
            if I ! e' = ?i \<and> ts ! e' = ?t then within_relation R A ts I ! e' ! c else 0) = 1" .
qed

lemma within_relation_width:
  assumes "length ts = length A" "length I = length A" "list_all (\<lambda>r. length r = w) A"
  shows "list_all (\<lambda>r. length r = w) (within_relation R A ts I)"
    and "length (within_relation R A ts I) = length A"
  using assms
  by (auto simp: within_relation_char list_all_iff dest!: set_zip_leftD)

lemma within_relation_zero:
  assumes lt: "length ts = length A" and li: "length I = length A"
    and e: "e < length A" and r: "\<not> (0 \<le> ts ! e \<and> ts ! e < int R)"
  shows "within_relation R A ts I ! e = map (\<lambda>_. 0) (A ! e)"
proof -
  let ?g = "\<lambda>u j a. if 0 \<le> u \<and> u < int R then softmax_row (relation_group A ts I u j) a
                      else map (\<lambda>_. 0) a"
  have ch: "within_relation R A ts I = map (\<lambda>(a, u, j). ?g u j a) (zip A (zip ts I))"
    using within_relation_char [OF lt li, of R] by simp
  have "within_relation R A ts I ! e = ?g (ts ! e) (I ! e) (A ! e)"
    using e lt li by (simp add: ch)
  with r show ?thesis
    by auto
qed

text \<open>
  Claim C2. With the within-relation scope, the attention weights that \<^verbatim>\<open>forward\<close>
  returns have one row per edge, every row as wide as \<^verbatim>\<open>q\<close> has columns
  (\<open>heads * dim\<close>, line 96) where the attention mode is one of the two. For every edge
  whose relation id is in \<open>[0, num_relations)\<close> and every column (head) they are positive
  and have the sum 1 over exactly the edges with the same target node and the same
  relation; edges of other relations into that node are not in the sum. The rows of the
  edges whose relation id the loop of lines 249 to 251 does not visit stay zero.
\<close>

theorem within_relation_sums_to_one:
  assumes mech: "attention_mechanism (cfg L) = ''within-relation''"
    and f: "forward L dt x edge_index edge_type ea keep (Some b)
            = (L', Inr (out, Some (ei, alpha)))"
  shows "ei = edge_index
       \<and> (\<exists>ts. edge_type = Some ts \<and> length ts = length edge_index
           \<and> length alpha = length edge_index
           \<and> (attention_mode (cfg L) = ''additive-self-attention''
              \<or> attention_mode (cfg L) = ''multiplicative-self-attention''
              \<longrightarrow> (\<forall>e<length edge_index. length (alpha ! e) = tsize (self_q L) 1))
           \<and> (\<forall>e<length edge_index. 0 \<le> ts ! e \<and> ts ! e < num_relations (cfg L) \<longrightarrow>
                (\<forall>c<length (alpha ! e).
                   0 < alpha ! e ! c
                 \<and> (\<Sum>e'\<leftarrow>[0..<length edge_index].
                       if snd (edge_index ! e') = snd (edge_index ! e) \<and> ts ! e' = ts ! e
                       then alpha ! e' ! c else 0) = 1))
           \<and> (\<forall>e<length edge_index. \<not> (0 \<le> ts ! e \<and> ts ! e < num_relations (cfg L)) \<longrightarrow>
                (\<forall>c<length (alpha ! e). alpha ! e ! c = 0)))"
proof -
  let ?index = "map snd edge_index"
  let ?R = "nat (num_relations (cfg L))"
  from f have ei: "ei = edge_index"
    by (auto simp: forward_def split: sum.splits prod.splits option.splits)
  from forward_returns_attention [OF f] obtain x_i x_j outj where
    at: "attention L dt x_i x_j edge_type ea ?index = Inr (outj, alpha)"
    by blast
  from attention_Inr [OF at] obtain s w where
    w: "list_all (\<lambda>r. length r = w) s"
    and n: "normalize_alpha (cfg L) s edge_type ?index = Inr alpha"
    by blast
  from n mech obtain ts where ts: "edge_type = Some ts"
    and lt: "length ts = length s" and li: "length ?index = length s"
    and al: "alpha = within_relation ?R s ts ?index"
    by (auto simp: normalize_alpha_def split: option.splits if_splits)
  from li have ls: "length s = length edge_index"
    by simp
  have la: "length alpha = length edge_index"
    using within_relation_width(2) [OF lt li w] ls by (simp add: al)
  have main: "0 < alpha ! e ! c
       \<and> (\<Sum>e'\<leftarrow>[0..<length edge_index].
             if snd (edge_index ! e') = snd (edge_index ! e) \<and> ts ! e' = ts ! e
             then alpha ! e' ! c else 0) = 1"
    if e: "e < length edge_index" and r: "0 \<le> ts ! e" "ts ! e < num_relations (cfg L)"
      and c: "c < length (alpha ! e)" for e c
  proof -
    from e ls have es: "e < length s" by simp
    from r have r': "ts ! e < int ?R" by simp
    from within_relation_width(1) [OF lt li w] e la have "length (alpha ! e) = w"
      by (simp add: al list_all_length)
    with c have cw: "c < w" by simp
    note p = within_relation_sum [OF lt li w es r(1) r' cw]
    have "(\<Sum>e'\<leftarrow>[0..<length edge_index].
             if snd (edge_index ! e') = snd (edge_index ! e) \<and> ts ! e' = ts ! e
             then alpha ! e' ! c else 0)
          = (\<Sum>e'\<leftarrow>[0..<length s].
             if ?index ! e' = ?index ! e \<and> ts ! e' = ts ! e
             then within_relation ?R s ts ?index ! e' ! c else 0)"
      unfolding al ls using e by (intro arg_cong [where f = sum_list] map_cong refl) simp
    with p show ?thesis
      unfolding al by simp
  qed
  have zero: "alpha ! e ! c = 0"
    if e: "e < length edge_index"
      and r: "\<not> (0 \<le> ts ! e \<and> ts ! e < num_relations (cfg L))"
      and c: "c < length (alpha ! e)" for e c
  proof -
    from e ls have es: "e < length s" by simp
    from r have r': "\<not> (0 \<le> ts ! e \<and> ts ! e < int ?R)" by auto
    from within_relation_zero [OF lt li es r'] have z: "alpha ! e = map (\<lambda>_. 0) (s ! e)"
      by (simp add: al)
    with c show ?thesis
      by simp
  qed
  have width: "\<forall>e<length edge_index. length (alpha ! e) = tsize (self_q L) 1"
    if m: "attention_mode (cfg L) = ''additive-self-attention''
           \<or> attention_mode (cfg L) = ''multiplicative-self-attention''"
  proof -
    from attention_Inr_mode [OF at m] obtain s' where
      w': "list_all (\<lambda>r. length r = tsize (self_q L) 1) s'"
      and n': "normalize_alpha (cfg L) s' edge_type ?index = Inr alpha"
      by blast
    from n' mech ts have lt': "length ts = length s'" and li': "length ?index = length s'"
      and al': "alpha = within_relation ?R s' ts ?index"
      by (auto simp: normalize_alpha_def split: option.splits if_splits)
    from within_relation_width(1) [OF lt' li' w', of ?R]
    have "list_all (\<lambda>r. length r = tsize (self_q L) 1) alpha"
      unfolding al' .
    with la show ?thesis
      unfolding list_all_length by simp
  qed
  from ts lt ls la main zero width have
    "\<exists>ts. edge_type = Some ts \<and> length ts = length edge_index
           \<and> length alpha = length edge_index
           \<and> (attention_mode (cfg L) = ''additive-self-attention''
              \<or> attention_mode (cfg L) = ''multiplicative-self-attention''
              \<longrightarrow> (\<forall>e<length edge_index. length (alpha ! e) = tsize (self_q L) 1))
           \<and> (\<forall>e<length edge_index. 0 \<le> ts ! e \<and> ts ! e < num_relations (cfg L) \<longrightarrow>
                (\<forall>c<length (alpha ! e).
                   0 < alpha ! e ! c
                 \<and> (\<Sum>e'\<leftarrow>[0..<length edge_index].
                       if snd (edge_index ! e') = snd (edge_index ! e) \<and> ts ! e' = ts ! e
                       then alpha ! e' ! c else 0) = 1))
           \<and> (\<forall>e<length edge_index. \<not> (0 \<le> ts ! e \<and> ts ! e < num_relations (cfg L)) \<longrightarrow>
                (\<forall>c<length (alpha ! e). alpha ! e ! c = 0))"
    by (intro exI [of _ ts]) simp
  with ei show ?thesis
    by (rule conjI)
qed

lemma forward_within_ex:
  "forward (layer1_with None ''within-relation'') Float [[1, 2], [3, 4], [0, 1]]
     [(0, 1), (2, 1), (1, 1)] (Some [0, 1, 0]) None keep (Some b)
   = (layer1_with None ''within-relation'',
      Inr ([[0, 0],
            [exp (- 2) / (exp (- 2) + 1) * (3 / 2)
               + (1 * (1 / 2) + 1 / (exp (- 2) + 1) * (7 / 2)),
             exp (- 2) / (exp (- 2) + 1) * (3 / 2)
               + (1 * (1 / 2) + 1 / (exp (- 2) + 1) * (7 / 2))],
            [0, 0]],
           Some ([(0, 1), (2, 1), (1, 1)],
                 [[exp (- 2) / (exp (- 2) + 1)], [1], [1 / (exp (- 2) + 1)]])))"
proof -
  let ?L = "layer1_with None ''within-relation''"
  have l: "?L\<lparr>self_alpha := Some a\<rparr>\<lparr>self_alpha := None\<rparr> = ?L" for a
    by (simp add: layer1_with_def layer1_def)
  have a: "self_alpha (?L\<lparr>self_alpha := Some a\<rparr>) = Some a" for a
    by simp
  have m: "message ?L Float [[3, 4], [3, 4], [3, 4]] [[1, 2], [0, 1], [3, 4]] (Some [0, 1, 0])
             None [1, 1, 1] 3 keep
           = (?L\<lparr>self_alpha := Some [[exp (- 2) / (exp (- 2) + 1)], [1],
                                      [1 / (exp (- 2) + 1)]]\<rparr>,
              Inr [[exp (- 2) / (exp (- 2) + 1) * (3 / 2),
                    exp (- 2) / (exp (- 2) + 1) * (3 / 2)],
                   [1 * (1 / 2), 1 * (1 / 2)],
                   [1 / (exp (- 2) + 1) * (7 / 2), 1 / (exp (- 2) + 1) * (7 / 2)]])"
    by (simp only: message_def attention_ex normalize_alpha_ex modulate_ex map_sum.simps
        sum.case prod.case)
  show ?thesis
    by (simp only: forward_def propagate_def propagate_aggr_def gather_ex m msg_width_ex
        aggregate_ex update_ex l a sum.case prod.case option.case)
qed

theorem within_relation_sums_to_one_witness:
  "forward (layer1_with None ''within-relation'') Float [[1, 2], [3, 4], [0, 1]]
     [(0, 1), (2, 1), (1, 1)] (Some [0, 1, 0]) None (\<lambda>e c. True) (Some True)
   = (layer1_with None ''within-relation'',
      Inr ([[0, 0],
            [exp (- 2) / (exp (- 2) + 1) * (3 / 2)
               + (1 * (1 / 2) + 1 / (exp (- 2) + 1) * (7 / 2)),
             exp (- 2) / (exp (- 2) + 1) * (3 / 2)
               + (1 * (1 / 2) + 1 / (exp (- 2) + 1) * (7 / 2))],
            [0, 0]],
           Some ([(0, 1), (2, 1), (1, 1)],
                 [[exp (- 2) / (exp (- 2) + 1)], [1], [1 / (exp (- 2) + 1)]])))
   \<and> tsize (self_q (layer1_with None ''within-relation'')) 1 = 1
   \<and> length ([[exp (- 2 :: real) / (exp (- 2) + 1)], [1], [1 / (exp (- 2) + 1)]]) = 3
   \<and> length ([[exp (- 2 :: real) / (exp (- 2) + 1)], [1], [1 / (exp (- 2) + 1)]] ! 0) = 1
   \<and> length ([[exp (- 2 :: real) / (exp (- 2) + 1)], [1], [1 / (exp (- 2) + 1)]] ! 1) = 1
   \<and> length ([[exp (- 2 :: real) / (exp (- 2) + 1)], [1], [1 / (exp (- 2) + 1)]] ! 2) = 1
   \<and> 0 < [[exp (- 2 :: real) / (exp (- 2) + 1)], [1], [1 / (exp (- 2) + 1)]] ! 0 ! 0
   \<and> 0 < [[exp (- 2 :: real) / (exp (- 2) + 1)], [1], [1 / (exp (- 2) + 1)]] ! 1 ! 0
   \<and> 0 < [[exp (- 2 :: real) / (exp (- 2) + 1)], [1], [1 / (exp (- 2) + 1)]] ! 2 ! 0
   \<and> (\<Sum>e'\<leftarrow>[0..<3].
         if snd ([(0, 1), (2, 1), (1 :: int, 1 :: int)] ! e') = snd ([(0, 1), (2, 1), (1 :: int, 1 :: int)] ! 0)
            \<and> [0, 1, 0 :: int] ! e' = [0, 1, 0 :: int] ! 0
         then [[exp (- 2 :: real) / (exp (- 2) + 1)], [1], [1 / (exp (- 2) + 1)]] ! e' ! 0
         else 0) = 1
   \<and> (\<Sum>e'\<leftarrow>[0..<3].
         if snd ([(0, 1), (2, 1), (1 :: int, 1 :: int)] ! e') = snd ([(0, 1), (2, 1), (1 :: int, 1 :: int)] ! 1)
            \<and> [0, 1, 0 :: int] ! e' = [0, 1, 0 :: int] ! 1
         then [[exp (- 2 :: real) / (exp (- 2) + 1)], [1], [1 / (exp (- 2) + 1)]] ! e' ! 0
         else 0) = 1
   \<and> (\<Sum>e'\<leftarrow>[0..<3].
         if snd ([(0, 1), (2, 1), (1 :: int, 1 :: int)] ! e') = snd ([(0, 1), (2, 1), (1 :: int, 1 :: int)] ! 2)
            \<and> [0, 1, 0 :: int] ! e' = [0, 1, 0 :: int] ! 2
         then [[exp (- 2 :: real) / (exp (- 2) + 1)], [1], [1 / (exp (- 2) + 1)]] ! e' ! 0
         else 0) = 1"
proof -
  let ?L = "layer1_with None ''within-relation''"
  let ?X = "[[1, 2], [3, 4], [0, 1 :: real]]"
  let ?EI = "[(0, 1), (2, 1), (1 :: int, 1 :: int)]"
  let ?ts = "[0, 1, 0 :: int]"
  let ?keep = "\<lambda>(e :: nat) (c :: nat). True"
  let ?AL = "[[exp (- 2 :: real) / (exp (- 2) + 1)], [1], [1 / (exp (- 2) + 1)]]"
  let ?OUT = "[[0, 0],
            [exp (- 2) / (exp (- 2) + 1) * (3 / 2)
               + (1 * (1 / 2) + 1 / (exp (- 2) + 1) * (7 / 2)),
             exp (- 2) / (exp (- 2) + 1) * (3 / 2)
               + (1 * (1 / 2) + 1 / (exp (- 2) + 1) * (7 / 2))],
            [0, 0]] :: real list list"
  have f: "forward ?L Float ?X ?EI (Some ?ts) None ?keep (Some True)
           = (?L, Inr (?OUT, Some (?EI, ?AL)))"
    by (rule forward_within_ex)
  have mech: "attention_mechanism (cfg ?L) = ''within-relation''"
    and mode: "attention_mode (cfg ?L) = ''additive-self-attention''"
    and nr: "num_relations (cfg ?L) = 2"
    by (simp_all add: layer1_with_def default_config_def)
  have tq: "tsize (self_q ?L) 1 = 1"
    by (simp add: layer1_with_def layer1_def tsize_simps)
  have l3: "length ?EI = 3"
    by simp
  from within_relation_sums_to_one [OF mech f, THEN conjunct2] obtain ts where
    ts: "Some ?ts = Some ts" and la: "length ?AL = length ?EI"
    and wd: "attention_mode (cfg ?L) = ''additive-self-attention''
              \<or> attention_mode (cfg ?L) = ''multiplicative-self-attention''
              \<longrightarrow> (\<forall>e<length ?EI. length (?AL ! e) = tsize (self_q ?L) 1)"
    and p: "\<forall>e<length ?EI. 0 \<le> ts ! e \<and> ts ! e < num_relations (cfg ?L) \<longrightarrow>
                (\<forall>c<length (?AL ! e).
                   0 < ?AL ! e ! c
                 \<and> (\<Sum>e'\<leftarrow>[0..<length ?EI].
                       if snd (?EI ! e') = snd (?EI ! e) \<and> ts ! e' = ts ! e
                       then ?AL ! e' ! c else 0) = 1)"
    by blast
  from ts have t: "ts = ?ts" by simp
  have a1: "length ?AL = 3"
    using la unfolding l3 .
  have a2: "\<forall>e<3. length (?AL ! e) = 1"
    using wd [THEN mp, OF disjI1, OF mode] unfolding l3 tq .
  have rng: "0 \<le> ?ts ! e \<and> ?ts ! e < 2" if "e < 3" for e
  proof -
    from that consider "e = 0" | "e = 1" | "e = 2" by linarith
    then show ?thesis by cases simp_all
  qed
  from p rng have a3: "\<forall>e<3. \<forall>c<length (?AL ! e).
          0 < ?AL ! e ! c
        \<and> (\<Sum>e'\<leftarrow>[0..<3]. if snd (?EI ! e') = snd (?EI ! e) \<and> ?ts ! e' = ?ts ! e
                             then ?AL ! e' ! c else 0) = 1"
    unfolding l3 t nr by blast
  have e3: "(0 :: nat) < 3" "(1 :: nat) < 3" "(2 :: nat) < 3"
    by simp_all
  have cl: "0 < length (?AL ! 0)" "0 < length (?AL ! 1)" "0 < length (?AL ! 2)"
    by simp_all
  note b2 = a2 [rule_format, OF e3(1)] a2 [rule_format, OF e3(2)] a2 [rule_format, OF e3(3)]
  note b3 = a3 [rule_format, OF e3(1) cl(1)] a3 [rule_format, OF e3(2) cl(2)]
    a3 [rule_format, OF e3(3) cl(3)]
  show ?thesis
    by (intro conjI) (rule f tq a1 b2 b3 [THEN conjunct1] b3 [THEN conjunct2])+
qed

section \<open>Reordering the edges: the reductions by group\<close>

lemma perm_set:
  assumes "mset p = mset [0..<n]"
  shows "set p = {0..<n}" and "length p = n"
proof -
  from assms have "set p = set [0..<n]" by (rule mset_eq_setD)
  then show "set p = {0..<n}" by simp
  from assms have "length p = length [0..<n]" by (rule mset_eq_length)
  then show "length p = n" by simp
qed

lemma perm_nth_less:
  assumes "mset p = mset [0..<n]" "k < length p"
  shows "p ! k < n"
proof -
  from assms(2) have "p ! k \<in> set p" by simp
  with perm_set(1) [OF assms(1)] show ?thesis by simp
qed

lemma length_permute [simp]: "length (permute p xs) = length p"
  by (simp add: permute_def)

lemma permute_nth: "k < length p \<Longrightarrow> permute p xs ! k = xs ! (p ! k)"
  by (simp add: permute_def)

lemma permute_map:
  assumes "mset p = mset [0..<n]" "length xs = n"
  shows "permute p (map f xs) = map f (permute p xs)"
  using perm_set [OF assms(1)] assms(2) by (auto simp: permute_def)

lemma permute_zip:
  assumes "mset p = mset [0..<n]" "length xs = n" "length ys = n"
  shows "permute p (zip xs ys) = zip (permute p xs) (permute p ys)"
  using perm_nth_less [OF assms(1)] assms(2,3)
  by (intro nth_equalityI) (simp_all add: permute_def)

lemma permute_map2:
  assumes "mset p = mset [0..<n]" "length xs = n" "length ys = n"
  shows "permute p (map2 f xs ys) = map2 f (permute p xs) (permute p ys)"
proof -
  have "permute p (map2 f xs ys) = map (\<lambda>(x, y). f x y) (permute p (zip xs ys))"
    using assms by (intro permute_map [where n = n]) simp_all
  then show ?thesis
    by (simp add: permute_zip [OF assms])
qed

lemma mset_permute:
  assumes "mset p = mset [0..<n]" "length xs = n"
  shows "mset (permute p xs) = mset xs"
proof -
  have "mset (permute p xs) = image_mset ((!) xs) (mset p)"
    by (simp add: permute_def)
  also have "\<dots> = image_mset ((!) xs) (mset [0..<n])"
    by (simp only: assms(1))
  also have "\<dots> = mset (map ((!) xs) [0..<n])"
    by simp
  also have "map ((!) xs) [0..<n] = xs"
    unfolding assms(2) [symmetric] by (rule map_nth)
  finally show ?thesis .
qed

lemma set_permute:
  assumes "mset p = mset [0..<n]" "length xs = n"
  shows "set (permute p xs) = set xs"
  using mset_permute [OF assms] by (rule mset_eq_setD)

lemma list_all_permute:
  assumes "mset p = mset [0..<n]" "length xs = n"
  shows "list_all Q (permute p xs) = list_all Q xs"
  by (simp add: list_all_iff set_permute [OF assms])

lemma mset_group_rows:
  "mset (group_rows src index i)
   = image_mset fst (filter_mset (\<lambda>(row, j). j = i) (mset (zip src index)))"
  by (simp add: group_rows_def)

lemma group_rows_permute:
  assumes "mset p = mset [0..<n]" "length src = n" "length index = n"
  shows "mset (group_rows (permute p src) (permute p index) i) = mset (group_rows src index i)"
proof -
  have "mset (zip (permute p src) (permute p index)) = mset (zip src index)"
    using mset_permute [OF assms(1), of "zip src index"] assms
    by (simp add: permute_zip [OF assms])
  then show ?thesis
    by (simp only: mset_group_rows)
qed

lemma column_mset: "mset grp = mset grp' \<Longrightarrow> mset (column grp c) = mset (column grp' c)"
  by (simp add: column_def)

lemma sum_list_mset:
  assumes "mset xs = mset ys"
  shows "sum_list xs = (sum_list ys :: real)"
proof -
  have "sum_list xs = sum_mset (mset xs)" by (simp add: sum_mset_sum_list)
  also have "\<dots> = sum_mset (mset ys)" by (simp only: assms)
  also have "\<dots> = sum_list ys" by (simp add: sum_mset_sum_list)
  finally show ?thesis .
qed

lemma sum_list_map_mset:
  "mset xs = mset ys \<Longrightarrow> sum_list (map f xs) = (sum_list (map f ys) :: real)"
  by (rule sum_list_mset) simp

lemma softmax_row_mset:
  assumes "mset grp = mset grp'"
  shows "softmax_row grp row = softmax_row grp' row"
proof -
  have m: "mset (column grp c) = mset (column grp' c)" for c
    using assms by (rule column_mset)
  have "set (column grp c) = set (column grp' c)" for c
    using m by (rule mset_eq_setD)
  moreover have "(\<Sum>v\<leftarrow>column grp c. exp (v - M)) = (\<Sum>v\<leftarrow>column grp' c. exp (v - M))"
    for c M
    using m by (rule sum_list_map_mset)
  ultimately show ?thesis
    by (simp add: softmax_row_def)
qed

lemma softmax_permute:
  assumes p: "mset p = mset [0..<n]" and l: "length src = n" "length index = n"
  shows "softmax (permute p src) (permute p index) = permute p (softmax src index)"
proof -
  have g: "softmax_row (group_rows (permute p src) (permute p index) i) row
           = softmax_row (group_rows src index i) row" for i row
    by (intro softmax_row_mset group_rows_permute [OF p l])
  have "softmax (permute p src) (permute p index)
        = map2 (\<lambda>row i. softmax_row (group_rows src index i) row)
            (permute p src) (permute p index)"
    unfolding softmax_def by (simp only: g)
  also have "\<dots> = permute p (softmax src index)"
    unfolding softmax_def by (rule permute_map2 [OF p l, symmetric])
  finally show ?thesis .
qed

lemma aggregate_permute:
  assumes p: "mset p = mset [0..<n]" and l: "length msgs = n" "length index = n"
  shows "aggregate W (permute p msgs) (permute p index) N = aggregate W msgs index N"
proof -
  have "sum_list (column (group_rows (permute p msgs) (permute p index) i) c)
        = sum_list (column (group_rows msgs index i) c)" for i c
    by (intro sum_list_mset column_mset group_rows_permute [OF p l])
  then show ?thesis
    by (simp add: aggregate_def)
qed

lemma permute_replicate:
  assumes "mset p = mset [0..<n]"
  shows "permute p (replicate n v) = replicate n v"
  using perm_nth_less [OF assms] perm_set(2) [OF assms]
  by (intro nth_equalityI) (simp_all add: permute_def)

lemma scatter_add_permute:
  assumes p: "mset p = mset [0..<n]" and l: "length index = n"
  shows "scatter_add (replicate n 1) (permute p index) N = scatter_add (replicate n 1) index N"
proof -
  have "sum_list (group_rows (replicate n 1) (permute p index) i)
        = (sum_list (group_rows (replicate n 1) index i) :: real)" for i
  proof -
    have "mset (group_rows (permute p (replicate n (1 :: real))) (permute p index) i)
          = mset (group_rows (replicate n 1) index i)"
      using p _ l by (rule group_rows_permute) simp
    then show ?thesis
      unfolding permute_replicate [OF p] by (rule sum_list_mset)
  qed
  then show ?thesis
    by (simp add: scatter_add_def)
qed

section \<open>Reordering the edges: the attention\<close>

lemma ebind_permute:
  assumes "m' = map_sum id g m" and "\<And>a. m = Inr a \<Longrightarrow> f' (g a) = map_sum id h (f a)"
  shows "ebind m' f' = map_sum id h (ebind m f)"
  by (cases m) (simp_all add: assms)

lemma index_select_permute:
  assumes p: "mset p = mset [0..<n]" and l: "length idx = n"
  shows "index_select xs (permute p idx) = map_sum id (permute p) (index_select xs idx)"
  unfolding index_select_def
  by (simp add: list_all_permute [OF p l] permute_map [OF p l])

lemma index_select_Inr: "index_select xs idx = Inr ys \<Longrightarrow> length ys = length idx"
  by (auto simp: index_select_def split: if_splits)

lemma matmul_permute:
  assumes p: "mset p = mset [0..<n]" and l: "length A = n"
  shows "matmul (permute p A) t = map_sum id (permute p) (matmul A t)"
  unfolding matmul_def
  by (simp add: list_all_permute [OF p l] permute_map [OF p l])

lemma lin_apply_permute:
  assumes p: "mset p = mset [0..<n]" and l: "length A = n"
  shows "lin_apply lw (permute p A) = map_sum id (permute p) (lin_apply lw A)"
  unfolding lin_apply_def
  by (simp add: list_all_permute [OF p l] permute_map [OF p l])

lemma lin_apply_Inr: "lin_apply lw A = Inr B \<Longrightarrow> length B = length A"
  by (auto simp: lin_apply_def split: if_splits)

lemma add_row_permute:
  assumes p: "mset p = mset [0..<n]" and l: "length A = n"
  shows "add_row (permute p A) t = map_sum id (permute p) (add_row A t)"
  unfolding add_row_def
  by (simp add: list_all_permute [OF p l] permute_map [OF p l])

lemma add_row_Inr: "add_row A t = Inr B \<Longrightarrow> length B = length A"
  by (auto simp: add_row_def split: if_splits)

lemma ew2_permute:
  assumes p: "mset p = mset [0..<n]" and l: "length A = n" "length B = n"
  shows "ew2 f (permute p A) (permute p B) = map_sum id (permute p) (ew2 f A B)"
proof -
  have z: "zip (permute p A) (permute p B) = permute p (zip A B)"
    by (rule permute_zip [OF p l, symmetric])
  have lz: "length (zip A B) = n"
    using l by simp
  show ?thesis
    unfolding ew2_def z
    by (simp add: list_all_permute [OF p lz] permute_map [OF p lz] perm_set(2) [OF p] l)
qed

lemma full_transform_permute:
  assumes p: "mset p = mset [0..<n]" and l: "length x_i = n" "length x_j = n"
    and t: "case edge_type of None \<Rightarrow> True | Some ts \<Rightarrow> length ts = n"
  shows "full_transform w dt (permute p x_i) (permute p x_j) (map_option (permute p) edge_type)
         = map_sum id (\<lambda>(a, b). (permute p a, permute p b))
             (full_transform w dt x_i x_j edge_type)"
proof (cases edge_type)
  case None
  then show ?thesis by (simp add: full_transform_def)
next
  case (Some ts)
  with t have lt: "length ts = n" by simp
  have is': "index_select [0..<tsize w 0] (permute p ts)
             = map_sum id (permute p) (index_select [0..<tsize w 0] ts)"
    by (rule index_select_permute [OF p lt])
  show ?thesis
  proof (cases "index_select [0..<tsize w 0] ts")
    case (Inl err)
    then show ?thesis using Some by (simp add: full_transform_def is')
  next
    case (Inr rs)
    then have lr: "length rs = n"
      using index_select_Inr lt by blast
    show ?thesis
      using Some Inr
      by (simp add: full_transform_def is' perm_set(2) [OF p] l lr
          list_all_permute [OF p l(1)] list_all_permute [OF p l(2)]
          permute_map2 [OF p l(1) lr] permute_map2 [OF p l(2) lr])
  qed
qed

lemma chunks_concat:
  assumes K: "0 < K" and w: "list_all (\<lambda>x. length x = K) X"
  shows "chunks K (concat X) = X"
proof (rule nth_equalityI)
  have lc: "length (concat X) = length X * K"
    using w by (rule length_concat_uniform)
  show l: "length (chunks K (concat X)) = length X"
    using chunks_exact(1) [OF lc K] .
  fix h
  assume "h < length (chunks K (concat X))"
  with l have h: "h < length X" by simp
  show "chunks K (concat X) ! h = X ! h"
  proof (rule nth_equalityI)
    from w h have lx: "length (X ! h) = K"
      by (simp add: list_all_length)
    show "length (chunks K (concat X) ! h) = length (X ! h)"
      using chunks_exact(2) [OF lc K h] lx by simp
    fix c
    assume "c < length (chunks K (concat X) ! h)"
    with chunks_exact(2) [OF lc K h] have c: "c < K" by simp
    show "chunks K (concat X) ! h ! c = X ! h ! c"
      using chunks_exact(3) [OF lc K h c] nth_concat_uniform [OF w h c] by simp
  qed
qed

lemma view_rows_uniform:
  assumes "list_all (\<lambda>x. length x = K) X"
  shows "view_rows K X = (if K = 0 then Inl (RuntimeError ''view'') else Inr X)"
  using assms
  by (simp add: view_rows_def length_concat_uniform chunks_concat)

lemma length_block_row: "length (block_row w x r) = tsize w 1 * tsize w 3"
proof -
  have "list_all (\<lambda>b. length b = tsize w 3)
          (map (\<lambda>c. map (\<lambda>j. \<Sum>d\<leftarrow>[0..<tsize w 2]. x ! (c * tsize w 2 + d) * at4 w r c d j)
                          [0..<tsize w 3]) [0..<tsize w 1])"
    by (simp add: list_all_iff)
  from length_concat_uniform [OF this] show ?thesis
    by (simp add: block_row_def)
qed

lemma view_out_block:
  assumes ho: "int (tsize w 1 * tsize w 3) = heads c * out_channels c"
    and X: "list_all (\<lambda>x. \<exists>y r. x = block_row w y r) X"
  shows "view_out c X = (if heads c * out_channels c \<le> 0 then Inl (RuntimeError ''view'')
                         else Inr X)"
proof -
  from X have "list_all (\<lambda>x. length x = tsize w 1 * tsize w 3) X"
    by (auto simp: list_all_iff length_block_row)
  moreover have "nat (heads c * out_channels c) = tsize w 1 * tsize w 3"
    by (simp only: ho [symmetric] nat_int)
  ultimately have "list_all (\<lambda>x. length x = nat (heads c * out_channels c)) X"
    by simp
  from view_rows_uniform [OF this] show ?thesis
    by (simp add: view_out_def)
qed

lemma block_transform_shapes:
  assumes w: "self_weight L = Some w"
    and wi: "list_all (\<lambda>x. length x = tsize w 1 * tsize w 2) x_i"
    and wj: "list_all (\<lambda>x. length x = tsize w 1 * tsize w 2) x_j"
    and ho: "int (tsize w 1 * tsize w 3) = heads (cfg L) * out_channels (cfg L)"
    and l: "length x_i = n" "length x_j = n"
    and t: "case edge_type of None \<Rightarrow> True | Some ts \<Rightarrow> length ts = n"
  shows "block_transform L dt x_i x_j edge_type =
     (if dt = Long then Inl (ValueError ''non-continuous input features'')
      else if tsize w 1 * tsize w 2 = 0 then Inl (RuntimeError ''view'')
      else
        (case edge_type of
           None \<Rightarrow> Inl TypeError
         | Some ts \<Rightarrow>
             ebind (index_select [0..<tsize w 0] ts) (\<lambda>rs.
               if heads (cfg L) * out_channels (cfg L) \<le> 0 then Inl (RuntimeError ''view'')
               else Inr (map2 (block_row w) x_i rs, map2 (block_row w) x_j rs))))"
proof (cases "dt = Long \<or> tsize w 1 * tsize w 2 = 0")
  case True
  show ?thesis
  proof (cases "dt = Long")
    case True
    then show ?thesis
      by (simp add: block_transform_def)
  next
    case False
    with \<open>dt = Long \<or> tsize w 1 * tsize w 2 = 0\<close> have K0: "tsize w 1 * tsize w 2 = 0"
      by simp
    have v: "view_rows (tsize w 1 * tsize w 2) x_i = Inl (RuntimeError ''view'')"
      unfolding view_rows_uniform [OF wi] using K0 by (simp only: if_True simp_thms)
    have "block_transform L dt x_i x_j edge_type = Inl (RuntimeError ''view'')"
      using False by (simp only: block_transform_def w option.case v ebind_Inl if_False)
    with False K0 show ?thesis
      by (simp only: if_True if_False simp_thms)
  qed
next
  case False
  then have dt: "dt \<noteq> Long" and K: "tsize w 1 * tsize w 2 \<noteq> 0"
    by simp_all
  have vi: "view_rows (tsize w 1 * tsize w 2) x_i = Inr x_i"
    unfolding view_rows_uniform [OF wi] using K by (simp only: if_False)
  have vj: "view_rows (tsize w 1 * tsize w 2) x_j = Inr x_j"
    unfolding view_rows_uniform [OF wj] using K by (simp only: if_False)
  have bt: "block_transform L dt x_i x_j edge_type =
      (case edge_type of
         None \<Rightarrow> Inl TypeError
       | Some ts \<Rightarrow>
           ebind (index_select [0..<tsize w 0] ts) (\<lambda>rs.
           ebind (einsum_rows w x_i rs) (\<lambda>oi.
           ebind (view_out (cfg L) oi) (\<lambda>outi.
           ebind (einsum_rows w x_j rs) (\<lambda>oj.
           ebind (view_out (cfg L) oj) (\<lambda>outj.
             Inr (outi, outj)))))))"
    using dt by (simp only: block_transform_def w option.case vi vj ebind_Inr if_False)
  have rhs: "(if dt = Long then Inl (ValueError ''non-continuous input features'')
      else if tsize w 1 * tsize w 2 = 0 then Inl (RuntimeError ''view'')
      else
        (case edge_type of
           None \<Rightarrow> Inl TypeError
         | Some ts \<Rightarrow>
             ebind (index_select [0..<tsize w 0] ts) (\<lambda>rs.
               if heads (cfg L) * out_channels (cfg L) \<le> 0 then Inl (RuntimeError ''view'')
               else Inr (map2 (block_row w) x_i rs, map2 (block_row w) x_j rs))))
     = (case edge_type of
           None \<Rightarrow> Inl TypeError
         | Some ts \<Rightarrow>
             ebind (index_select [0..<tsize w 0] ts) (\<lambda>rs.
               if heads (cfg L) * out_channels (cfg L) \<le> 0 then Inl (RuntimeError ''view'')
               else Inr (map2 (block_row w) x_i rs, map2 (block_row w) x_j rs)))"
    using dt K by (simp only: if_False)
  show ?thesis
    unfolding bt rhs
  proof (cases edge_type)
    case None
    then show "(case edge_type of
         None \<Rightarrow> Inl TypeError
       | Some ts \<Rightarrow>
           ebind (index_select [0..<tsize w 0] ts) (\<lambda>rs.
           ebind (einsum_rows w x_i rs) (\<lambda>oi.
           ebind (view_out (cfg L) oi) (\<lambda>outi.
           ebind (einsum_rows w x_j rs) (\<lambda>oj.
           ebind (view_out (cfg L) oj) (\<lambda>outj.
             Inr (outi, outj)))))))
     = (case edge_type of
           None \<Rightarrow> Inl TypeError
         | Some ts \<Rightarrow>
             ebind (index_select [0..<tsize w 0] ts) (\<lambda>rs.
               if heads (cfg L) * out_channels (cfg L) \<le> 0 then Inl (RuntimeError ''view'')
               else Inr (map2 (block_row w) x_i rs, map2 (block_row w) x_j rs)))"
      by simp
  next
    case (Some ts)
    with t have lt: "length ts = n" by simp
    show "(case edge_type of
         None \<Rightarrow> Inl TypeError
       | Some ts \<Rightarrow>
           ebind (index_select [0..<tsize w 0] ts) (\<lambda>rs.
           ebind (einsum_rows w x_i rs) (\<lambda>oi.
           ebind (view_out (cfg L) oi) (\<lambda>outi.
           ebind (einsum_rows w x_j rs) (\<lambda>oj.
           ebind (view_out (cfg L) oj) (\<lambda>outj.
             Inr (outi, outj)))))))
     = (case edge_type of
           None \<Rightarrow> Inl TypeError
         | Some ts \<Rightarrow>
             ebind (index_select [0..<tsize w 0] ts) (\<lambda>rs.
               if heads (cfg L) * out_channels (cfg L) \<le> 0 then Inl (RuntimeError ''view'')
               else Inr (map2 (block_row w) x_i rs, map2 (block_row w) x_j rs)))"
    proof (cases "index_select [0..<tsize w 0] ts")
      case (Inl err)
      then show ?thesis
        using Some by simp
    next
      case (Inr rs)
      then have lr: "length rs = n"
        using index_select_Inr lt by blast
      have ei: "einsum_rows w x_i rs = Inr (map2 (block_row w) x_i rs)"
        and ej: "einsum_rows w x_j rs = Inr (map2 (block_row w) x_j rs)"
        using l lr by (simp_all add: einsum_rows_def)
      have bi: "list_all (\<lambda>x. \<exists>y r. x = block_row w y r) (map2 (block_row w) x_i rs)"
        and bj: "list_all (\<lambda>x. \<exists>y r. x = block_row w y r) (map2 (block_row w) x_j rs)"
        by (auto simp: list_all_iff)
      show ?thesis
        using Some Inr
        by (simp add: ei ej view_out_block [OF ho bi] view_out_block [OF ho bj])
    qed
  qed
qed

lemma block_transform_permute:
  assumes p: "mset p = mset [0..<n]" and l: "length x_i = n" "length x_j = n"
    and t: "case edge_type of None \<Rightarrow> True | Some ts \<Rightarrow> length ts = n"
    and bs: "\<forall>w. self_weight L = Some w
               \<longrightarrow> list_all (\<lambda>x. length x = tsize w 1 * tsize w 2) x_i
                 \<and> list_all (\<lambda>x. length x = tsize w 1 * tsize w 2) x_j
                 \<and> int (tsize w 1 * tsize w 3) = heads (cfg L) * out_channels (cfg L)"
  shows "block_transform L dt (permute p x_i) (permute p x_j) (map_option (permute p) edge_type)
         = map_sum id (\<lambda>(a, b). (permute p a, permute p b))
             (block_transform L dt x_i x_j edge_type)"
proof (cases "self_weight L")
  case None
  then show ?thesis by (auto simp: block_transform_def)
next
  case (Some w)
  with bs have wi: "list_all (\<lambda>x. length x = tsize w 1 * tsize w 2) x_i"
    and wj: "list_all (\<lambda>x. length x = tsize w 1 * tsize w 2) x_j"
    and ho: "int (tsize w 1 * tsize w 3) = heads (cfg L) * out_channels (cfg L)"
    by simp_all
  have wi': "list_all (\<lambda>x. length x = tsize w 1 * tsize w 2) (permute p x_i)"
    and wj': "list_all (\<lambda>x. length x = tsize w 1 * tsize w 2) (permute p x_j)"
    using wi wj by (simp_all add: list_all_permute [OF p l(1)] list_all_permute [OF p l(2)])
  have l': "length (permute p x_i) = n" "length (permute p x_j) = n"
    using perm_set(2) [OF p] by simp_all
  have t': "case map_option (permute p) edge_type of None \<Rightarrow> True | Some ts \<Rightarrow> length ts = n"
    using perm_set(2) [OF p] by (cases edge_type) simp_all
  note lhs = block_transform_shapes [OF Some wi' wj' ho l' t', of dt]
  note rhs = block_transform_shapes [OF Some wi wj ho l t, of dt]
  show ?thesis
  proof (cases edge_type)
    case None
    then show ?thesis
      unfolding lhs rhs by simp
  next
    case (Some ts)
    with t have lt: "length ts = n" by simp
    have is': "index_select [0..<tsize w 0] (permute p ts)
               = map_sum id (permute p) (index_select [0..<tsize w 0] ts)"
      by (rule index_select_permute [OF p lt])
    show ?thesis
    proof (cases "index_select [0..<tsize w 0] ts")
      case (Inl err)
      then show ?thesis
        unfolding lhs rhs using Some by (simp add: is')
    next
      case (Inr rs)
      then have lr: "length rs = n"
        using index_select_Inr lt by blast
      show ?thesis
        unfolding lhs rhs using Some Inr
        by (simp add: is' permute_map2 [OF p l(1) lr] permute_map2 [OF p l(2) lr])
    qed
  qed
qed

lemma block_shapes_weight:
  assumes "block_shapes L X" "num_blocks (cfg L) = Some nk" "self_weight L = Some w"
  shows "list_all (\<lambda>x. length x = tsize w 1 * tsize w 2) X"
    and "int (tsize w 1 * tsize w 3) = heads (cfg L) * out_channels (cfg L)"
  using assms by (simp_all add: block_shapes_def)

lemma transform_permute:
  assumes p: "mset p = mset [0..<n]" and l: "length x_i = n" "length x_j = n"
    and t: "case edge_type of None \<Rightarrow> True | Some ts \<Rightarrow> length ts = n"
    and bs: "block_shapes L x_i" "block_shapes L x_j"
  shows "transform L dt (permute p x_i) (permute p x_j) (map_option (permute p) edge_type)
         = map_sum id (\<lambda>(a, b). (permute p a, permute p b)) (transform L dt x_i x_j edge_type)"
proof (cases "num_blocks (cfg L)")
  case None
  note ft = full_transform_permute [OF p l t]
  show ?thesis
    unfolding transform_def
    by (auto simp: ft None ebind_def split: option.splits sum.splits)
next
  case (Some nk)
  have "\<forall>w. self_weight L = Some w
               \<longrightarrow> list_all (\<lambda>x. length x = tsize w 1 * tsize w 2) x_i
                 \<and> list_all (\<lambda>x. length x = tsize w 1 * tsize w 2) x_j
                 \<and> int (tsize w 1 * tsize w 3) = heads (cfg L) * out_channels (cfg L)"
    using block_shapes_weight [OF bs(1) Some] block_shapes_weight(1) [OF bs(2) Some]
    by blast
  note bt = block_transform_permute [OF p l t this]
  show ?thesis
    unfolding transform_def
    by (auto simp: bt Some ebind_def split: option.splits sum.splits)
qed

lemma transform_Inr:
  assumes tr: "transform L dt x_i x_j edge_type = Inr (outi, outj)"
    and l: "length x_i = n" "length x_j = n"
    and t: "case edge_type of None \<Rightarrow> True | Some ts \<Rightarrow> length ts = n"
    and bs: "block_shapes L x_i" "block_shapes L x_j"
  shows "length outi = n" and "length outj = n"
proof -
  have f: "length a = n \<and> length b = n"
    if "full_transform w dt x_i x_j edge_type = Inr (a, b)" for w a b
    using that l
    by (auto simp: full_transform_def ebind_eq_Inr split: option.splits if_splits)
  have b: "length a = n \<and> length b = n"
    if nk: "num_blocks (cfg L) = Some nk"
      and bt: "block_transform L dt x_i x_j edge_type = Inr (a, b)" for nk a b
  proof -
    from bt obtain w where w: "self_weight L = Some w"
      by (auto simp: block_transform_def split: option.splits if_splits)
    note sh = block_transform_shapes [OF w block_shapes_weight(1) [OF bs(1) nk w]
        block_shapes_weight(1) [OF bs(2) nk w] block_shapes_weight(2) [OF bs(1) nk w] l t,
        of dt]
    from bt [unfolded sh] obtain ts rs where "edge_type = Some ts"
      and "index_select [0..<tsize w 0] ts = Inr rs"
      and ab: "a = map2 (block_row w) x_i rs" "b = map2 (block_row w) x_j rs"
      by (auto simp: ebind_eq_Inr split: option.splits if_splits)
    with t index_select_Inr have "length rs = n"
      by fastforce
    with ab l show ?thesis
      by simp
  qed
  from tr have "length outi = n \<and> length outj = n"
    using f b
    by (auto simp: transform_def ebind_eq_Inr split: option.splits)
  then show "length outi = n" and "length outj = n"
    by simp_all
qed

lemma attr_rows_permute:
  assumes p: "mset p = mset [0..<n]" and l: "attr_rows a = n"
  shows "(case permute_attr p a of Attr1 v \<Rightarrow> map (\<lambda>a. [a]) v | Attr2 m \<Rightarrow> m)
         = permute p (case a of Attr1 v \<Rightarrow> map (\<lambda>a. [a]) v | Attr2 m \<Rightarrow> m)"
    and "length (case a of Attr1 v \<Rightarrow> map (\<lambda>a. [a]) v | Attr2 m \<Rightarrow> m) = n"
  using l by (cases a; simp add: permute_map [OF p])+

lemma edge_term_permute:
  assumes p: "mset p = mset [0..<n]" and l: "attr_rows a = n"
  shows "edge_term L (permute_attr p a) (map_option (permute p) edge_type)
         = map_sum id (permute p) (edge_term L a edge_type)"
proof (cases "self_lin_edge L")
  case None
  then show ?thesis by (simp add: edge_term_def)
next
  case (Some lw)
  let ?A = "case a of Attr1 v \<Rightarrow> map (\<lambda>a. [a]) v | Attr2 m \<Rightarrow> m"
  note ar = attr_rows_permute [OF p l]
  have la: "lin_apply lw (permute p ?A) = map_sum id (permute p) (lin_apply lw ?A)"
    by (rule lin_apply_permute [OF p ar(2)])
  show ?thesis
  proof (cases "lin_apply lw ?A")
    case (Inl err)
    then show ?thesis using Some by (simp add: edge_term_def ar(1) la)
  next
    case (Inr pr)
    then have lp: "length pr = n"
      using lin_apply_Inr ar(2) by blast
    show ?thesis
      using Some Inr
      by (simp add: edge_term_def ar la lp perm_set(2) [OF p] matmul_permute [OF p lp]
          split: option.splits)
  qed
qed

lemma edge_term_Inr:
  assumes "edge_term L a edge_type = Inr ae" "attr_rows a = n"
  shows "length ae = n"
proof -
  let ?A = "case a of Attr1 v \<Rightarrow> map (\<lambda>a. [a]) v | Attr2 m \<Rightarrow> m"
  have lA: "length ?A = n"
    using assms(2) by (cases a) simp_all
  from assms(1) obtain lw pr ew where "lin_apply lw ?A = Inr pr" and "matmul pr ew = Inr ae"
    by (auto simp: edge_term_def Let_def ebind_eq_Inr split: option.splits if_splits
        dest: lin_apply_Inr)
  then show ?thesis
    using lin_apply_Inr matmul_Inr(1) lA by metis
qed

lemma scores_permute:
  assumes p: "mset p = mset [0..<n]" and l: "length qi = n" "length kj = n"
    and a: "case ae of None \<Rightarrow> True | Some m \<Rightarrow> length m = n"
    and mode: "attention_mode c = ''additive-self-attention''
               \<or> attention_mode c = ''multiplicative-self-attention''"
  shows "scores c (permute p qi) (permute p kj) (map_option (permute p) ae)
         = map_sum id (permute p) (scores c qi kj ae)"
proof -
  have two: "ew2 f (permute p qi) (permute p kj) = map_sum id (permute p) (ew2 f qi kj)" for f
    by (rule ew2_permute [OF p l])
  have three: "ebind (ew2 f (permute p qi) (permute p kj)) (\<lambda>s. ew2 g s (permute p m))
               = map_sum id (permute p) (ebind (ew2 f qi kj) (\<lambda>s. ew2 g s m))"
    if "length m = n" for f g m
  proof (rule ebind_permute [OF two])
    fix s
    assume "ew2 f qi kj = Inr s"
    then have "length s = n"
      using ew2_Inr(2) l(1) by metis
    then show "ew2 g (permute p s) (permute p m) = map_sum id (permute p) (ew2 g s m)"
      using that by (intro ew2_permute [OF p])
  qed
  have lk: "permute p (map (map g) C) = map (map g) (permute p C)"
    if "length C = n" for g and C :: mat
    using that by (rule permute_map [OF p])
  have r2: "map_sum id (map (map g)) (map_sum id (permute p) m)
            = map_sum id (permute p) (map_sum id (map (map g)) m)"
    if "\<And>C. m = Inr C \<Longrightarrow> length C = n" for g and m :: "error + mat"
    using that by (cases m) (simp_all add: lk)
  have len2: "length C = n" if "ew2 f qi kj = Inr C" for f C
    using that ew2_Inr(2) l(1) by metis
  have len3: "length C = n" if "ebind (ew2 f qi kj) (\<lambda>s. ew2 g s m) = Inr C" for f g m C
    using that ew2_Inr(2) l(1) by (auto simp: ebind_eq_Inr)
  show ?thesis
  proof (cases ae)
    case None
    then show ?thesis
      using mode by (auto simp: scores_def two r2 len2)
  next
    case (Some m)
    with a have "length m = n" by simp
    then show ?thesis
      using mode Some by (auto simp: scores_def three r2 len3)
  qed
qed

lemma scores_Inr:
  assumes "scores c qi kj ae = Inr s"
    and mode: "attention_mode c = ''additive-self-attention''
               \<or> attention_mode c = ''multiplicative-self-attention''"
  shows "length s = length qi"
proof -
  have len2: "length C = length qi" if "ew2 f qi kj = Inr C" for f C
    using that ew2_Inr(2) by metis
  have len3: "length C = length qi"
    if "ebind (ew2 f qi kj) (\<lambda>s. ew2 g s m) = Inr C" for f g m C
    using that ew2_Inr(2) by (auto simp: ebind_eq_Inr)
  from assms show ?thesis
    by (cases ae) (auto simp: scores_def map_sum_eq_Inr dest: len2 len3 split: if_splits)
qed

lemma mset_relation_group:
  assumes "length A = length ts" "length ts = length I"
  shows "mset (relation_group A ts I t i)
         = image_mset fst (filter_mset (\<lambda>(a, u, j). u = t \<and> j = i) (mset (zip A (zip ts I))))"
  using assms by (induction A ts I rule: list_induct3) simp_all

lemma relation_group_permute:
  assumes p: "mset p = mset [0..<n]" and l: "length A = n" "length ts = n" "length I = n"
  shows "mset (relation_group (permute p A) (permute p ts) (permute p I) t i)
         = mset (relation_group A ts I t i)"
proof -
  have lz: "length (zip ts I) = n"
    using l by simp
  have "zip (permute p A) (zip (permute p ts) (permute p I)) = permute p (zip A (zip ts I))"
    by (simp add: permute_zip [OF p l(2,3)] permute_zip [OF p l(1) lz])
  then have "mset (zip (permute p A) (zip (permute p ts) (permute p I)))
             = mset (zip A (zip ts I))"
    using mset_permute [OF p, of "zip A (zip ts I)"] l by simp
  moreover have "length (permute p A) = length (permute p ts)"
    "length (permute p ts) = length (permute p I)"
    by simp_all
  moreover have "length A = length ts" "length ts = length I"
    using l by simp_all
  ultimately show ?thesis
    by (simp only: mset_relation_group)
qed

lemma within_relation_permute:
  assumes p: "mset p = mset [0..<n]" and l: "length A = n" "length ts = n" "length I = n"
  shows "within_relation R (permute p A) (permute p ts) (permute p I)
         = permute p (within_relation R A ts I)"
proof -
  let ?F = "\<lambda>(a, t, i). if 0 \<le> t \<and> t < int R then softmax_row (relation_group A ts I t i) a
                          else map (\<lambda>_. 0) a"
  have g: "softmax_row (relation_group (permute p A) (permute p ts) (permute p I) t i) a
           = softmax_row (relation_group A ts I t i) a" for t i a
    by (intro softmax_row_mset relation_group_permute [OF p l])
  have lz: "length (zip ts I) = n" and lzz: "length (zip A (zip ts I)) = n"
    using l by simp_all
  have "within_relation R (permute p A) (permute p ts) (permute p I)
        = map ?F (zip (permute p A) (zip (permute p ts) (permute p I)))"
    by (subst within_relation_char) (simp_all only: length_permute g)
  also have "\<dots> = map ?F (permute p (zip A (zip ts I)))"
    by (simp add: permute_zip [OF p l(2,3)] permute_zip [OF p l(1) lz])
  also have "\<dots> = permute p (map ?F (zip A (zip ts I)))"
    by (rule permute_map [OF p lzz, symmetric])
  also have "map ?F (zip A (zip ts I)) = within_relation R A ts I"
    using l by (subst within_relation_char) simp_all
  finally show ?thesis .
qed

lemma normalize_alpha_permute:
  assumes p: "mset p = mset [0..<n]" and l: "length s = n" "length index = n"
    and t: "case edge_type of None \<Rightarrow> True | Some ts \<Rightarrow> length ts = n"
  shows "normalize_alpha c (permute p s) (map_option (permute p) edge_type) (permute p index)
         = map_sum id (permute p) (normalize_alpha c s edge_type index)"
proof (cases edge_type)
  case None
  then show ?thesis
    using l by (simp add: normalize_alpha_def softmax_permute [OF p l])
next
  case (Some ts)
  with t have lt: "length ts = n" by simp
  show ?thesis
    using l lt Some
    by (simp add: normalize_alpha_def softmax_permute [OF p l]
        within_relation_permute [OF p l(1) lt l(2)])
qed

lemma normalize_alpha_Inr:
  assumes "normalize_alpha c s edge_type index = Inr alpha" "length index = length s"
  shows "length alpha = length s"
  using assms
  by (auto simp: normalize_alpha_def length_softmax within_relation_char
      split: if_splits option.splits)

lemma attention_permute:
  assumes p: "mset p = mset [0..<n]"
    and l: "length x_i = n" "length x_j = n" "length index = n"
    and t: "case edge_type of None \<Rightarrow> True | Some ts \<Rightarrow> length ts = n"
    and a: "case ea of None \<Rightarrow> True | Some a \<Rightarrow> attr_rows a = n"
    and mode: "attention_mode (cfg L) = ''additive-self-attention''
               \<or> attention_mode (cfg L) = ''multiplicative-self-attention''"
    and bs: "block_shapes L x_i" "block_shapes L x_j"
  shows "attention L dt (permute p x_i) (permute p x_j) (map_option (permute p) edge_type)
           (map_option (permute_attr p) ea) (permute p index)
         = map_sum id (\<lambda>(outj, alpha). (permute p outj, permute p alpha))
             (attention L dt x_i x_j edge_type ea index)"
  unfolding attention_def
proof (rule ebind_permute [OF transform_permute [OF p l(1,2) t bs]], clarify)
  fix outi outj
  assume tr: "transform L dt x_i x_j edge_type = Inr (outi, outj)"
  note lo = transform_Inr [OF tr l(1,2) t bs]
  show "ebind (matmul (permute p outi) (self_q L)) (\<lambda>qi.
          ebind (matmul (permute p outj) (self_k L)) (\<lambda>kj.
          ebind (case map_option (permute_attr p) ea of
                   None \<Rightarrow> Inr None
                 | Some a \<Rightarrow> map_sum id Some
                     (edge_term L a (map_option (permute p) edge_type))) (\<lambda>alpha_edge.
          ebind (scores (cfg L) qi kj alpha_edge) (\<lambda>alpha.
          ebind (normalize_alpha (cfg L) alpha (map_option (permute p) edge_type)
                   (permute p index)) (\<lambda>alpha'.
            Inr (permute p outj, alpha'))))))
        = map_sum id (\<lambda>(outj, alpha). (permute p outj, permute p alpha))
            (ebind (matmul outi (self_q L)) (\<lambda>qi.
             ebind (matmul outj (self_k L)) (\<lambda>kj.
             ebind (case ea of
                      None \<Rightarrow> Inr None
                    | Some a \<Rightarrow> map_sum id Some (edge_term L a edge_type)) (\<lambda>alpha_edge.
             ebind (scores (cfg L) qi kj alpha_edge) (\<lambda>alpha.
             ebind (normalize_alpha (cfg L) alpha edge_type index) (\<lambda>alpha'.
               Inr (outj, alpha')))))))"
  proof (rule ebind_permute [OF matmul_permute [OF p lo(1)]])
    fix qi
    assume q: "matmul outi (self_q L) = Inr qi"
    from matmul_Inr(1) [OF q] lo(1) have lq: "length qi = n" by simp
    show "ebind (matmul (permute p outj) (self_k L)) (\<lambda>kj.
          ebind (case map_option (permute_attr p) ea of
                   None \<Rightarrow> Inr None
                 | Some a \<Rightarrow> map_sum id Some
                     (edge_term L a (map_option (permute p) edge_type))) (\<lambda>alpha_edge.
          ebind (scores (cfg L) (permute p qi) kj alpha_edge) (\<lambda>alpha.
          ebind (normalize_alpha (cfg L) alpha (map_option (permute p) edge_type)
                   (permute p index)) (\<lambda>alpha'.
            Inr (permute p outj, alpha')))))
        = map_sum id (\<lambda>(outj, alpha). (permute p outj, permute p alpha))
            (ebind (matmul outj (self_k L)) (\<lambda>kj.
             ebind (case ea of
                      None \<Rightarrow> Inr None
                    | Some a \<Rightarrow> map_sum id Some (edge_term L a edge_type)) (\<lambda>alpha_edge.
             ebind (scores (cfg L) qi kj alpha_edge) (\<lambda>alpha.
             ebind (normalize_alpha (cfg L) alpha edge_type index) (\<lambda>alpha'.
               Inr (outj, alpha'))))))"
    proof (rule ebind_permute [OF matmul_permute [OF p lo(2)]])
      fix kj
      assume k: "matmul outj (self_k L) = Inr kj"
      from matmul_Inr(1) [OF k] lo(2) have lk: "length kj = n" by simp
      let ?e = "case ea of None \<Rightarrow> Inr None
                | Some a \<Rightarrow> map_sum id Some (edge_term L a edge_type)"
      have e: "(case map_option (permute_attr p) ea of
                   None \<Rightarrow> Inr None
                 | Some a \<Rightarrow> map_sum id Some
                     (edge_term L a (map_option (permute p) edge_type)))
               = map_sum id (map_option (permute p)) ?e"
      proof (cases ea)
        case None
        then show ?thesis by simp
      next
        case (Some a')
        with a have "attr_rows a' = n" by simp
        from edge_term_permute [OF p this, of L edge_type] Some show ?thesis
          by (cases "edge_term L a' edge_type") simp_all
      qed
      show "ebind (case map_option (permute_attr p) ea of
                   None \<Rightarrow> Inr None
                 | Some a \<Rightarrow> map_sum id Some
                     (edge_term L a (map_option (permute p) edge_type))) (\<lambda>alpha_edge.
          ebind (scores (cfg L) (permute p qi) (permute p kj) alpha_edge) (\<lambda>alpha.
          ebind (normalize_alpha (cfg L) alpha (map_option (permute p) edge_type)
                   (permute p index)) (\<lambda>alpha'.
            Inr (permute p outj, alpha'))))
        = map_sum id (\<lambda>(outj, alpha). (permute p outj, permute p alpha))
            (ebind ?e (\<lambda>alpha_edge.
             ebind (scores (cfg L) qi kj alpha_edge) (\<lambda>alpha.
             ebind (normalize_alpha (cfg L) alpha edge_type index) (\<lambda>alpha'.
               Inr (outj, alpha')))))"
      proof (rule ebind_permute [OF e])
        fix ae
        assume ae: "?e = Inr ae"
        have la: "case ae of None \<Rightarrow> True | Some m \<Rightarrow> length m = n"
        proof (cases ea)
          case None
          with ae show ?thesis by auto
        next
          case (Some a')
          with a have "attr_rows a' = n" by simp
          with ae Some show ?thesis
            by (auto simp: map_sum_eq_Inr dest: edge_term_Inr)
        qed
        show "ebind (scores (cfg L) (permute p qi) (permute p kj) (map_option (permute p) ae))
                (\<lambda>alpha.
          ebind (normalize_alpha (cfg L) alpha (map_option (permute p) edge_type)
                   (permute p index)) (\<lambda>alpha'.
            Inr (permute p outj, alpha')))
        = map_sum id (\<lambda>(outj, alpha). (permute p outj, permute p alpha))
            (ebind (scores (cfg L) qi kj ae) (\<lambda>alpha.
             ebind (normalize_alpha (cfg L) alpha edge_type index) (\<lambda>alpha'.
               Inr (outj, alpha'))))"
        proof (rule ebind_permute [OF scores_permute [OF p lq lk la mode]])
          fix s
          assume s: "scores (cfg L) qi kj ae = Inr s"
          from scores_Inr [OF s mode] lq have ls: "length s = n" by simp
          show "ebind (normalize_alpha (cfg L) (permute p s) (map_option (permute p) edge_type)
                   (permute p index)) (\<lambda>alpha'. Inr (permute p outj, alpha'))
                = map_sum id (\<lambda>(outj, alpha). (permute p outj, permute p alpha))
                    (ebind (normalize_alpha (cfg L) s edge_type index) (\<lambda>alpha'.
                       Inr (outj, alpha')))"
            by (rule ebind_permute [OF normalize_alpha_permute [OF p ls l(3) t]]) simp
        qed
      qed
    qed
  qed
qed

lemma attention_Inr_length:
  assumes at: "attention L dt x_i x_j edge_type ea index = Inr (outj, alpha)"
    and l: "length x_i = n" "length x_j = n" "length index = n"
    and mode: "attention_mode (cfg L) = ''additive-self-attention''
               \<or> attention_mode (cfg L) = ''multiplicative-self-attention''"
    and t: "case edge_type of None \<Rightarrow> True | Some ts \<Rightarrow> length ts = n"
    and bs: "block_shapes L x_i" "block_shapes L x_j"
  shows "length outj = n" and "length alpha = n"
proof -
  from at obtain outi qi kj ae s where
    tr: "transform L dt x_i x_j edge_type = Inr (outi, outj)"
    and q: "matmul outi (self_q L) = Inr qi"
    and s: "scores (cfg L) qi kj ae = Inr s"
    and n: "normalize_alpha (cfg L) s edge_type index = Inr alpha"
    by (auto simp: attention_def ebind_eq_Inr)
  from transform_Inr(2) [OF tr l(1,2) t bs] show "length outj = n" .
  from transform_Inr(1) [OF tr l(1,2) t bs] matmul_Inr(1) [OF q] scores_Inr [OF s mode]
  have "length s = n" by simp
  with normalize_alpha_Inr [OF n] l show "length alpha = n" by simp
qed

section \<open>Reordering the edges: messages and the layer's output\<close>

lemma shapes_permute:
  assumes p: "mset p = mset [0..<n]" and l: "length outj = n" "length alpha = n"
  shows "shapes_add c (permute p outj) (permute p alpha) = shapes_add c outj alpha"
    and "shapes_mul c (permute p outj) (permute p alpha) = shapes_mul c outj alpha"
  by (simp_all add: shapes_add_def shapes_mul_def list_all_permute [OF p l(1)]
      list_all_permute [OF p l(2)] l)

lemma degree_of_permute:
  assumes p: "mset p = mset [0..<n]" and l: "length index = n"
  shows "degree_of (permute p index) N = map_sum id (permute p) (degree_of index N)"
  unfolding degree_of_def
  by (simp add: list_all_permute [OF p l] permute_map [OF p l] l perm_set(2) [OF p]
      scatter_add_permute [OF p l])

lemma degree_of_Inr: "degree_of index N = Inr deg \<Longrightarrow> length deg = length index"
  by (auto simp: degree_of_def split: if_splits)

lemma degree_mlp_permute:
  assumes p: "mset p = mset [0..<n]" and l: "length deg = n"
  shows "degree_mlp L (permute p deg) = map_sum id (permute p) (degree_mlp L deg)"
proof -
  have l1: "length (map (\<lambda>d. [d]) deg) = n"
    using l by simp
  have m1: "matmul (map (\<lambda>d. [d]) (permute p deg)) (self_l1 L)
            = map_sum id (permute p) (matmul (map (\<lambda>d. [d]) deg) (self_l1 L))"
    using matmul_permute [OF p l1] by (simp add: permute_map [OF p l])
  show ?thesis
    unfolding degree_mlp_def
  proof (rule ebind_permute [OF m1])
    fix a
    assume "matmul (map (\<lambda>d. [d]) deg) (self_l1 L) = Inr a"
    from matmul_Inr(1) [OF this] l have la: "length a = n" by simp
    show "ebind (add_row (permute p a) (self_b1 L)) (\<lambda>b.
            ebind (matmul (map (map relu) b) (self_l2 L)) (\<lambda>c. add_row c (self_b2 L)))
          = map_sum id (permute p)
              (ebind (add_row a (self_b1 L)) (\<lambda>b.
                 ebind (matmul (map (map relu) b) (self_l2 L)) (\<lambda>c. add_row c (self_b2 L))))"
    proof (rule ebind_permute [OF add_row_permute [OF p la]])
      fix b
      assume "add_row a (self_b1 L) = Inr b"
      from add_row_Inr [OF this] la have lb: "length b = n" by simp
      then have lr: "length (map (map relu) b) = n" by simp
      have m2: "matmul (map (map relu) (permute p b)) (self_l2 L)
                = map_sum id (permute p) (matmul (map (map relu) b) (self_l2 L))"
        using matmul_permute [OF p lr] by (simp add: permute_map [OF p lb])
      show "ebind (matmul (map (map relu) (permute p b)) (self_l2 L))
              (\<lambda>c. add_row c (self_b2 L))
            = map_sum id (permute p)
                (ebind (matmul (map (map relu) b) (self_l2 L)) (\<lambda>c. add_row c (self_b2 L)))"
      proof (rule ebind_permute [OF m2])
        fix c
        assume "matmul (map (map relu) b) (self_l2 L) = Inr c"
        from matmul_Inr(1) [OF this] lb have "length c = n" by simp
        then show "add_row (permute p c) (self_b2 L)
                   = map_sum id (permute p) (add_row c (self_b2 L))"
          by (rule add_row_permute [OF p])
      qed
    qed
  qed
qed

lemma degree_mlp_Inr:
  assumes "degree_mlp L deg = Inr dg"
  shows "length dg = length deg"
proof -
  from assms obtain a b c where "matmul (map (\<lambda>d. [d]) deg) (self_l1 L) = Inr a"
    and "add_row a (self_b1 L) = Inr b" and "matmul (map (map relu) b) (self_l2 L) = Inr c"
    and "add_row c (self_b2 L) = Inr dg"
    by (auto simp: degree_mlp_def ebind_eq_Inr)
  then show ?thesis
    using matmul_Inr(1) add_row_Inr by (metis length_map)
qed

lemma F_dropout_permute:
  assumes p: "mset p = mset [0..<n]" and l: "length A = n"
  shows "F_dropout pr (\<lambda>k c. keep (p ! k) c) (permute p A)
         = map_sum id (permute p) (F_dropout pr keep A)"
proof -
  let ?g = "\<lambda>kp row. map2 (\<lambda>c a. if kp c \<and> pr \<noteq> 1 then a / (1 - pr) else 0)
                          [0..<length row] (row :: real list)"
  have "map2 (\<lambda>e row. ?g (keep (p ! e)) row) [0..<length (permute p A)] (permute p A)
        = permute p (map2 (\<lambda>e row. ?g (keep e) row) [0..<length A] A)"
    using perm_nth_less [OF p] perm_set(2) [OF p] l
    by (intro nth_equalityI) (simp_all add: permute_def)
  then show ?thesis
    by (simp add: F_dropout_def)
qed

lemma adjust_permute:
  assumes p: "mset p = mset [0..<n]" and l: "length alpha = n" "length index = n"
  shows "adjust L (permute p alpha) (permute p index) N (\<lambda>k c. keep (p ! k) c)
         = map_sum id (permute p) (adjust L alpha index N keep)"
proof -
  have fs: "ebind (degree_of (permute p index) N) (\<lambda>deg.
              if length deg \<noteq> length (permute p alpha) then Inl (RuntimeError ''shape'')
              else Inr (map2 (\<lambda>a d. map (\<lambda>y. y * d) a) (permute p alpha) deg))
            = map_sum id (permute p)
                (ebind (degree_of index N) (\<lambda>deg.
                   if length deg \<noteq> length alpha then Inl (RuntimeError ''shape'')
                   else Inr (map2 (\<lambda>a d. map (\<lambda>y. y * d) a) alpha deg)))"
  proof (rule ebind_permute [OF degree_of_permute [OF p l(2)]])
    fix deg
    assume "degree_of index N = Inr deg"
    from degree_of_Inr [OF this] l have ld: "length deg = n" by simp
    show "(if length (permute p deg) \<noteq> length (permute p alpha)
           then Inl (RuntimeError ''shape'')
           else Inr (map2 (\<lambda>a d. map (\<lambda>y. y * d) a) (permute p alpha) (permute p deg)))
          = map_sum id (permute p)
              (if length deg \<noteq> length alpha then Inl (RuntimeError ''shape'')
               else Inr (map2 (\<lambda>a d. map (\<lambda>y. y * d) a) alpha deg))"
      by (simp add: l ld permute_map2 [OF p l(1) ld])
  qed
  show ?thesis
  proof (cases "mod_name (cfg L) = Some ''f-scaled''")
    case True
    then have c: "(mod_name (cfg L) = Some ''additive'') = False"
      "(mod_name (cfg L) = Some ''scaled'') = False"
      "(mod_name (cfg L) = Some ''f-additive'') = False"
      "(mod_name (cfg L) = Some ''f-scaled'') = True"
      by simp_all
    show ?thesis
      unfolding adjust_def by (simp only: c if_True if_False fs)
  next
    case False
    then show ?thesis
      unfolding adjust_def
      by (simp add: F_dropout_permute [OF p l(1)] permute_map [OF p l(1)])
  qed
qed

lemma final_message_permute:
  assumes p: "mset p = mset [0..<n]" and l: "length outj = n" "length alpha = n"
  shows "final_message c (permute p outj) (permute p alpha)
         = map_sum id (permute p) (final_message c outj alpha)"
  unfolding final_message_def
  by (simp add: shapes_permute [OF p l] permute_map2 [OF p l(2,1)])

lemma modulate_permute:
  assumes p: "mset p = mset [0..<n]"
    and l: "length outj = n" "length alpha = n" "length index = n"
  shows "modulate L (permute p outj) (permute p alpha) (permute p index) N
           (\<lambda>k c. keep (p ! k) c)
         = map_sum id (permute p) (modulate L outj alpha index N keep)"
proof -
  let ?c = "cfg L"
  let ?K = "nat (out_channels ?c)"
  note sh = shapes_permute [OF p l(1,2)]
  have sc: "ebind (degree_of (permute p index) N) (\<lambda>deg.
              ebind (degree_mlp L deg) (\<lambda>dg.
                if \<not> ok \<or> length dg \<noteq> length (permute p outj)
                   \<or> \<not> list_all (\<lambda>d. length d = ?K) dg
                then Inl (RuntimeError ''view'')
                else Inr (map2 (\<lambda>pr d. times_last d ?K pr)
                            (map2 f (permute p alpha) (permute p outj)) dg)))
            = map_sum id (permute p)
                (ebind (degree_of index N) (\<lambda>deg.
                   ebind (degree_mlp L deg) (\<lambda>dg.
                     if \<not> ok \<or> length dg \<noteq> length outj \<or> \<not> list_all (\<lambda>d. length d = ?K) dg
                     then Inl (RuntimeError ''view'')
                     else Inr (map2 (\<lambda>pr d. times_last d ?K pr) (map2 f alpha outj) dg))))"
    for ok and f :: "vec \<Rightarrow> vec \<Rightarrow> vec"
  proof (rule ebind_permute [OF degree_of_permute [OF p l(3)]])
    fix deg
    assume "degree_of index N = Inr deg"
    from degree_of_Inr [OF this] l have ld: "length deg = n" by simp
    show "ebind (degree_mlp L (permute p deg)) (\<lambda>dg.
                if \<not> ok \<or> length dg \<noteq> length (permute p outj)
                   \<or> \<not> list_all (\<lambda>d. length d = ?K) dg
                then Inl (RuntimeError ''view'')
                else Inr (map2 (\<lambda>pr d. times_last d ?K pr)
                            (map2 f (permute p alpha) (permute p outj)) dg))
          = map_sum id (permute p)
              (ebind (degree_mlp L deg) (\<lambda>dg.
                 if \<not> ok \<or> length dg \<noteq> length outj \<or> \<not> list_all (\<lambda>d. length d = ?K) dg
                 then Inl (RuntimeError ''view'')
                 else Inr (map2 (\<lambda>pr d. times_last d ?K pr) (map2 f alpha outj) dg)))"
    proof (rule ebind_permute [OF degree_mlp_permute [OF p ld]])
      fix dg
      assume "degree_mlp L deg = Inr dg"
      from degree_mlp_Inr [OF this] ld have lg: "length dg = n" by simp
      have lm: "length (map2 f alpha outj) = n"
        using l by simp
      show "(if \<not> ok \<or> length (permute p dg) \<noteq> length (permute p outj)
                \<or> \<not> list_all (\<lambda>d. length d = ?K) (permute p dg)
             then Inl (RuntimeError ''view'')
             else Inr (map2 (\<lambda>pr d. times_last d ?K pr)
                         (map2 f (permute p alpha) (permute p outj)) (permute p dg)))
            = map_sum id (permute p)
                (if \<not> ok \<or> length dg \<noteq> length outj \<or> \<not> list_all (\<lambda>d. length d = ?K) dg
                 then Inl (RuntimeError ''view'')
                 else Inr (map2 (\<lambda>pr d. times_last d ?K pr) (map2 f alpha outj) dg))"
        by (simp add: l lg list_all_permute [OF p lg] permute_map2 [OF p l(2,1), symmetric]
            permute_map2 [OF p lm lg])
    qed
  qed
  have fin: "ebind (adjust L (permute p alpha) (permute p index) N (\<lambda>k c. keep (p ! k) c))
               (\<lambda>alpha'. final_message ?c (permute p outj) alpha')
             = map_sum id (permute p)
                 (ebind (adjust L alpha index N keep) (\<lambda>alpha'. final_message ?c outj alpha'))"
  proof (rule ebind_permute [OF adjust_permute [OF p l(2,3)]])
    fix a
    assume "adjust L alpha index N keep = Inr a"
    from adjust_Inr [OF this] l have "length a = n" by simp
    then show "final_message ?c (permute p outj) (permute p a)
               = map_sum id (permute p) (final_message ?c outj a)"
      by (intro final_message_permute [OF p l(1)])
  qed
  let ?add = "attention_mode ?c = ''additive-self-attention''"
  let ?mul = "attention_mode ?c = ''multiplicative-self-attention''"
  consider (a1) "mod_name ?c = Some ''additive''" ?add
    | (a2) "mod_name ?c = Some ''additive''" "\<not> ?add" ?mul
    | (s1) "mod_name ?c = Some ''scaled''" ?add
    | (s2) "mod_name ?c = Some ''scaled''" "\<not> ?add" ?mul
    | (other) "\<not> (mod_name ?c = Some ''additive'' \<and> ?add)"
        "\<not> (mod_name ?c = Some ''additive'' \<and> ?mul)"
        "\<not> (mod_name ?c = Some ''scaled'' \<and> ?add)"
        "\<not> (mod_name ?c = Some ''scaled'' \<and> ?mul)"
    by blast
  then show ?thesis
  proof cases
    case a1
    then show ?thesis
      by (simp add: modulate_def Let_def sh permute_map2 [OF p l(2,1)])
  next
    case a2
    then show ?thesis
      by (simp add: modulate_def Let_def sh permute_map2 [OF p l(2,1)])
  next
    case s1
    then have c: "(mod_name ?c = Some ''additive'' \<and> ?add) = False"
      "(mod_name ?c = Some ''additive'' \<and> ?mul) = False"
      "(mod_name ?c = Some ''scaled'' \<and> ?add) = True"
      by simp_all
    show ?thesis
      unfolding modulate_def Let_def by (simp only: c if_True if_False sh sc)
  next
    case s2
    then have c: "(mod_name ?c = Some ''additive'' \<and> ?add) = False"
      "(mod_name ?c = Some ''additive'' \<and> ?mul) = False"
      "(mod_name ?c = Some ''scaled'' \<and> ?add) = False"
      "(mod_name ?c = Some ''scaled'' \<and> ?mul) = True"
      by simp_all
    show ?thesis
      unfolding modulate_def Let_def by (simp only: c if_True if_False sh sc)
  next
    case other
    then have c: "(mod_name ?c = Some ''additive'' \<and> ?add) = False"
      "(mod_name ?c = Some ''additive'' \<and> ?mul) = False"
      "(mod_name ?c = Some ''scaled'' \<and> ?add) = False"
      "(mod_name ?c = Some ''scaled'' \<and> ?mul) = False"
      by simp_all
    show ?thesis
      unfolding modulate_def Let_def by (simp only: c if_True if_False fin)
  qed
qed

lemma check_args_mode:
  "check_args c = None
   \<Longrightarrow> attention_mode c = ''additive-self-attention''
       \<or> attention_mode c = ''multiplicative-self-attention''"
  by (auto simp: check_args_def split: if_splits)

lemma index_select_set: "index_select xs idx = Inr ys \<Longrightarrow> set ys \<subseteq> set xs"
proof -
  assume a: "index_select xs idx = Inr ys"
  then have r: "\<forall>i\<in>set idx. 0 \<le> i \<and> i < int (length xs)"
    and ys: "ys = map (\<lambda>i. xs ! nat i) idx"
    by (auto simp: index_select_def list_all_iff split: if_splits)
  have "xs ! nat i \<in> set xs" if "i \<in> set idx" for i
  proof -
    from r that have "nat i < length xs"
      by (simp add: nat_less_iff)
    then show ?thesis
      by (rule nth_mem)
  qed
  then show ?thesis
    by (auto simp: ys)
qed

lemma block_shapes_subset:
  assumes "block_shapes L X" "set X' \<subseteq> set X"
  shows "block_shapes L X'"
  using assms by (auto simp: block_shapes_def list_all_iff split: option.splits)

lemma adjust_keep_irrelevant:
  assumes "\<not> (training L \<and> 0 < dropout (cfg L))"
  shows "adjust L alpha index N keep' = adjust L alpha index N keep"
  using assms by (auto simp: adjust_def)

lemma forward_keep_irrelevant:
  assumes "\<not> (training L \<and> 0 < dropout (cfg L))"
  shows "forward L dt x edge_index edge_type ea keep' raw
         = forward L dt x edge_index edge_type ea keep raw"
proof -
  have "modulate L outj alpha index N keep' = modulate L outj alpha index N keep"
    for outj alpha index N
    unfolding modulate_def
    by (simp only: adjust_keep_irrelevant [OF assms, of alpha index N keep' keep])
  then show ?thesis
    by (simp only: forward_unfold)
qed

text \<open>
  Claim C8, amended. Take a layer whose configuration the constructor accepts, node
  features of the width the block-diagonal weight takes (where there is one), and a
  permutation \<open>p\<close> of the \<open>E\<close> edges. Where the layer applies no coefficient dropout
  (evaluation mode, or \<^verbatim>\<open>dropout = 0\<close>), and, under dropout, where the draw of every
  edge moves with the edge: \<^verbatim>\<open>forward\<close> on the edge list, the relation ids and the edge
  attributes reordered by \<open>p\<close> raises exactly when the call in the original order raises,
  with the same exception; where it returns, the output node features are equal, the
  returned attention weights are those of the original call reordered by \<open>p\<close>, and the
  layer is left in the same state.
\<close>

theorem forward_permutation_invariant:
  assumes perm: "mset p = mset [0..<length edge_index]"
    and ok: "check_args (cfg L) = None"
    and lt: "case edge_type of None \<Rightarrow> True | Some ts \<Rightarrow> length ts = length edge_index"
    and la: "case ea of None \<Rightarrow> True | Some a \<Rightarrow> attr_rows a = length edge_index"
    and bs: "block_shapes L x"
    and kp: "training L \<and> 0 < dropout (cfg L) \<longrightarrow> keep' = (\<lambda>k c. keep (p ! k) c)"
  shows "snd (forward L dt x (permute p edge_index) (map_option (permute p) edge_type)
                (map_option (permute_attr p) ea) keep' raw)
         = map_sum id
             (\<lambda>(out, w). (out, map_option (\<lambda>(ei, alpha). (permute p ei, permute p alpha)) w))
             (snd (forward L dt x edge_index edge_type ea keep raw))
       \<and> (\<not> isl (snd (forward L dt x edge_index edge_type ea keep raw)) \<longrightarrow>
            fst (forward L dt x (permute p edge_index) (map_option (permute p) edge_type)
                   (map_option (permute_attr p) ea) keep' raw)
            = fst (forward L dt x edge_index edge_type ea keep raw))"
proof -
  let ?n = "length edge_index"
  let ?index = "map snd edge_index"
  let ?src = "map fst edge_index"
  let ?keep' = "\<lambda>k c. keep (p ! k) c"
  let ?N = "length x"
  let ?W = "msg_width (cfg L)"
  let ?lhs = "forward L dt x (permute p edge_index) (map_option (permute p) edge_type)
                (map_option (permute_attr p) ea) ?keep' raw"
  let ?rhs = "forward L dt x edge_index edge_type ea keep raw"
  let ?h = "\<lambda>(out :: mat, w). (out, map_option (\<lambda>(ei, alpha :: mat).
                 (permute p (ei :: (int \<times> int) list), permute p alpha)) w)"
  note mode = check_args_mode [OF ok]
  have li: "length ?index = ?n" and ls: "length ?src = ?n"
    by simp_all
  have pi: "map snd (permute p edge_index) = permute p ?index"
    and ps: "map fst (permute p edge_index) = permute p ?src"
    by (simp_all add: permute_map [OF perm refl])
  have si: "index_select x (permute p ?index) = map_sum id (permute p) (index_select x ?index)"
    by (rule index_select_permute [OF perm li])
  have ss: "index_select x (permute p ?src) = map_sum id (permute p) (index_select x ?src)"
    by (rule index_select_permute [OF perm ls])
  have goal: "snd ?lhs = map_sum id ?h (snd ?rhs) \<and> (\<not> isl (snd ?rhs) \<longrightarrow> fst ?lhs = fst ?rhs)"
  proof (cases "index_select x ?index")
    case (Inl err)
    then show ?thesis
      by (simp add: forward_unfold pi ps si)
  next
    case xi: (Inr x_i)
    then have lxi: "length x_i = ?n"
      using index_select_Inr li by metis
    show ?thesis
    proof (cases "index_select x ?src")
      case (Inl err)
      then show ?thesis
        using xi by (simp add: forward_unfold pi ps si ss)
    next
      case xj: (Inr x_j)
      then have lxj: "length x_j = ?n"
        using index_select_Inr ls by metis
      have bsi: "block_shapes L x_i" and bsj: "block_shapes L x_j"
        using bs index_select_set [OF xi] index_select_set [OF xj]
        by (auto intro: block_shapes_subset)
      note at = attention_permute [OF perm lxi lxj li lt la mode bsi bsj, of dt]
      show ?thesis
      proof (cases "attention L dt x_i x_j edge_type ea ?index")
        case (Inl err)
        then show ?thesis
          using xi xj by (simp add: forward_unfold pi ps si ss at)
      next
        case (Inr oa)
        obtain outj alpha where oa: "oa = (outj, alpha)"
          by (cases oa)
        note att = Inr [unfolded oa]
        note len = attention_Inr_length [OF att lxi lxj li mode lt bsi bsj]
        note md = modulate_permute [OF perm len li, of L ?N keep]
        let ?m = "modulate L outj alpha ?index ?N keep"
        let ?r = "ebind ?m (\<lambda>msgs. update L (aggregate ?W msgs ?index ?N))"
        let ?r' = "ebind (modulate L (permute p outj) (permute p alpha) (permute p ?index) ?N
                           ?keep')
                     (\<lambda>msgs. update L (aggregate ?W msgs (permute p ?index) ?N))"
        have r: "?r' = ?r"
        proof (cases ?m)
          case (Inl err)
          then show ?thesis by (simp add: md)
        next
          case (Inr msgs)
          from modulate_Inr_length(1) [OF Inr] len have "length msgs = ?n"
            by simp
          from aggregate_permute [OF perm this li] Inr show ?thesis
            by (simp add: md)
        qed
        have lhs: "?lhs = (case ?r of
                       Inl err \<Rightarrow> (L\<lparr>self_alpha := Some (permute p alpha)\<rparr>, Inl err)
                     | Inr out \<Rightarrow>
                         (L\<lparr>self_alpha := None\<rparr>,
                          Inr (out, case raw of
                                      Some b \<Rightarrow> Some (permute p edge_index, permute p alpha)
                                    | None \<Rightarrow> None)))"
          using xi xj att
          by (simp add: forward_unfold [of L dt x "permute p edge_index"] pi ps si ss at r)
        have rhs: "?rhs = (case ?r of
                       Inl err \<Rightarrow> (L\<lparr>self_alpha := Some alpha\<rparr>, Inl err)
                     | Inr out \<Rightarrow>
                         (L\<lparr>self_alpha := None\<rparr>,
                          Inr (out, case raw of
                                      Some b \<Rightarrow> Some (edge_index, alpha)
                                    | None \<Rightarrow> None)))"
          using xi xj att
          by (simp add: forward_unfold [of L dt x edge_index])
        show ?thesis
          unfolding lhs rhs by (cases ?r; cases raw) simp_all
      qed
    qed
  qed
  have "forward L dt x (permute p edge_index) (map_option (permute p) edge_type)
          (map_option (permute_attr p) ea) keep' raw = ?lhs"
  proof (cases "training L \<and> 0 < dropout (cfg L)")
    case True
    with kp show ?thesis
      by simp
  next
    case False
    then show ?thesis
      by (rule forward_keep_irrelevant)
  qed
  with goal show ?thesis
    by simp
qed

theorem forward_permutation_invariant_witness:
  "snd (forward (layer1_with None ''across-relation'') Float [[1, 2], [3, 4], [0, 1]]
          [(1, 1), (0, 1), (2, 1)] (Some [0, 0, 1]) None (\<lambda>k c. True) (Some True))
   = Inr ([[0, 0],
           [exp (- 2) / (exp (- 2) + (exp (- 3) + 1)) * (3 / 2)
              + (exp (- 3) / (exp (- 2) + (exp (- 3) + 1)) * (1 / 2)
                 + 1 / (exp (- 2) + (exp (- 3) + 1)) * (7 / 2)),
            exp (- 2) / (exp (- 2) + (exp (- 3) + 1)) * (3 / 2)
              + (exp (- 3) / (exp (- 2) + (exp (- 3) + 1)) * (1 / 2)
                 + 1 / (exp (- 2) + (exp (- 3) + 1)) * (7 / 2))],
           [0, 0]],
          Some ([(1, 1), (0, 1), (2, 1)],
                [[1 / (exp (- 2) + (exp (- 3) + 1))],
                 [exp (- 2) / (exp (- 2) + (exp (- 3) + 1))],
                 [exp (- 3) / (exp (- 2) + (exp (- 3) + 1))]]))
   \<and> fst (forward (layer1_with None ''across-relation'') Float [[1, 2], [3, 4], [0, 1]]
          [(1, 1), (0, 1), (2, 1)] (Some [0, 0, 1]) None (\<lambda>k c. True) (Some True))
     = layer1_with None ''across-relation''
   \<and> snd (forward (layer1_dropout (1 / 2)) Float [[1, 2], [3, 4], [0, 1]]
          [(1, 1), (0, 1), (2, 1)] (Some [0, 0, 1]) None (\<lambda>k c. [2, 0, 1 :: nat] ! k = 0)
          None)
     = Inr ([[0, 0],
             [exp (- 2) / (exp (- 2) + (exp (- 3) + 1)) * 2 * (3 / 2)
                + (0 * (1 / 2) + 0 * (7 / 2)),
              exp (- 2) / (exp (- 2) + (exp (- 3) + 1)) * 2 * (3 / 2)
                + (0 * (1 / 2) + 0 * (7 / 2))],
             [0, 0]], None)"
proof -
  let ?L = "layer1_with None ''across-relation''"
  let ?X = "[[1, 2], [3, 4], [0, 1 :: real]]"
  let ?EI = "[(0, 1), (2, 1), (1 :: int, 1 :: int)]"
  let ?ts = "[0, 1, 0 :: int]"
  let ?p = "[2, 0, 1 :: nat]"
  let ?keep = "\<lambda>(e :: nat) (c :: nat). True"
  have l3: "[0..<length ?EI] = [0, 1, 2]"
    by (simp add: upt_3)
  have perm: "mset ?p = mset [0..<length ?EI]"
    unfolding l3 by (simp add: add_mset_commute)
  have ok: "check_args (cfg ?L) = None"
    by (simp add: layer1_with_def default_config_def check_args_def)
  have lt: "case Some ?ts of None \<Rightarrow> True | Some ts \<Rightarrow> length ts = length ?EI"
    by simp
  have la: "case None :: edge_attr option of None \<Rightarrow> True
            | Some a \<Rightarrow> attr_rows a = length ?EI"
    by simp
  have pe: "permute ?p ?EI = [(1, 1), (0, 1), (2, 1)]"
    and pt: "permute ?p ?ts = [0, 0, 1]"
    and pa: "map_option (permute_attr ?p) None = None"
    by (simp_all add: permute_def)
  have pal: "permute ?p [[a0], [a1], [a2 :: real]] = [[a2], [a0], [a1]]" for a0 a1 a2
    by (simp add: permute_def)
  have bs: "block_shapes ?L ?X"
    by (simp add: block_shapes_def layer1_with_def default_config_def)
  have kp: "training ?L \<and> 0 < dropout (cfg ?L) \<longrightarrow> ?keep = (\<lambda>k c. ?keep (?p ! k) c)"
    by simp
  note t = forward_permutation_invariant [OF perm ok lt la bs kp, of Float "Some True"]
  from t have t1: "snd (forward ?L Float ?X (permute ?p ?EI) (map_option (permute ?p) (Some ?ts))
                (map_option (permute_attr ?p) None) ?keep (Some True))
         = map_sum id
             (\<lambda>(out, w). (out, map_option (\<lambda>(ei, alpha). (permute ?p ei, permute ?p alpha)) w))
             (snd (forward ?L Float ?X ?EI (Some ?ts) None ?keep (Some True)))"
    by (rule conjunct1)
  have r: "\<not> isl (snd (forward ?L Float ?X ?EI (Some ?ts) None ?keep (Some True)))"
    by (simp only: forward_ex snd_conv sum.disc simp_thms)
  from t r have t2: "fst (forward ?L Float ?X (permute ?p ?EI) (map_option (permute ?p) (Some ?ts))
                (map_option (permute_attr ?p) None) ?keep (Some True))
            = fst (forward ?L Float ?X ?EI (Some ?ts) None ?keep (Some True))"
    by blast
  let ?D = "layer1_dropout (1 / 2)"
  let ?kd = "\<lambda>(e :: nat) (c :: nat). e = 0"
  have okd: "check_args (cfg ?D) = None"
    by (simp add: layer1_dropout_def default_config_def check_args_def)
  have bsd: "block_shapes ?D ?X"
    by (simp add: block_shapes_def layer1_dropout_def default_config_def)
  have kpd: "training ?D \<and> 0 < dropout (cfg ?D)
             \<longrightarrow> (\<lambda>k c. ?p ! k = 0) = (\<lambda>k c. ?kd (?p ! k) c)"
    by simp
  note d = forward_permutation_invariant [OF perm okd lt la bsd kpd, of Float None]
  have t3: "snd (forward ?D Float ?X [(1, 1), (0, 1), (2, 1)] (Some [0, 0, 1]) None
                  (\<lambda>k c. ?p ! k = 0) None)
            = Inr ([[0, 0],
                    [exp (- 2) / (exp (- 2) + (exp (- 3) + 1)) * 2 * (3 / 2)
                       + (0 * (1 / 2) + 0 * (7 / 2)),
                     exp (- 2) / (exp (- 2) + (exp (- 3) + 1)) * 2 * (3 / 2)
                       + (0 * (1 / 2) + 0 * (7 / 2))],
                    [0, 0]], None)"
    using d [THEN conjunct1]
    by (simp only: forward_dropout_half_ex pe pt pa snd_conv map_sum.simps prod.case
        option.map id_apply)
  have t12: "snd (forward ?L Float ?X [(1, 1), (0, 1), (2, 1)] (Some [0, 0, 1]) None ?keep
                   (Some True))
   = Inr ([[0, 0],
           [exp (- 2) / (exp (- 2) + (exp (- 3) + 1)) * (3 / 2)
              + (exp (- 3) / (exp (- 2) + (exp (- 3) + 1)) * (1 / 2)
                 + 1 / (exp (- 2) + (exp (- 3) + 1)) * (7 / 2)),
            exp (- 2) / (exp (- 2) + (exp (- 3) + 1)) * (3 / 2)
              + (exp (- 3) / (exp (- 2) + (exp (- 3) + 1)) * (1 / 2)
                 + 1 / (exp (- 2) + (exp (- 3) + 1)) * (7 / 2))],
           [0, 0]],
          Some ([(1, 1), (0, 1), (2, 1)],
                [[1 / (exp (- 2) + (exp (- 3) + 1))],
                 [exp (- 2) / (exp (- 2) + (exp (- 3) + 1))],
                 [exp (- 3) / (exp (- 2) + (exp (- 3) + 1))]]))
   \<and> fst (forward ?L Float ?X [(1, 1), (0, 1), (2, 1)] (Some [0, 0, 1]) None ?keep
            (Some True))
     = ?L"
    using t1 t2
    by (simp only: forward_ex pe pt pa pal snd_conv fst_conv map_sum.simps prod.case
        option.map id_apply simp_thms)
  show ?thesis
    by (intro conjI) (rule t12 [THEN conjunct1] t12 [THEN conjunct2] t3)+
qed

text \<open>
  Claim C8, as stated, fails where the layer drops coefficients: in training mode with
  \<^verbatim>\<open>dropout = 1/2\<close>, for the draw that keeps the coefficient of the first edge of the
  list and drops the two others, the three edges into node 1 in the order \<open>[2, 0, 1]\<close>
  give another output row for node 1.
\<close>

theorem forward_dropout_order_dependent:
  "init host1 ((default_config 2 2 2)\<lparr>dropout := 1 / 2\<rparr>) = Inr (layer1_dropout (1 / 2))
   \<and> permute [2, 0, 1] [(0, 1), (2, 1), (1 :: int, 1 :: int)] = [(1, 1), (0, 1), (2, 1)]
   \<and> permute [2, 0, 1] [0, 1, 0 :: int] = [0, 0, 1]
   \<and> forward (layer1_dropout (1 / 2)) Float [[1, 2], [3, 4], [0, 1]]
       [(0, 1), (2, 1), (1, 1)] (Some [0, 1, 0]) None (\<lambda>e c. e = 0) None
     = (layer1_dropout (1 / 2),
        Inr ([[0, 0],
              [exp (- 2) / (exp (- 2) + (exp (- 3) + 1)) * 2 * (3 / 2)
                 + (0 * (1 / 2) + 0 * (7 / 2)),
               exp (- 2) / (exp (- 2) + (exp (- 3) + 1)) * 2 * (3 / 2)
                 + (0 * (1 / 2) + 0 * (7 / 2))],
              [0, 0]], None))
   \<and> forward (layer1_dropout (1 / 2)) Float [[1, 2], [3, 4], [0, 1]]
       [(1, 1), (0, 1), (2, 1)] (Some [0, 0, 1]) None (\<lambda>e c. e = 0) None
     = (layer1_dropout (1 / 2),
        Inr ([[0, 0],
              [1 / (1 + (exp (- 2) + exp (- 3))) * 2 * (7 / 2)
                 + (0 * (3 / 2) + 0 * (1 / 2)),
               1 / (1 + (exp (- 2) + exp (- 3))) * 2 * (7 / 2)
                 + (0 * (3 / 2) + 0 * (1 / 2))],
              [0, 0]], None))
   \<and> [[0, 0],
      [exp (- 2) / (exp (- 2) + (exp (- 3) + 1)) * 2 * (3 / 2)
         + (0 * (1 / 2) + 0 * (7 / 2)),
       exp (- 2) / (exp (- 2) + (exp (- 3) + 1)) * 2 * (3 / 2)
         + (0 * (1 / 2) + 0 * (7 / 2))],
      [0, 0]]
     \<noteq> ([[0, 0],
         [1 / (1 + (exp (- 2) + exp (- 3))) * 2 * (7 / 2)
            + (0 * (3 / 2) + 0 * (1 / 2)),
          1 / (1 + (exp (- 2) + exp (- 3))) * 2 * (7 / 2)
            + (0 * (3 / 2) + 0 * (1 / 2))],
         [0, 0]] :: real list list)"
proof -
  have pe: "permute [2, 0, 1] [(0, 1), (2, 1), (1 :: int, 1 :: int)] = [(1, 1), (0, 1), (2, 1)]"
    and pt: "permute [2, 0, 1] [0, 1, 0 :: int] = [0, 0, 1]"
    by (simp_all add: permute_def)
  have e: "exp (- 2 :: real) < 1"
    by simp
  have st: "exp (- 2) + (exp (- 3) + 1) = 1 + (exp (- 2) + exp (- 3 :: real))"
    by simp
  have pos: "0 < 1 + (exp (- 2) + exp (- 3 :: real))"
    by (simp add: add_pos_pos)
  have a: "2 + (exp (- 2) * 2 + exp (- 3 :: real) * 2) \<noteq> 0"
    using pos by linarith
  have b: "3 * exp (- 2 :: real) \<noteq> 7"
    using e by linarith
  have ne: "exp (- 2) / (exp (- 2) + (exp (- 3) + 1)) * 2 * (3 / 2) + (0 * (1 / 2) + 0 * (7 / 2))
                 \<noteq> (1 / (1 + (exp (- 2) + exp (- 3))) * 2 * (7 / 2) + (0 * (3 / 2) + 0 * (1 / 2))
                    :: real)"
    unfolding st using a b by simp
  have neq: "[[0, 0],
              [exp (- 2) / (exp (- 2) + (exp (- 3) + 1)) * 2 * (3 / 2)
                 + (0 * (1 / 2) + 0 * (7 / 2)),
               exp (- 2) / (exp (- 2) + (exp (- 3) + 1)) * 2 * (3 / 2)
                 + (0 * (1 / 2) + 0 * (7 / 2))],
              [0, 0]]
     \<noteq> ([[0, 0],
         [1 / (1 + (exp (- 2) + exp (- 3))) * 2 * (7 / 2)
            + (0 * (3 / 2) + 0 * (1 / 2)),
          1 / (1 + (exp (- 2) + exp (- 3))) * 2 * (7 / 2)
            + (0 * (3 / 2) + 0 * (1 / 2))],
         [0, 0]] :: real list list)"
    using ne by (simp only: list.inject simp_thms not_False_eq_True)
  show ?thesis
    by (intro conjI)
      (rule init_layer1_dropout pe pt forward_dropout_half_ex forward_dropout_half_perm_ex neq)+
qed

end
